(* ===== verification/Prelude.thy ===== *)
theory Prelude
  imports Main "HOL-Library.AList" "HOL-Library.Char_ord"
begin

text \<open>
  Shared vocabulary of the development: the JavaScript primitives the source uses (ASCII
  lower-casing, prefixes, \<^verbatim>\<open>parseInt\<close>, objects as insertion-ordered association
  lists, safe-integer conversion and the rounding of a double product), errors as values,
  and a small state monad whose state survives a throw, because the fields of a
  JavaScript object keep what was written to them before an exception.
\<close>

named_theorems keeps_intros "rules that show that an action keeps an invariant, also when it throws"
named_theorems monad_simps "unfolding of the state-and-error monad"

section \<open>Errors and results\<close>

text \<open>
  \<open>RpcError\<close> is the class of \<^verbatim>\<open>packages/utils/src/Utils.ts\<close> (message, code and
  the \<^verbatim>\<open>data\<close> object); \<open>JsError\<close> is any other \<^verbatim>\<open>Error\<close> (a plain
  \<^verbatim>\<open>new Error\<close>, a TypeError, a library fault), with its message and the
  \<^verbatim>\<open>code\<close> property if it has one.
\<close>

datatype js_error =
  RpcError string int "(string \<times> string) list"
| JsError string "int option"

fun err_message :: "js_error \<Rightarrow> string" where
  "err_message (RpcError m c d) = m"
| "err_message (JsError m c) = m"

fun is_RpcError :: "js_error \<Rightarrow> bool" where
  "is_RpcError (RpcError m c d) = True"
| "is_RpcError (JsError m c) = False"

type_synonym 'a res = "js_error + 'a"

definition bindE :: "'a res \<Rightarrow> ('a \<Rightarrow> 'b res) \<Rightarrow> 'b res" where
  "bindE r f = (case r of Inl e \<Rightarrow> Inl e | Inr a \<Rightarrow> f a)"

lemma bindE_simps [simp]:
  "bindE (Inl e) f = Inl e"
  "bindE (Inr a) f = f a"
  by (simp_all add: bindE_def)

lemma bindE_Inr_iff: "bindE r f = Inr b \<longleftrightarrow> (\<exists>a. r = Inr a \<and> f a = Inr b)"
  by (cases r) auto

fun forE :: "'a list \<Rightarrow> ('a \<Rightarrow> unit res) \<Rightarrow> unit res" where
  "forE [] f = Inr ()"
| "forE (x # xs) f = bindE (f x) (\<lambda>_. forE xs f)"

lemma forE_Inr_iff: "forE xs f = Inr () \<longleftrightarrow> (\<forall>x\<in>set xs. f x = Inr ())"
  by (induction xs) (auto simp: bindE_Inr_iff)

fun mapE :: "('a \<Rightarrow> 'b res) \<Rightarrow> 'a list \<Rightarrow> 'b list res" where
  "mapE f [] = Inr []"
| "mapE f (x # xs) = bindE (f x) (\<lambda>y. bindE (mapE f xs) (\<lambda>ys. Inr (y # ys)))"

section \<open>State and error monad\<close>

type_synonym ('s, 'a) act = "'s \<Rightarrow> 'a res \<times> 's"

definition retM :: "'a \<Rightarrow> ('s, 'a) act" where
  "retM a s = (Inr a, s)"

definition throwM :: "js_error \<Rightarrow> ('s, 'a) act" where
  "throwM e s = (Inl e, s)"

definition bindM :: "('s, 'a) act \<Rightarrow> ('a \<Rightarrow> ('s, 'b) act) \<Rightarrow> ('s, 'b) act" where
  "bindM m f s = (case m s of (Inl e, s') \<Rightarrow> (Inl e, s') | (Inr a, s') \<Rightarrow> f a s')"

definition thenM :: "('s, 'a) act \<Rightarrow> ('s, 'b) act \<Rightarrow> ('s, 'b) act" where
  "thenM m n = bindM m (\<lambda>_. n)"

definition getM :: "('s \<Rightarrow> 'a) \<Rightarrow> ('s, 'a) act" where
  "getM f s = (Inr (f s), s)"

text \<open>An action chosen by looking at the state it runs in (\<^verbatim>\<open>this\<close>).\<close>

definition lookM :: "('s \<Rightarrow> ('s, 'a) act) \<Rightarrow> ('s, 'a) act" where
  "lookM F s = F s s"

definition modifyM :: "('s \<Rightarrow> 's) \<Rightarrow> ('s, unit) act" where
  "modifyM f s = (Inr (), f s)"

definition liftE :: "'a res \<Rightarrow> ('s, 'a) act" where
  "liftE r s = (r, s)"

text \<open>\<^verbatim>\<open>try m catch (e) h(e)\<close>: the handler runs in the state the throw left behind.\<close>

definition catchM :: "('s, 'a) act \<Rightarrow> (js_error \<Rightarrow> ('s, 'a) act) \<Rightarrow> ('s, 'a) act" where
  "catchM m h s = (case m s of (Inl e, s') \<Rightarrow> h e s' | (Inr a, s') \<Rightarrow> (Inr a, s'))"

fun forM :: "'x list \<Rightarrow> ('x \<Rightarrow> ('s, unit) act) \<Rightarrow> ('s, unit) act" where
  "forM [] f = retM ()"
| "forM (x # xs) f = thenM (f x) (forM xs f)"

fun seqM :: "('s, unit) act list \<Rightarrow> ('s, unit) act" where
  "seqM [] = retM ()"
| "seqM (m # ms) = thenM m (seqM ms)"

declare retM_def [monad_simps] throwM_def [monad_simps] bindM_def [monad_simps]
  thenM_def [monad_simps] getM_def [monad_simps] modifyM_def [monad_simps]
  liftE_def [monad_simps] catchM_def [monad_simps] lookM_def [monad_simps]

lemma retM_bind [simp]: "bindM (retM a) f = f a"
  by (simp add: fun_eq_iff monad_simps)

lemma bindM_ret [simp]: "bindM m retM = m"
  by (simp add: fun_eq_iff monad_simps split: prod.split sum.split)

lemma bindM_assoc: "bindM (bindM m f) g = bindM m (\<lambda>a. bindM (f a) g)"
  by (simp add: fun_eq_iff monad_simps split: prod.split sum.split)

lemma throwM_bind [simp]: "bindM (throwM e) f = throwM e"
  by (simp add: fun_eq_iff monad_simps)

lemma bindM_InrD:
  assumes "bindM m f s = (Inr b, t)"
  obtains a u where "m s = (Inr a, u)" and "f a u = (Inr b, t)"
  using assms by (auto simp: bindM_def split: prod.splits sum.splits)

lemma thenM_InrD:
  assumes "thenM m n s = (Inr b, t)"
  obtains a u where "m s = (Inr a, u)" and "n u = (Inr b, t)"
  using assms by (auto simp: thenM_def elim: bindM_InrD)

text \<open>An action returns a value exactly when its parts do.\<close>

lemma bindM_Inr_iff: "bindM m f s = (Inr b, t) \<longleftrightarrow> (\<exists>a u. m s = (Inr a, u) \<and> f a u = (Inr b, t))"
  by (auto simp: bindM_def split: prod.splits sum.splits)

lemma thenM_Inr_iff: "thenM m n s = (Inr b, t) \<longleftrightarrow> (\<exists>a u. m s = (Inr a, u) \<and> n u = (Inr b, t))"
  by (simp add: thenM_def bindM_Inr_iff)

lemma liftE_Inr_iff: "liftE r s = (Inr b, t) \<longleftrightarrow> r = Inr b \<and> t = s"
  by (auto simp: liftE_def)

lemma retM_Inr_iff: "retM a s = (Inr b, t) \<longleftrightarrow> b = a \<and> t = s"
  by (auto simp: retM_def)

lemmas returns_iffs = bindM_Inr_iff thenM_Inr_iff liftE_Inr_iff retM_Inr_iff lookM_def

text \<open>
  An action keeps an invariant when the state it leaves satisfies it whether the action
  returned or threw.
\<close>

definition keeps :: "('s \<Rightarrow> bool) \<Rightarrow> ('s, 'a) act \<Rightarrow> bool" where
  "keeps I m \<longleftrightarrow> (\<forall>s. I s \<longrightarrow> I (snd (m s)))"

lemma keepsI: "(\<And>s. I s \<Longrightarrow> I (snd (m s))) \<Longrightarrow> keeps I m"
  by (simp add: keeps_def)

lemma keepsD: "keeps I m \<Longrightarrow> I s \<Longrightarrow> I (snd (m s))"
  by (simp add: keeps_def)

lemma keeps_res: "keeps I m \<Longrightarrow> I s \<Longrightarrow> m s = (r, t) \<Longrightarrow> I t"
  by (metis keepsD snd_conv)

lemma keeps_pure [keeps_intros]:
  "keeps I (retM a)" "keeps I (throwM e)" "keeps I (getM f)" "keeps I (liftE r)"
  by (simp_all add: keeps_def monad_simps)

lemma keeps_modifyM [keeps_intros]: "(\<And>s. I s \<Longrightarrow> I (f s)) \<Longrightarrow> keeps I (modifyM f)"
  by (simp add: keeps_def monad_simps)

lemma keeps_lookM [keeps_intros]: "(\<And>a. keeps I (F a)) \<Longrightarrow> keeps I (lookM F)"
  by (simp add: keeps_def lookM_def)

lemma keeps_bindM [keeps_intros]:
  assumes "keeps I m" and "\<And>a. keeps I (f a)"
  shows "keeps I (bindM m f)"
proof (rule keepsI)
  fix s assume "I s"
  with assms(1) have "I (snd (m s))" by (rule keepsD)
  with assms(2) show "I (snd (bindM m f s))"
    by (auto simp: bindM_def keeps_def split: prod.split sum.split)
qed

lemma keeps_thenM [keeps_intros]: "keeps I m \<Longrightarrow> keeps I n \<Longrightarrow> keeps I (thenM m n)"
  by (simp add: thenM_def keeps_bindM)

lemma keeps_catchM [keeps_intros]:
  assumes "keeps I m" and "\<And>e. keeps I (h e)"
  shows "keeps I (catchM m h)"
proof (rule keepsI)
  fix s assume "I s"
  with assms(1) have "I (snd (m s))" by (rule keepsD)
  with assms(2) show "I (snd (catchM m h s))"
    by (auto simp: catchM_def keeps_def split: prod.split sum.split)
qed

lemma keeps_if [keeps_intros]: "keeps I m \<Longrightarrow> keeps I n \<Longrightarrow> keeps I (if b then m else n)"
  by simp

lemma keeps_forM [keeps_intros]: "(\<And>x. x \<in> set xs \<Longrightarrow> keeps I (f x)) \<Longrightarrow> keeps I (forM xs f)"
  by (induction xs) (auto intro: keeps_intros)

lemma keeps_seqM [keeps_intros]: "(\<And>m. m \<in> set ms \<Longrightarrow> keeps I m) \<Longrightarrow> keeps I (seqM ms)"
  by (induction ms) (auto intro: keeps_intros)

lemma keeps_conj: "keeps P m \<Longrightarrow> keeps Q m \<Longrightarrow> keeps (\<lambda>s. P s \<and> Q s) m"
  by (simp add: keeps_def)

lemma keeps_query [keeps_intros]: "keeps I (\<lambda>s. (f s, s))"
  by (simp add: keeps_def)

lemma forM_append: "forM (xs @ ys) f = thenM (forM xs f) (forM ys f)"
  by (induction xs) (simp_all add: thenM_def bindM_assoc)

section \<open>JavaScript strings\<close>

definition lower_char :: "char \<Rightarrow> char" where
  "lower_char c = (let n = of_char c :: int in if 65 \<le> n \<and> n \<le> 90 then char_of (n + 32) else c)"

text \<open>\<^verbatim>\<open>String.prototype.toLowerCase\<close> on the ASCII strings the program handles.\<close>

definition toLowerCase :: "string \<Rightarrow> string" where
  "toLowerCase s = map lower_char s"

lemma lower_char_idem [simp]: "lower_char (lower_char c) = lower_char c"
proof -
  have "(of_char (char_of (n + 32) :: char) :: int) = n + 32" if "65 \<le> n" "n \<le> 90" for n :: int
    using that by simp
  then show ?thesis by (simp add: lower_char_def Let_def)
qed

lemma toLowerCase_idem [simp]: "toLowerCase (toLowerCase s) = toLowerCase s"
  by (simp add: toLowerCase_def)

lemma toLowerCase_Nil [simp]: "toLowerCase [] = []"
  by (simp add: toLowerCase_def)

lemma length_toLowerCase [simp]: "length (toLowerCase s) = length s"
  by (simp add: toLowerCase_def)

lemma toLowerCase_slice: "toLowerCase (take n s) = take n (toLowerCase s)"
  by (simp add: toLowerCase_def take_map)

definition startsWith :: "string \<Rightarrow> string \<Rightarrow> bool" where
  "startsWith s p \<longleftrightarrow> take (length p) s = p"

text \<open>Decimal rendering of an integer, as a template string prints it.\<close>

function digits_of :: "int \<Rightarrow> string" where
  "digits_of n = (if n < 10 then [char_of (48 + n)] else digits_of (n div 10) @ [char_of (48 + n mod 10)])"
  by pat_completeness auto

termination digits_of
  by (relation "measure nat") auto

declare digits_of.simps [simp del]

definition show_int :: "int \<Rightarrow> string" where
  "show_int i = (if i < 0 then ''-'' @ digits_of (- i) else digits_of i)"

definition dq :: string where
  "dq = [CHR 0x22]"

section \<open>Numbers\<close>

text \<open>
  \<^verbatim>\<open>BigNumber\<close> values are the unbounded integers. \<open>toNumber\<close> is their conversion to a
  JavaScript number, which fails outside the 53-bit range.
\<close>

definition overflow_error :: js_error where
  "overflow_error = JsError ''overflow'' None"

definition safe_int :: "int \<Rightarrow> bool" where
  "safe_int n \<longleftrightarrow> \<bar>n\<bar> < 2 ^ 53"

definition toNumber :: "int \<Rightarrow> int res" where
  "toNumber n = (if safe_int n then Inr n else Inl overflow_error)"

lemma toNumber_Inr_iff: "toNumber n = Inr m \<longleftrightarrow> m = n \<and> safe_int n"
  by (auto simp: toNumber_def)

text \<open>
  \<^verbatim>\<open>parseInt(s)\<close> and \<^verbatim>\<open>parseInt(s, radix)\<close>: leading white space and a sign are skipped, a
  \<^verbatim>\<open>0x\<close> prefix selects base 16 unless another radix is given, and the longest prefix of digits
  counts; \<open>None\<close> is \<^verbatim>\<open>NaN\<close>. The result is the exact integer, where JavaScript rounds values
  of more than 53 bits.
\<close>

definition digit_value :: "char \<Rightarrow> int" where
  "digit_value c = (let n = of_char c :: int in
     if 48 \<le> n \<and> n \<le> 57 then n - 48
     else if 65 \<le> n \<and> n \<le> 90 then n - 55
     else if 97 \<le> n \<and> n \<le> 122 then n - 87 else 36)"

definition radix_value :: "int \<Rightarrow> string \<Rightarrow> int" where
  "radix_value r ds = foldl (\<lambda>a c. a * r + digit_value c) 0 ds"

definition parseInt :: "int option \<Rightarrow> string \<Rightarrow> int option" where
  "parseInt radix s =
     (let s1 = dropWhile (\<lambda>c. c = CHR '' '' \<or> c = CHR 0x09 \<or> c = CHR 0x0A \<or> c = CHR 0x0D) s;
          neg = (take 1 s1 = ''-'');
          s2 = (if neg \<or> take 1 s1 = ''+'' then drop 1 s1 else s1);
          hex = (case radix of None \<Rightarrow> True | Some r \<Rightarrow> r = 16) \<and> toLowerCase (take 2 s2) = ''0x'';
          r = (if hex then 16 else case radix of None \<Rightarrow> 10 | Some r \<Rightarrow> r);
          ds = takeWhile (\<lambda>c. digit_value c < r) (if hex then drop 2 s2 else s2)
      in if ds = [] then None else Some (if neg then - radix_value r ds else radix_value r ds))"

text \<open>
  Rounding to a 53-bit significand, ties to even: the result of a floating-point product
  whose exact value is the integer \<open>p\<close> scaled by a power of two.
\<close>

function exp53 :: "int \<Rightarrow> nat" where
  "exp53 p = (if p < 2 ^ 53 then 0 else Suc (exp53 (p div 2)))"
  by pat_completeness auto

termination exp53
  by (relation "measure nat") auto

declare exp53.simps [simp del]

definition round53 :: "int \<Rightarrow> int" where
  "round53 p = (let u = 2 ^ exp53 p; q = p div u; r = p mod u in
     if 2 * r < u \<or> (2 * r = u \<and> even q) then q * u else (q + 1) * u)"

lemma exp53_bound: "exp53 p = 0 \<or> 2 ^ exp53 p * 2 ^ 52 \<le> p"
proof (induction p rule: exp53.induct)
  case (1 p)
  show ?case
  proof (cases "p < 2 ^ 53")
    case False
    have "2 ^ exp53 (p div 2) * 2 ^ 52 \<le> p div 2"
    proof (cases "exp53 (p div 2) = 0")
      case True
      then show ?thesis using False by simp
    next
      case False
      with "1.IH" [OF \<open>\<not> p < 2 ^ 53\<close>] show ?thesis by simp
    qed
    then show ?thesis using False by (simp add: exp53.simps [of p])
  qed (simp add: exp53.simps [of p])
qed

text \<open>The rounding error is at most half a unit in the last place, \<open>p / 2 ^ 53\<close>.\<close>

lemma round53_lower:
  assumes "0 \<le> p"
  shows "p * 2 ^ 53 \<le> round53 p * 2 ^ 53 + p"
proof -
  define u q r where "u = (2::int) ^ exp53 p" and "q = p div u" and "r = p mod u"
  have u: "0 < u" by (simp add: u_def)
  then have r: "0 \<le> r" "r < u" by (simp_all add: r_def)
  have p: "p = q * u + r"
    by (simp only: q_def r_def div_mult_mod_eq)
  have rnd: "round53 p = (if 2 * r < u \<or> (2 * r = u \<and> even q) then q * u else (q + 1) * u)"
    by (simp only: round53_def Let_def u_def q_def r_def)
  consider "round53 p = q * u" "2 * r \<le> u" | "round53 p = (q + 1) * u"
    using rnd by (cases "2 * r < u \<or> (2 * r = u \<and> even q)") auto
  then show ?thesis
  proof cases
    case 1
    show ?thesis
    proof (cases "exp53 p = 0")
      case True
      then have "u = 1" by (simp add: u_def)
      with r have "r = 0" by simp
      with 1 p assms show ?thesis by simp
    next
      case False
      then have "u * 2 ^ 52 \<le> p" using exp53_bound [of p] by (simp add: u_def)
      then have "r * 2 ^ 53 \<le> p" using 1(2) by simp
      then show ?thesis using 1(1) p by (simp add: algebra_simps)
    qed
  next
    case 2
    then have "p \<le> round53 p" using p r by (simp add: algebra_simps)
    then show ?thesis using assms by simp
  qed
qed

section \<open>JavaScript objects as association lists\<close>

text \<open>
  An object used as a dictionary is the list of its entries in insertion order:
  \<open>AList.update\<close> overwrites in place or appends, \<open>AList.delete\<close> removes,
  \<open>map_of\<close> reads, \<open>map fst\<close> is \<^verbatim>\<open>Object.keys\<close>.
\<close>

type_synonym 'v obj = "(string \<times> 'v) list"

abbreviation obj_get :: "'v obj \<Rightarrow> string \<Rightarrow> 'v option" where
  "obj_get ob k \<equiv> map_of ob k"

abbreviation obj_keys :: "'v obj \<Rightarrow> string list" where
  "obj_keys ob \<equiv> map fst ob"

lemma obj_get_update [simp]: "obj_get (AList.update k v m) = (obj_get m)(k \<mapsto> v)"
  by (rule update_conv')

lemma obj_get_delete [simp]: "obj_get (AList.delete k m) = (obj_get m)(k := None)"
  by (rule delete_conv')

lemma obj_keys_delete: "obj_keys (AList.delete k m) = removeAll k (obj_keys m)"
  by (induction m) auto

lemma obj_get_keys: "k \<in> set (obj_keys m) \<longleftrightarrow> obj_get m k \<noteq> None"
  by (auto simp: map_of_eq_None_iff)

lemma set_obj_keys_update: "set (obj_keys (AList.update k v m)) = insert k (set (obj_keys m))"
  by (induction m) auto

lemma distinct_obj_keys_update:
  "distinct (obj_keys m) \<Longrightarrow> distinct (obj_keys (AList.update k v m))"
  by (rule distinct_update)

lemma distinct_obj_keys_delete:
  "distinct (obj_keys m) \<Longrightarrow> distinct (obj_keys (AList.delete k m))"
  by (simp add: obj_keys_delete distinct_removeAll)

section \<open>Optional values\<close>

text \<open>\<^verbatim>\<open>x ?? d\<close> and \<^verbatim>\<open>x?.toLowerCase()\<close>.\<close>

definition or_else :: "'a option \<Rightarrow> 'a \<Rightarrow> 'a" where
  "or_else x d = (case x of None \<Rightarrow> d | Some v \<Rightarrow> v)"

lemma or_else_simps [simp]: "or_else None d = d" "or_else (Some v) d = v"
  by (simp_all add: or_else_def)

definition lower_opt :: "string option \<Rightarrow> string option" where
  "lower_opt = map_option toLowerCase"

lemma lower_opt_simps [simp]: "lower_opt None = None" "lower_opt (Some s) = Some (toLowerCase s)"
  by (simp_all add: lower_opt_def)

lemma lower_opt_Some_iff: "lower_opt x = Some y \<longleftrightarrow> (\<exists>s. x = Some s \<and> y = toLowerCase s)"
  by (auto simp: lower_opt_def)

end
