(* ===== verification/OpTypes.thy ===== *)
theory OpTypes
  imports Prelude
begin

text \<open>
  The data the components exchange: operations (\<^verbatim>\<open>packages/utils/src/interfaces\<close>), error
  codes, stake information and storage maps (\<^verbatim>\<open>packages/utils/src/Utils.ts\<close>), validation
  results (\<^verbatim>\<open>packages/validation-manager/src/IValidationManager.ts\<close>), and the record
  of third-party functions the source calls. Those functions (ethers, the RLP and
  signature libraries) are not part of the repository: every definition that needs one
  takes it from an \<open>ethers_lib\<close> argument or from the \<open>lib\<close> field of its state.

  Numeric fields of type \<^verbatim>\<open>BigNumberish\<close> hold the integer they denote; byte strings
  are their hex text; an absent (\<^verbatim>\<open>undefined\<close> or \<^verbatim>\<open>null\<close>) field is \<open>None\<close>.
\<close>

section \<open>Error codes\<close>

datatype validation_errors =
  ParseError | InvalidRequest | MethodNotFound | InvalidFields | InternalError
| SimulateValidation | SimulatePaymasterValidation | OpcodeValidation | NotInTimeRange
| Reputation | InsufficientStake | UnsupportedSignatureAggregator | InvalidSignature
| PaymasterDepositTooLow | UserOperationReverted

fun error_code :: "validation_errors \<Rightarrow> int" where
  "error_code ParseError = -32700"
| "error_code InvalidRequest = -32600"
| "error_code MethodNotFound = -32601"
| "error_code InvalidFields = -32602"
| "error_code InternalError = -32603"
| "error_code SimulateValidation = -32500"
| "error_code SimulatePaymasterValidation = -32501"
| "error_code OpcodeValidation = -32502"
| "error_code NotInTimeRange = -32503"
| "error_code Reputation = -32504"
| "error_code InsufficientStake = -32505"
| "error_code UnsupportedSignatureAggregator = -32506"
| "error_code InvalidSignature = -32507"
| "error_code PaymasterDepositTooLow = -32508"
| "error_code UserOperationReverted = -32521"

section \<open>Third-party functions\<close>

record ethers_lib =
  lib_pack_192_64 :: "int \<Rightarrow> int \<Rightarrow> int res"
    \<comment> \<open>\<^verbatim>\<open>BigNumber.from(solidityPack(['uint192', 'uint64'], [key, nonce]))\<close>\<close>
  lib_isAddress :: "string \<Rightarrow> bool"
  lib_keccak256 :: "string \<Rightarrow> string res"
  lib_hexZeroPad32 :: "string \<Rightarrow> string res"
    \<comment> \<open>\<^verbatim>\<open>hexZeroPad(s, 32)\<close>\<close>
  lib_hexlify :: "string \<Rightarrow> string res"
    \<comment> \<open>\<^verbatim>\<open>hexlify(s)\<close> of a hex string\<close>
  lib_bn_from :: "string \<Rightarrow> int res"
    \<comment> \<open>\<^verbatim>\<open>BigNumber.from(s)\<close> of a string\<close>
  lib_rlp_encode :: "string list \<Rightarrow> int list"
    \<comment> \<open>\<^verbatim>\<open>RLP.encode\<close> of a list of hex strings, as bytes\<close>
  lib_keccak256_bytes :: "int list \<Rightarrow> string"
  lib_ecrecover :: "string \<Rightarrow> string \<Rightarrow> string \<Rightarrow> string \<Rightarrow> string res"
    \<comment> \<open>message hash, yParity, r and s to the checksummed address of the recovered key\<close>
  lib_getFunction :: "string \<Rightarrow> string option"
    \<comment> \<open>\<^verbatim>\<open>AbiInterfaces.getFunction(sig).name\<close>, \<open>None\<close> when it throws\<close>
  lib_userOpHash :: "string \<Rightarrow> string \<Rightarrow> string"
    \<comment> \<open>hash of an encoded operation for an entry point\<close>

section \<open>Operations\<close>

record authorization =
  auth_chainId :: string
  auth_address :: string
  auth_nonce :: string
  auth_yParity :: string
  auth_r :: string
  auth_s :: string

text \<open>
  One record for the three operation interfaces: \<^verbatim>\<open>OperationBase\<close> (to
  \<open>paymasterPostOpGasLimit\<close>), \<^verbatim>\<open>UserOperation\<close> (to \<open>eip7702Auth\<close>) and
  \<^verbatim>\<open>OperationRIP7560\<close> (the rest). The source casts between them freely, so the
  fields outside \<^verbatim>\<open>OperationBase\<close> are optional.
\<close>

record operation =
  sender :: string
  nonce :: int
  factory :: "string option"
  factoryData :: "string option"
  paymaster :: "string option"
  paymasterData :: "string option"
  maxFeePerGas :: int
  maxPriorityFeePerGas :: int
  callGasLimit :: int
  verificationGasLimit :: int
  paymasterVerificationGasLimit :: "int option"
  paymasterPostOpGasLimit :: "int option"
  callData :: "string option"
  signature :: "string option"
  preVerificationGas :: "int option"
  eip7702Auth :: "authorization option"
  op_chainId :: "int option"
  builderFee :: "int option"
  executionData :: "string option"
  authorizationData :: "string option"
  nonceKey :: "int option"
  authorizationList :: "authorization list option"

section \<open>Stakes, storage maps, validation results\<close>

text \<open>\<open>context\<close> is the extra field of \<^verbatim>\<open>PaymasterValidationInfo\<close>, absent in a plain \<^verbatim>\<open>StakeInfo\<close>.\<close>

record stake_info =
  addr :: string
  stake :: int
  unstakeDelaySec :: int
  pm_context :: "string option"

datatype storage_entry = Root string | Slots "string obj"

type_synonym storage_map = "storage_entry obj"

record code_hashes =
  ch_addresses :: "string list"
  ch_hash :: string

record validation_result =
  preOpGas :: "int option"
  prefund :: "int option"
  sigFailed :: bool
  validAfter :: int
  validUntil :: int
  senderInfo :: stake_info
  factoryInfo :: "stake_info option"
  paymasterInfo :: "stake_info option"
  aggregatorInfo :: "stake_info option"

record validate_user_op_result = validation_result +
  referencedContracts :: code_hashes
  vr_storageMap :: storage_map

definition EmptyValidateUserOpResult :: validate_user_op_result where
  "EmptyValidateUserOpResult = \<lparr>
     preOpGas = Some 0, prefund = Some 0, sigFailed = False, validAfter = 0, validUntil = 0,
     senderInfo = \<lparr>addr = [], stake = 0, unstakeDelaySec = 0, pm_context = None\<rparr>,
     factoryInfo = None, paymasterInfo = None, aggregatorInfo = None,
     referencedContracts = \<lparr>ch_addresses = [], ch_hash = []\<rparr>,
     vr_storageMap = []\<rparr>"

definition AddressZero :: string where
  "AddressZero = ''0x0000000000000000000000000000000000000000''"

lemma toLowerCase_AddressZero [simp]: "toLowerCase AddressZero = AddressZero"
  by code_simp

text \<open>A plain operation and a plain library, from which concrete instances are built.\<close>

definition base_op :: "string \<Rightarrow> int \<Rightarrow> operation" where
  "base_op s n = \<lparr>sender = s, nonce = n, factory = None, factoryData = None, paymaster = None,
     paymasterData = None, maxFeePerGas = 0, maxPriorityFeePerGas = 0, callGasLimit = 0,
     verificationGasLimit = 0, paymasterVerificationGasLimit = None,
     paymasterPostOpGasLimit = None, callData = Some ''0x'', signature = Some ''0x'',
     preVerificationGas = Some 0, eip7702Auth = None, op_chainId = None, builderFee = None,
     executionData = None, authorizationData = None, nonceKey = None, authorizationList = None\<rparr>"

definition base_lib :: ethers_lib where
  "base_lib = \<lparr>
     lib_pack_192_64 = (\<lambda>k n. if 0 \<le> k \<and> k < 2 ^ 192 \<and> 0 \<le> n \<and> n < 2 ^ 64
        then Inr (k * 2 ^ 64 + n) else Inl (JsError ''value out of range'' None)),
     lib_isAddress = (\<lambda>s. startsWith s ''0x''),
     lib_keccak256 = (\<lambda>s. Inr s),
     lib_hexZeroPad32 = (\<lambda>s. Inr s),
     lib_hexlify = (\<lambda>s. Inr s),
     lib_bn_from = (\<lambda>s. Inr (int (length s))),
     lib_rlp_encode = (\<lambda>ss. map (\<lambda>s. int (length s)) ss),
     lib_keccak256_bytes = (\<lambda>bs. show_int (sum_list bs)),
     lib_ecrecover = (\<lambda>h y r s. Inr s),
     lib_getFunction = (\<lambda>s. None),
     lib_userOpHash = (\<lambda>o' ep. o' @ ep)\<rparr>"

end
