(* ===== verification/Utils.thy ===== *)
theory Utils
  imports OpTypes
begin

text \<open>
  \<^verbatim>\<open>packages/utils/src/Utils.ts\<close> and \<^verbatim>\<open>interfaces/EIP7702Authorization.ts\<close>:
  conditions that throw, storage-map merging, gas sums, nonce packing, and the EIP-7702
  authorization helpers.
\<close>

section \<open>requireCond\<close>

definition requireCond :: "bool \<Rightarrow> string \<Rightarrow> validation_errors \<Rightarrow> (string \<times> string) list \<Rightarrow> unit res" where
  "requireCond cond msg code data = (if \<not> cond then Inl (RpcError msg (error_code code) data) else Inr ())"

lemma requireCond_Inr_iff [simp]: "requireCond c m e d = Inr u \<longleftrightarrow> c"
  by (simp add: requireCond_def)

lemma requireCond_simps:
  "c \<Longrightarrow> requireCond c m e d = Inr ()"
  "\<not> c \<Longrightarrow> requireCond c m e d = Inl (RpcError m (error_code e) d)"
  by (simp_all add: requireCond_def)

definition tostr :: "int \<Rightarrow> string" where
  "tostr s = show_int s"

section \<open>Address fields of a raw operation\<close>

text \<open>
  A raw operation is the JSON object of the request: its present fields with their text.
\<close>

definition hex_char :: "char \<Rightarrow> bool" where
  "hex_char c \<longleftrightarrow> lower_char c \<in> set ''0123456789abcdef''"

text \<open>\<^verbatim>\<open>/^0x[a-f0-9]{10,40}$/i\<close> and \<^verbatim>\<open>/^0x[a-fA-F\d]*$/i\<close>\<close>

definition matches_addr :: "string \<Rightarrow> bool" where
  "matches_addr s \<longleftrightarrow> toLowerCase (take 2 s) = ''0x'' \<and> list_all hex_char (drop 2 s)
     \<and> 10 \<le> length (drop 2 s) \<and> length (drop 2 s) \<le> 40"

definition HEX_REGEX :: "string \<Rightarrow> bool" where
  "HEX_REGEX s \<longleftrightarrow> toLowerCase (take 2 s) = ''0x'' \<and> list_all hex_char (drop 2 s)"

fun join_comma :: "string list \<Rightarrow> string" where
  "join_comma [] = []"
| "join_comma [x] = x"
| "join_comma (x # xs) = x @ '','' @ join_comma xs"

definition requireAddressAndFields ::
  "string obj \<Rightarrow> string \<Rightarrow> string list \<Rightarrow> string list \<Rightarrow> unit res" where
  "requireAddressAndFields raw addrField mustFields optionalFields =
     (case obj_get raw addrField of
        None \<Rightarrow>
          (let unexpected = filter (\<lambda>(name, v). name \<in> set mustFields \<or> name \<in> set optionalFields) raw in
           requireCond (unexpected = [])
             (''no '' @ addrField @ '' but got '' @ join_comma (map (\<lambda>(name, v). name @ '','' @ v) unexpected))
             InvalidFields [])
      | Some a \<Rightarrow>
          bindE (requireCond (matches_addr a) (''invalid '' @ addrField) InvalidFields [])
            (\<lambda>_. let missing = filter (\<lambda>name. obj_get raw name = None) mustFields in
               requireCond (missing = [])
                 (''got '' @ addrField @ '' but missing '' @ join_comma missing) InvalidFields []))"

text \<open>What the check promises: the address field and its mandatory fields come together.\<close>

lemma requireAddressAndFields_ok:
  assumes "requireAddressAndFields raw a must opt = Inr ()"
  shows "obj_get raw a \<noteq> None \<Longrightarrow> \<forall>f\<in>set must. obj_get raw f \<noteq> None"
    and "obj_get raw a = None \<Longrightarrow> \<forall>f\<in>set must \<union> set opt. obj_get raw f = None"
proof -
  show "\<forall>f\<in>set must. obj_get raw f \<noteq> None" if "obj_get raw a \<noteq> None"
    using assms that
    by (auto simp: requireAddressAndFields_def Let_def bindE_Inr_iff filter_empty_conv)
  show "\<forall>f\<in>set must \<union> set opt. obj_get raw f = None" if "obj_get raw a = None"
    using assms that
    by (fastforce simp: requireAddressAndFields_def Let_def filter_empty_conv map_of_eq_None_iff)
qed

section \<open>mapOf, sum, getUserOpMaxCost\<close>

fun mapOf_step :: "(string \<Rightarrow> 'a) \<Rightarrow> (string \<Rightarrow> bool) option \<Rightarrow> 'a obj \<Rightarrow> string \<Rightarrow> 'a obj" where
  "mapOf_step mapper None ret key = AList.update key (mapper key) ret"
| "mapOf_step mapper (Some p) ret key = (if p key then AList.update key (mapper key) ret else ret)"

definition mapOf :: "string list \<Rightarrow> (string \<Rightarrow> 'a) \<Rightarrow> (string \<Rightarrow> bool) option \<Rightarrow> 'a obj" where
  "mapOf keys mapper flt = foldl (mapOf_step mapper flt) [] keys"

definition sum_opt :: "int option list \<Rightarrow> int" where
  "sum_opt args = foldl (\<lambda>acc cur. acc + or_else cur 0) 0 args"

definition getUserOpMaxCost :: "operation \<Rightarrow> int" where
  "getUserOpMaxCost op = sum_opt [
      Some (or_else (preVerificationGas op) 0),
      Some (verificationGasLimit op),
      Some (callGasLimit op),
      Some (or_else (paymasterVerificationGasLimit op) 0),
      Some (or_else (paymasterPostOpGasLimit op) 0)] * maxFeePerGas op"

section \<open>mergeStorageMap\<close>

definition merge_slots :: "string obj \<Rightarrow> string obj \<Rightarrow> string obj" where
  "merge_slots slots entry = foldl (\<lambda>s (slot, v). AList.update slot v s) slots entry"

fun mergeStorageMap_step :: "storage_map \<Rightarrow> string \<times> storage_entry \<Rightarrow> storage_map" where
  "mergeStorageMap_step merged (a, Root r) = AList.update a (Root r) merged"
| "mergeStorageMap_step merged (a, Slots entry) =
     (case obj_get merged a of
        Some (Root r) \<Rightarrow> merged
      | None \<Rightarrow> AList.update a (Slots (merge_slots [] entry)) merged
      | Some (Slots slots) \<Rightarrow> AList.update a (Slots (merge_slots slots entry)) merged)"

definition mergeStorageMap :: "storage_map \<Rightarrow> storage_map \<Rightarrow> storage_map" where
  "mergeStorageMap merged validation = foldl mergeStorageMap_step merged validation"

text \<open>The entry the merge leaves for an address, as a function of the two entries.\<close>

fun merge_entry :: "storage_entry option \<Rightarrow> storage_entry \<Rightarrow> storage_entry" where
  "merge_entry old (Root r) = Root r"
| "merge_entry (Some (Root r)) (Slots e) = Root r"
| "merge_entry (Some (Slots s)) (Slots e) = Slots (merge_slots s e)"
| "merge_entry None (Slots e) = Slots (merge_slots [] e)"

lemma mergeStorageMap_step_get:
  "obj_get (mergeStorageMap_step m (a, e)) b =
     (if b = a then Some (merge_entry (obj_get m a) e) else obj_get m b)"
  by (cases e; cases "obj_get m a") (auto split: storage_entry.splits)

lemma mergeStorageMap_get:
  assumes "distinct (obj_keys v)"
  shows "obj_get (mergeStorageMap m v) b =
    (case obj_get v b of None \<Rightarrow> obj_get m b | Some e \<Rightarrow> Some (merge_entry (obj_get m b) e))"
  using assms unfolding mergeStorageMap_def
proof (induction v arbitrary: m)
  case Nil
  then show ?case by simp
next
  case (Cons p v)
  obtain a e where p: "p = (a, e)" by (cases p)
  have "obj_get v a = None" using Cons.prems p by (simp add: map_of_eq_None_iff)
  moreover have "distinct (obj_keys v)" using Cons.prems by simp
  ultimately show ?case
    using Cons.IH [of "mergeStorageMap_step m (a, e)"] p
    by (auto simp: mergeStorageMap_step_get split: option.split)
qed

lemma merge_slots_get: "distinct (obj_keys e) \<Longrightarrow>
  obj_get (merge_slots s e) k = (case obj_get e k of None \<Rightarrow> obj_get s k | Some v \<Rightarrow> Some v)"
  unfolding merge_slots_def
proof (induction e arbitrary: s)
  case (Cons p e)
  obtain j w where p: "p = (j, w)" by (cases p)
  have "obj_get e j = None" using Cons.prems p by (simp add: map_of_eq_None_iff)
  moreover have "distinct (obj_keys e)" using Cons.prems by simp
  ultimately show ?case
    using Cons.IH [of "AList.update j w s"] p by (auto split: option.split)
qed simp

lemma mergeStorageMap_distinct:
  "distinct (obj_keys m) \<Longrightarrow> distinct (obj_keys (mergeStorageMap m v))"
  unfolding mergeStorageMap_def
proof (induction v arbitrary: m)
  case (Cons p v)
  obtain a e where p: "p = (a, e)" by (cases p)
  have "distinct (obj_keys (mergeStorageMap_step m (a, e)))"
    using Cons.prems
    by (cases e) (auto simp: distinct_obj_keys_update split: option.split storage_entry.split)
  then show ?case using Cons.IH p by simp
qed simp

section \<open>toBytes32\<close>

definition toBytes32 :: "ethers_lib \<Rightarrow> string \<Rightarrow> string res" where
  "toBytes32 L b = bindE (lib_hexlify L b) (\<lambda>h. lib_hexZeroPad32 L (toLowerCase h))"

text \<open>The address at the head of an \<^verbatim>\<open>initCode\<close> or \<^verbatim>\<open>paymasterAndData\<close>.\<close>

definition getAddr :: "ethers_lib \<Rightarrow> string option \<Rightarrow> string option res" where
  "getAddr L data =
     (case data of
        None \<Rightarrow> Inr None
      | Some d \<Rightarrow> bindE (lib_hexlify L d) (\<lambda>str. Inr (if length str \<ge> 42 then Some (take 42 str) else None)))"

section \<open>Nonces and authorizations\<close>

definition getPackedNonce :: "ethers_lib \<Rightarrow> operation \<Rightarrow> int res" where
  "getPackedNonce L op =
     (case nonceKey op of
        None \<Rightarrow> Inr (nonce op)
      | Some k \<Rightarrow> if k = 0 then Inr (nonce op) else lib_pack_192_64 L k (nonce op))"

definition getAuthorizationList :: "operation \<Rightarrow> authorization list" where
  "getAuthorizationList op =
     (case eip7702Auth op of
        Some a \<Rightarrow> [a]
      | None \<Rightarrow> or_else (authorizationList op) [])"

text \<open>\<^verbatim>\<open>s.replace(/0x0*/, '0x')\<close>: the zeros after the first \<^verbatim>\<open>0x\<close> go.\<close>

fun toRlpHex :: "string \<Rightarrow> string" where
  "toRlpHex (a # b # s) =
     (if a = CHR ''0'' \<and> b = CHR ''x'' then a # b # dropWhile (\<lambda>c. c = CHR ''0'') s
      else a # toRlpHex (b # s))"
| "toRlpHex s = s"

definition getEip7702AuthorizationSigner :: "ethers_lib \<Rightarrow> authorization \<Rightarrow> string res" where
  "getEip7702AuthorizationSigner L a =
     (let rlpEncode = 5 # lib_rlp_encode L [toRlpHex (auth_chainId a), toRlpHex (auth_address a), toRlpHex (auth_nonce a)];
          messageHash = lib_keccak256_bytes L rlpEncode in
      bindE (lib_ecrecover L messageHash (auth_yParity a) (auth_r a) (auth_s a)) (\<lambda>snd'.
        if snd' = AddressZero
        then Inl (JsError (''Failed to recover authorization for address '' @ auth_address a) None)
        else Inr snd'))"

text \<open>A leading \<^verbatim>\<open>0x0\<close> is never left by \<open>toRlpHex\<close>, so RLP gets minimal integers.\<close>

lemma toRlpHex_minimal: "toRlpHex (CHR ''0'' # CHR ''x'' # s) \<noteq> CHR ''0'' # CHR ''x'' # CHR ''0'' # t"
proof
  assume "toRlpHex (CHR ''0'' # CHR ''x'' # s) = CHR ''0'' # CHR ''x'' # CHR ''0'' # t"
  then have "dropWhile (\<lambda>c. c = CHR ''0'') s = CHR ''0'' # t" by simp
  then show False by (metis (mono_tags) dropWhile_eq_Cons_conv)
qed

end
