(* ===== verification/ReputationManager.thy ===== *)
theory ReputationManager
  imports Utils
begin

text \<open>
  \<^verbatim>\<open>packages/bundler/src/modules/ReputationManager.ts\<close>. The state of the manager is the
  record \<open>rep_state\<close>; later components extend it, because they share this one object.
  Counters are JavaScript numbers that hold integers, so they are \<open>int\<close>; the quotients
  the code takes with \<^verbatim>\<open>Math.floor\<close> are exact for counters far below \<open>2 ^ 53\<close> and are
  written with \<open>div\<close>.
\<close>

section \<open>State\<close>

definition BAN_OPS_SEEN_PENALTY :: int where "BAN_OPS_SEEN_PENALTY = 10000"
definition SAME_SENDER_MEMPOOL_COUNT :: int where "SAME_SENDER_MEMPOOL_COUNT = 4"
definition SAME_UNSTAKED_ENTITY_MEMPOOL_COUNT :: int where "SAME_UNSTAKED_ENTITY_MEMPOOL_COUNT = 10"

datatype reputation_status = OK | THROTTLED | BANNED

record reputation_params =
  minInclusionDenominator :: int
  throttlingSlack :: int
  banSlack :: int

definition BundlerReputationParams :: reputation_params where
  "BundlerReputationParams = \<lparr>minInclusionDenominator = 10, throttlingSlack = 10, banSlack = 50\<rparr>"

definition NonBundlerReputationParams :: reputation_params where
  "NonBundlerReputationParams = \<lparr>minInclusionDenominator = 100, throttlingSlack = 10, banSlack = 10\<rparr>"

record reputation_entry =
  rep_address :: string
  opsSeen :: int
  opsIncluded :: int
  rep_status :: "reputation_status option"

record rep_state =
  params :: reputation_params
  minStake :: int
  minUnstakeDelay :: int
  entries :: "reputation_entry obj"
  blackList :: "string set"
  whitelist :: "string set"

definition init_rep :: "reputation_params \<Rightarrow> int \<Rightarrow> int \<Rightarrow> rep_state" where
  "init_rep p st del = \<lparr>params = p, minStake = st, minUnstakeDelay = del, entries = [],
     blackList = {}, whitelist = {}\<rparr>"

datatype entity_title = AccountTitle | PaymasterTitle | AggregatorTitle | DeployerTitle

fun title_name :: "entity_title \<Rightarrow> string" where
  "title_name AccountTitle = ''account''"
| "title_name PaymasterTitle = ''paymaster''"
| "title_name AggregatorTitle = ''aggregator''"
| "title_name DeployerTitle = ''deployer''"

section \<open>Operations\<close>

definition addWhitelist :: "string list \<Rightarrow> 'z rep_state_scheme \<Rightarrow> 'z rep_state_scheme" where
  "addWhitelist items s = s\<lparr>whitelist := foldl (\<lambda>w item. insert item w) (whitelist s) items\<rparr>"

definition addBlacklist :: "string list \<Rightarrow> 'z rep_state_scheme \<Rightarrow> 'z rep_state_scheme" where
  "addBlacklist items s = s\<lparr>blackList := foldl (\<lambda>w item. insert item w) (blackList s) items\<rparr>"

definition new_entry :: "string \<Rightarrow> reputation_entry" where
  "new_entry a = \<lparr>rep_address = a, opsSeen = 0, opsIncluded = 0, rep_status = None\<rparr>"

text \<open>
  \<^verbatim>\<open>_getOrCreate\<close> returns a reference into the table that the callers then mutate: the
  model returns the key, the entry and the table with the entry present, and the callers
  store the changed entry back under the key.
\<close>

definition getOrCreate :: "string \<Rightarrow> 'z rep_state_scheme \<Rightarrow> (string \<times> reputation_entry) \<times> 'z rep_state_scheme" where
  "getOrCreate a s = (let k = toLowerCase a in
     case obj_get (entries s) k of
       Some e \<Rightarrow> ((k, e), s)
     | None \<Rightarrow> ((k, new_entry k), s\<lparr>entries := AList.update k (new_entry k) (entries s)\<rparr>))"

definition put_entry :: "string \<Rightarrow> reputation_entry \<Rightarrow> 'z rep_state_scheme \<Rightarrow> 'z rep_state_scheme" where
  "put_entry k e s = s\<lparr>entries := AList.update k e (entries s)\<rparr>"

definition updateSeenStatus :: "string option \<Rightarrow> int \<Rightarrow> 'z rep_state_scheme \<Rightarrow> 'z rep_state_scheme" where
  "updateSeenStatus a val s =
     (case a of None \<Rightarrow> s
      | Some a' \<Rightarrow> (let ((k, e), s') = getOrCreate a' s in
          put_entry k (e\<lparr>opsSeen := max 0 (opsSeen e + val)\<rparr>) s'))"

definition updateIncludedStatus :: "string \<Rightarrow> 'z rep_state_scheme \<Rightarrow> 'z rep_state_scheme" where
  "updateIncludedStatus a s = (let ((k, e), s') = getOrCreate a s in
     put_entry k (e\<lparr>opsIncluded := opsIncluded e + 1\<rparr>) s')"

definition isWhitelisted :: "string \<Rightarrow> 'z rep_state_scheme \<Rightarrow> bool" where
  "isWhitelisted a s \<longleftrightarrow> a \<in> whitelist s"

text \<open>The status a pair of counters earns (lines 150 to 157 of the source).\<close>

definition entry_status :: "reputation_params \<Rightarrow> reputation_entry \<Rightarrow> reputation_status" where
  "entry_status p e = (let minExpectedIncluded = opsSeen e div minInclusionDenominator p in
     if minExpectedIncluded \<le> opsIncluded e + throttlingSlack p then OK
     else if minExpectedIncluded \<le> opsIncluded e + banSlack p then THROTTLED
     else BANNED)"

definition getStatus :: "string option \<Rightarrow> 'z rep_state_scheme \<Rightarrow> reputation_status" where
  "getStatus addr0 s =
     (case lower_opt addr0 of
        None \<Rightarrow> OK
      | Some a \<Rightarrow>
          if a \<in> whitelist s then OK
          else if a \<in> blackList s then BANNED
          else (case obj_get (entries s) a of
                  None \<Rightarrow> OK
                | Some e \<Rightarrow> entry_status (params s) e))"

definition hourly_entry :: "string \<Rightarrow> 'z rep_state_scheme \<Rightarrow> 'z rep_state_scheme" where
  "hourly_entry a s =
     (case obj_get (entries s) a of
        None \<Rightarrow> s
      | Some e \<Rightarrow>
          (let e1 = e\<lparr>opsSeen := opsSeen e * 23 div 24\<rparr>;
               e2 = e1\<lparr>opsIncluded := opsSeen e1 * 23 div 24\<rparr>
           in if opsIncluded e2 = 0 \<and> opsSeen e2 = 0
              then s\<lparr>entries := AList.delete a (entries s)\<rparr>
              else put_entry a e2 s))"

definition hourlyCron :: "'z rep_state_scheme \<Rightarrow> 'z rep_state_scheme" where
  "hourlyCron s = foldl (\<lambda>s a. hourly_entry a s) s (obj_keys (entries s))"

definition rep_dump :: "'z rep_state_scheme \<Rightarrow> reputation_entry list \<times> 'z rep_state_scheme" where
  "rep_dump s = (let es = map (\<lambda>(k, e). (k, e\<lparr>rep_status := Some (getStatus (Some (rep_address e)) s)\<rparr>)) (entries s)
     in (map snd es, s\<lparr>entries := es\<rparr>))"

definition getStakeStatus ::
  "(string \<Rightarrow> (int \<times> int) res) \<Rightarrow> string \<Rightarrow> 'z rep_state_scheme \<Rightarrow> (stake_info \<times> bool) res" where
  "getStakeStatus getDepositInfo address s =
     bindE (getDepositInfo address) (\<lambda>(st, del).
       Inr (\<lparr>addr = address, stake = st, unstakeDelaySec = del, pm_context = None\<rparr>,
            st \<ge> minStake s \<and> del \<ge> minUnstakeDelay s))"

definition crashedHandleOps :: "string option \<Rightarrow> 'z rep_state_scheme \<Rightarrow> 'z rep_state_scheme" where
  "crashedHandleOps a s =
     (case a of None \<Rightarrow> s
      | Some a' \<Rightarrow> (let ((k, e), s') = getOrCreate a' s in
          put_entry k (e\<lparr>opsSeen := opsSeen e + BAN_OPS_SEEN_PENALTY, opsIncluded := 0\<rparr>) s'))"

definition rep_clearState :: "'z rep_state_scheme \<Rightarrow> 'z rep_state_scheme" where
  "rep_clearState s = s\<lparr>entries := []\<rparr>"

text \<open>\<^verbatim>\<open>setReputation\<close>: a \<^verbatim>\<open>toNumber\<close> that fails leaves the entries set so far.\<close>

definition setReputation ::
  "(string \<times> int \<times> int) list \<Rightarrow> ('z rep_state_scheme, reputation_entry list) act" where
  "setReputation reps =
     bindM (forM reps (\<lambda>(a, seen, incl).
       bindM (liftE (toNumber seen)) (\<lambda>sn.
       bindM (liftE (toNumber incl)) (\<lambda>inc.
       modifyM (put_entry (toLowerCase a)
         \<lparr>rep_address = toLowerCase a, opsSeen = sn, opsIncluded = inc, rep_status = None\<rparr>)))))
     (\<lambda>_ s. (let (d, s') = rep_dump s in (Inr d, s')))"

definition checkBanned :: "entity_title \<Rightarrow> stake_info \<Rightarrow> 'z rep_state_scheme \<Rightarrow> unit res" where
  "checkBanned title info s = requireCond (getStatus (Some (addr info)) s \<noteq> BANNED)
     (title_name title @ '' '' @ addr info @ '' is banned'') Reputation [(title_name title, addr info)]"

definition checkThrottled :: "entity_title \<Rightarrow> stake_info \<Rightarrow> 'z rep_state_scheme \<Rightarrow> unit res" where
  "checkThrottled title info s = requireCond (getStatus (Some (addr info)) s \<noteq> THROTTLED)
     (title_name title @ '' '' @ addr info @ '' is throttled'') Reputation [(title_name title, addr info)]"

definition checkStake :: "entity_title \<Rightarrow> stake_info option \<Rightarrow> 'z rep_state_scheme \<Rightarrow> unit res" where
  "checkStake title info0 s =
     (case info0 of None \<Rightarrow> Inr ()
      | Some info \<Rightarrow>
         if isWhitelisted (addr info) s then Inr ()
         else
          bindE (checkBanned title info s) (\<lambda>_.
          bindE (requireCond (stake info \<ge> minStake s)
            (title_name title @ '' '' @ addr info @ '' '' @
              (if tostr (stake info) = ''0'' then ''is unstaked''
               else ''stake '' @ tostr (stake info) @ '' is too low (min='' @ tostr (minStake s) @ '')''))
            InsufficientStake []) (\<lambda>_.
          requireCond (unstakeDelaySec info \<ge> minUnstakeDelay s)
            (title_name title @ '' '' @ addr info @ '' unstake delay '' @ tostr (unstakeDelaySec info)
              @ '' is too low (min='' @ tostr (minUnstakeDelay s) @ '')'')
            InsufficientStake [])))"

definition calculateMaxAllowedMempoolOpsUnstaked :: "entity_title \<Rightarrow> string \<Rightarrow> 'z rep_state_scheme \<Rightarrow> int" where
  "calculateMaxAllowedMempoolOpsUnstaked title entity s =
     (let k = toLowerCase entity in
      if title = AccountTitle then SAME_SENDER_MEMPOOL_COUNT
      else (case obj_get (entries s) k of
        None \<Rightarrow> SAME_UNSTAKED_ENTITY_MEMPOOL_COUNT
      | Some e \<Rightarrow>
         (let rate10 = (if opsSeen e = 0 then 0 else opsIncluded e * 10 div opsSeen e)
          in SAME_UNSTAKED_ENTITY_MEMPOOL_COUNT + rate10 + min (opsIncluded e) 10000)))"


section \<open>Severity of a status\<close>

instantiation reputation_status :: linorder
begin

fun severity :: "reputation_status \<Rightarrow> nat" where
  "severity OK = 0"
| "severity THROTTLED = 1"
| "severity BANNED = 2"

definition less_eq_reputation_status :: "reputation_status \<Rightarrow> reputation_status \<Rightarrow> bool" where
  "less_eq_reputation_status a b \<longleftrightarrow> severity a \<le> severity b"

definition less_reputation_status :: "reputation_status \<Rightarrow> reputation_status \<Rightarrow> bool" where
  "less_reputation_status a b \<longleftrightarrow> severity a < severity b"

instance
proof
  fix a b c :: reputation_status
  show "a < b \<longleftrightarrow> a \<le> b \<and> \<not> b \<le> a"
    by (auto simp: less_eq_reputation_status_def less_reputation_status_def)
  show "a \<le> a" by (simp add: less_eq_reputation_status_def)
  show "a \<le> b \<Longrightarrow> b \<le> c \<Longrightarrow> a \<le> c" by (simp add: less_eq_reputation_status_def)
  show "a \<le> b \<Longrightarrow> b \<le> a \<Longrightarrow> a = b"
    by (cases a; cases b) (simp_all add: less_eq_reputation_status_def)
  show "a \<le> b \<or> b \<le> a" by (auto simp: less_eq_reputation_status_def)
qed

end

lemma status_le_simps [simp]:
  "OK \<le> x" "x \<le> BANNED" "THROTTLED \<le> OK \<longleftrightarrow> False" "BANNED \<le> OK \<longleftrightarrow> False"
  "BANNED \<le> THROTTLED \<longleftrightarrow> False"
  by (cases x; simp add: less_eq_reputation_status_def)+

section \<open>Frame facts\<close>

named_theorems rep_frame "what an operation leaves alone"

lemma getOrCreate_frame:
  "params (snd (getOrCreate a s)) = params s"
  "minStake (snd (getOrCreate a s)) = minStake s"
  "minUnstakeDelay (snd (getOrCreate a s)) = minUnstakeDelay s"
  "blackList (snd (getOrCreate a s)) = blackList s"
  "whitelist (snd (getOrCreate a s)) = whitelist s"
  by (simp_all add: getOrCreate_def Let_def split: option.split)

lemma put_entry_frame [simp]:
  "params (put_entry k e s) = params s" "minStake (put_entry k e s) = minStake s"
  "minUnstakeDelay (put_entry k e s) = minUnstakeDelay s"
  "blackList (put_entry k e s) = blackList s" "whitelist (put_entry k e s) = whitelist s"
  "entries (put_entry k e s) = AList.update k e (entries s)"
  by (simp_all add: put_entry_def)

text \<open>The entry an operation finds for an address: the stored one, or a fresh one.\<close>

definition entry_of :: "string \<Rightarrow> 'z rep_state_scheme \<Rightarrow> reputation_entry" where
  "entry_of a s = (case obj_get (entries s) (toLowerCase a) of
     None \<Rightarrow> new_entry (toLowerCase a) | Some e \<Rightarrow> e)"

lemma AList_update_twice: "AList.update k v' (AList.update k v m) = AList.update k v' m"
  by (induction m) auto

lemma updateSeenStatus_Some:
  "updateSeenStatus (Some a) val s =
     put_entry (toLowerCase a) (entry_of a s\<lparr>opsSeen := max 0 (opsSeen (entry_of a s) + val)\<rparr>) s"
  by (simp add: updateSeenStatus_def getOrCreate_def put_entry_def entry_of_def Let_def AList_update_twice
      split: option.split)

lemma updateSeenStatus_None [simp]: "updateSeenStatus None val s = s"
  by (simp add: updateSeenStatus_def)

lemma updateIncludedStatus_eq:
  "updateIncludedStatus a s =
     put_entry (toLowerCase a) (entry_of a s\<lparr>opsIncluded := opsIncluded (entry_of a s) + 1\<rparr>) s"
  by (simp add: updateIncludedStatus_def getOrCreate_def put_entry_def entry_of_def Let_def AList_update_twice
      split: option.split)

lemma crashedHandleOps_Some:
  "crashedHandleOps (Some a) s = put_entry (toLowerCase a)
     (entry_of a s\<lparr>opsSeen := opsSeen (entry_of a s) + BAN_OPS_SEEN_PENALTY, opsIncluded := 0\<rparr>) s"
  by (simp add: crashedHandleOps_def getOrCreate_def put_entry_def entry_of_def Let_def AList_update_twice
      split: option.split)

lemma crashedHandleOps_None [simp]: "crashedHandleOps None s = s"
  by (simp add: crashedHandleOps_def)

lemmas rep_writes = updateSeenStatus_Some updateIncludedStatus_eq crashedHandleOps_Some

lemma updateSeenStatus_frame [rep_frame]:
  "params (updateSeenStatus a v s) = params s"
  "minStake (updateSeenStatus a v s) = minStake s"
  "minUnstakeDelay (updateSeenStatus a v s) = minUnstakeDelay s"
  "blackList (updateSeenStatus a v s) = blackList s"
  "whitelist (updateSeenStatus a v s) = whitelist s"
  by (cases a; simp add: rep_writes)+

lemma updateIncludedStatus_frame [rep_frame]:
  "params (updateIncludedStatus b s) = params s"
  "minStake (updateIncludedStatus b s) = minStake s"
  "minUnstakeDelay (updateIncludedStatus b s) = minUnstakeDelay s"
  "blackList (updateIncludedStatus b s) = blackList s"
  "whitelist (updateIncludedStatus b s) = whitelist s"
  by (simp_all add: rep_writes)

lemma crashedHandleOps_frame [rep_frame]:
  "params (crashedHandleOps a s) = params s"
  "minStake (crashedHandleOps a s) = minStake s"
  "minUnstakeDelay (crashedHandleOps a s) = minUnstakeDelay s"
  "blackList (crashedHandleOps a s) = blackList s"
  "whitelist (crashedHandleOps a s) = whitelist s"
  by (cases a; simp add: rep_writes)+

declare rep_frame [simp]

section \<open>Well-formed tables\<close>

text \<open>
  What the table satisfies as long as the counters set from outside are not negative:
  keys are distinct lower-case addresses, an entry knows its key, counters are not negative.
\<close>

definition entry_ok :: "string \<Rightarrow> reputation_entry \<Rightarrow> bool" where
  "entry_ok k e \<longleftrightarrow> toLowerCase k = k \<and> rep_address e = k \<and> 0 \<le> opsSeen e \<and> 0 \<le> opsIncluded e"

definition rep_wf :: "'z rep_state_scheme \<Rightarrow> bool" where
  "rep_wf s \<longleftrightarrow> distinct (obj_keys (entries s)) \<and> (\<forall>k e. obj_get (entries s) k = Some e \<longrightarrow> entry_ok k e)"

lemma rep_wf_init: "rep_wf (init_rep p st del)"
  by (simp add: rep_wf_def init_rep_def)

lemma rep_wf_entry_of: "rep_wf s \<Longrightarrow> entry_ok (toLowerCase a) (entry_of a s)"
  by (auto simp: rep_wf_def entry_of_def entry_ok_def new_entry_def split: option.split)

lemma rep_wf_put_entry: "rep_wf s \<Longrightarrow> entry_ok k e \<Longrightarrow> rep_wf (put_entry k e s)"
  by (auto simp: rep_wf_def distinct_obj_keys_update)

lemma rep_wf_updateSeenStatus: "rep_wf s \<Longrightarrow> rep_wf (updateSeenStatus a v s)"
  using rep_wf_entry_of [of s]
  by (cases a) (auto simp: rep_writes entry_ok_def intro!: rep_wf_put_entry)

lemma rep_wf_updateIncludedStatus: "rep_wf s \<Longrightarrow> rep_wf (updateIncludedStatus a s)"
  using rep_wf_entry_of [of s a]
  by (auto simp: rep_writes entry_ok_def intro!: rep_wf_put_entry)

lemma rep_wf_crashedHandleOps: "rep_wf s \<Longrightarrow> rep_wf (crashedHandleOps a s)"
  using rep_wf_entry_of [of s]
  by (cases a) (auto simp: rep_writes entry_ok_def BAN_OPS_SEEN_PENALTY_def intro!: rep_wf_put_entry)

lemma hourly_entry_eq:
  "obj_get (entries s) a = Some e \<Longrightarrow> hourly_entry a s =
     (if opsSeen e * 23 div 24 = 0 then s\<lparr>entries := AList.delete a (entries s)\<rparr>
      else put_entry a (e\<lparr>opsSeen := opsSeen e * 23 div 24,
             opsIncluded := (opsSeen e * 23 div 24) * 23 div 24\<rparr>) s)"
  by (simp add: hourly_entry_def Let_def)

lemma rep_wf_delete: "rep_wf s \<Longrightarrow> rep_wf (s\<lparr>entries := AList.delete a (entries s)\<rparr>)"
  by (simp add: rep_wf_def distinct_obj_keys_delete)

lemma rep_wf_hourly_entry:
  assumes "rep_wf s"
  shows "rep_wf (hourly_entry a s)"
proof (cases "obj_get (entries s) a")
  case (Some e)
  with assms have ok: "entry_ok a e" by (simp add: rep_wf_def)
  then have "entry_ok a (e\<lparr>opsSeen := opsSeen e * 23 div 24,
      opsIncluded := (opsSeen e * 23 div 24) * 23 div 24\<rparr>)"
    by (simp add: entry_ok_def pos_imp_zdiv_nonneg_iff)
  then show ?thesis
    using assms by (simp add: hourly_entry_eq [OF Some] rep_wf_delete rep_wf_put_entry)
qed (use assms in \<open>simp add: hourly_entry_def\<close>)

lemma rep_wf_hourlyCron: "rep_wf s \<Longrightarrow> rep_wf (hourlyCron s)"
proof -
  have "rep_wf s \<Longrightarrow> rep_wf (foldl (\<lambda>s a. hourly_entry a s) s ks)" for ks
    by (induction ks arbitrary: s) (simp_all add: rep_wf_hourly_entry)
  then show "rep_wf s \<Longrightarrow> rep_wf (hourlyCron s)" by (simp add: hourlyCron_def)
qed

lemma obj_get_map_value: "obj_get (map (\<lambda>(k, e). (k, f e)) m) k = map_option f (obj_get m k)"
  by (induction m) auto

lemma rep_wf_dump: "rep_wf s \<Longrightarrow> rep_wf (snd (rep_dump s))"
  by (auto simp: rep_dump_def Let_def rep_wf_def obj_get_map_value entry_ok_def comp_def case_prod_beta)

lemma rep_wf_set_entry:
  "0 \<le> seen \<Longrightarrow> 0 \<le> incl \<Longrightarrow>
   keeps rep_wf (bindM (liftE (toNumber seen)) (\<lambda>sn. bindM (liftE (toNumber incl)) (\<lambda>inc.
     modifyM (put_entry (toLowerCase a) \<lparr>rep_address = toLowerCase a, opsSeen = sn,
       opsIncluded = inc, rep_status = None\<rparr>))))"
  by (rule keepsI) (auto simp: monad_simps toNumber_def entry_ok_def intro!: rep_wf_put_entry)

lemma rep_wf_setReputation:
  assumes "\<forall>(a, seen, incl)\<in>set reps. 0 \<le> seen \<and> 0 \<le> incl"
  shows "keeps rep_wf (setReputation reps)"
  unfolding setReputation_def
proof (intro keeps_bindM keeps_forM)
  fix r assume "r \<in> set reps"
  then show "keeps rep_wf (case r of (a, seen, incl) \<Rightarrow> bindM (liftE (toNumber seen)) (\<lambda>sn.
      bindM (liftE (toNumber incl)) (\<lambda>inc. modifyM (put_entry (toLowerCase a)
        \<lparr>rep_address = toLowerCase a, opsSeen = sn, opsIncluded = inc, rep_status = None\<rparr>))))"
    using assms rep_wf_set_entry by (cases r) auto
next
  show "keeps rep_wf (\<lambda>s. let (d, s') = rep_dump s in (Inr d, s'))"
    by (rule keepsI) (use rep_wf_dump in \<open>auto simp: case_prod_beta Let_def\<close>)
qed


section \<open>Statuses\<close>

lemma entry_status_antitone:
  assumes "0 < minInclusionDenominator p"
    and "opsSeen e \<le> opsSeen e'" and "opsIncluded e' \<le> opsIncluded e"
  shows "entry_status p e \<le> entry_status p e'"
proof -
  have "opsSeen e div minInclusionDenominator p \<le> opsSeen e' div minInclusionDenominator p"
    using assms(1,2) by (rule zdiv_mono1 [rotated])
  then show ?thesis
    using assms(3) by (auto simp: entry_status_def Let_def less_eq_reputation_status_def)
qed

lemma getStatus_case: "getStatus (Some (toLowerCase a)) s = getStatus (Some a) s"
  by (simp add: getStatus_def)

lemma getStatus_entry:
  "toLowerCase a \<notin> whitelist s \<Longrightarrow> toLowerCase a \<notin> blackList s \<Longrightarrow>
   getStatus (Some a) s = entry_status (params s) (entry_of a s)
     \<or> obj_get (entries s) (toLowerCase a) = None \<and> getStatus (Some a) s = OK"
  by (auto simp: getStatus_def entry_of_def split: option.split)

lemma getStatus_put_entry:
  "getStatus (Some a) (put_entry k e s) =
     (if toLowerCase a \<in> whitelist s then OK else if toLowerCase a \<in> blackList s then BANNED
      else if toLowerCase a = k then entry_status (params s) e else getStatus (Some a) s)"
  by (simp add: getStatus_def split: option.split)

text \<open>A write to one address never changes the status of another.\<close>

lemma getStatus_other:
  "toLowerCase b \<noteq> toLowerCase a \<Longrightarrow> getStatus (Some b) (updateSeenStatus (Some a) v s) = getStatus (Some b) s"
  by (simp add: rep_writes getStatus_put_entry) (simp add: getStatus_def)

lemma getStatus_blacklisted:
  "toLowerCase a \<in> blackList s \<Longrightarrow> toLowerCase a \<notin> whitelist s \<Longrightarrow> getStatus (Some a) s = BANNED"
  by (simp add: getStatus_def)

section \<open>The interface the other modules use\<close>

text \<open>
  The mempool, the bundle builder and the event handler see the manager through its status
  query and two writes. What they rely on: a write to an address is about that address only
  (whatever its letter case), and the administrator's lists win over any counter.
\<close>

locale reputation_service =
  fixes status :: "string option \<Rightarrow> 's \<Rightarrow> reputation_status"
    and upd :: "'w \<Rightarrow> string \<Rightarrow> 's \<Rightarrow> 's"
    and allowed :: "'s \<Rightarrow> string set"
    and banned :: "'s \<Rightarrow> string set"
  assumes status_None: "status None s = OK"
    and status_allowed: "toLowerCase a \<in> allowed s \<Longrightarrow> status (Some a) s = OK"
    and status_banned: "toLowerCase a \<notin> allowed s \<Longrightarrow> toLowerCase a \<in> banned s \<Longrightarrow> status (Some a) s = BANNED"
    and upd_other: "toLowerCase b \<noteq> toLowerCase a \<Longrightarrow> status (Some b) (upd w a s) = status (Some b) s"
    and upd_lists: "allowed (upd w a s) = allowed s" "banned (upd w a s) = banned s"
begin

lemma lists_after_writes:
  "allowed (foldl (\<lambda>s (w, a). upd w a s) s ws) = allowed s"
  "banned (foldl (\<lambda>s (w, a). upd w a s) s ws) = banned s"
  by (induction ws arbitrary: s) (auto simp: upd_lists)

lemma status_after_writes:
  "\<forall>(w, a)\<in>set ws. toLowerCase a \<noteq> toLowerCase b \<Longrightarrow>
     status (Some b) (foldl (\<lambda>s (w, a). upd w a s) s ws) = status (Some b) s"
proof (induction ws arbitrary: s)
  case (Cons p ws)
  obtain w a where p: "p = (w, a)" by (cases p)
  with Cons.prems have "toLowerCase b \<noteq> toLowerCase a" and "\<forall>(w, a)\<in>set ws. toLowerCase a \<noteq> toLowerCase b"
    by auto
  then show ?case by (simp add: p Cons.IH upd_other)
qed simp

lemma banned_after_writes:
  "toLowerCase b \<in> banned s \<Longrightarrow> toLowerCase b \<notin> allowed s \<Longrightarrow>
     status (Some b) (foldl (\<lambda>s (w, a). upd w a s) s ws) = BANNED"
  by (simp add: status_banned lists_after_writes)

end

text \<open>The writes of the manager: counting a seen or an included operation, and the crash penalty.\<close>

datatype rep_write = Seen int | Included | Crashed

fun rep_apply :: "rep_write \<Rightarrow> string \<Rightarrow> 'z rep_state_scheme \<Rightarrow> 'z rep_state_scheme" where
  "rep_apply (Seen v) a s = updateSeenStatus (Some a) v s"
| "rep_apply Included a s = updateIncludedStatus a s"
| "rep_apply Crashed a s = crashedHandleOps (Some a) s"

interpretation rep: reputation_service getStatus rep_apply whitelist blackList
proof
  fix w :: rep_write and a b :: string and s :: "'z rep_state_scheme"
  show "getStatus None s = OK" by (simp add: getStatus_def)
  show "toLowerCase a \<in> whitelist s \<Longrightarrow> getStatus (Some a) s = OK" by (simp add: getStatus_def)
  show "toLowerCase a \<notin> whitelist s \<Longrightarrow> toLowerCase a \<in> blackList s \<Longrightarrow> getStatus (Some a) s = BANNED"
    by (rule getStatus_blacklisted)
  show "toLowerCase b \<noteq> toLowerCase a \<Longrightarrow> getStatus (Some b) (rep_apply w a s) = getStatus (Some b) s"
    by (cases w) (simp_all add: rep_writes getStatus_put_entry, simp_all add: getStatus_def)
  show "whitelist (rep_apply w a s) = whitelist s" "blackList (rep_apply w a s) = blackList s"
    by (cases w; simp)+
qed

section \<open>The hourly decay\<close>

text \<open>What one run of the cron makes of an entry.\<close>

definition decayed :: "reputation_entry \<Rightarrow> reputation_entry option" where
  "decayed e = (let n = opsSeen e * 23 div 24 in
     if n = 0 then None else Some (e\<lparr>opsSeen := n, opsIncluded := n * 23 div 24\<rparr>))"

lemma hourly_entry_get:
  "obj_get (entries (hourly_entry a s)) k =
     (if k = a then Option.bind (obj_get (entries s) a) decayed else obj_get (entries s) k)"
  by (cases "obj_get (entries s) a")
    (simp_all add: hourly_entry_eq hourly_entry_def decayed_def Let_def)

lemma hourly_entry_frame [simp]:
  "params (hourly_entry a s) = params s" "whitelist (hourly_entry a s) = whitelist s"
  "blackList (hourly_entry a s) = blackList s"
  by (simp_all add: hourly_entry_def Let_def split: option.split)

lemma hourly_fold_frame:
  "params (foldl (\<lambda>s a. hourly_entry a s) s ks) = params s"
  "whitelist (foldl (\<lambda>s a. hourly_entry a s) s ks) = whitelist s"
  "blackList (foldl (\<lambda>s a. hourly_entry a s) s ks) = blackList s"
  by (induction ks arbitrary: s) simp_all

lemma hourlyCron_frame [simp]:
  "params (hourlyCron s) = params s" "whitelist (hourlyCron s) = whitelist s"
  "blackList (hourlyCron s) = blackList s"
  by (simp_all add: hourlyCron_def hourly_fold_frame)

lemma hourly_fold_get:
  "distinct ks \<Longrightarrow> obj_get (entries (foldl (\<lambda>s a. hourly_entry a s) s ks)) k =
     (if k \<in> set ks then Option.bind (obj_get (entries s) k) decayed else obj_get (entries s) k)"
  by (induction ks arbitrary: s) (auto simp: hourly_entry_get)

lemma hourlyCron_get:
  assumes "rep_wf s"
  shows "obj_get (entries (hourlyCron s)) k = Option.bind (obj_get (entries s) k) decayed"
proof (cases "k \<in> set (obj_keys (entries s))")
  case True
  then show ?thesis
    using assms hourly_fold_get [of "obj_keys (entries s)" s k] by (simp add: hourlyCron_def rep_wf_def)
next
  case False
  then have "obj_get (entries s) k = None" using obj_get_keys [of k "entries s"] by blast
  with False show ?thesis
    using assms hourly_fold_get [of "obj_keys (entries s)" s k] by (simp add: hourlyCron_def rep_wf_def)
qed

lemma decayed_bound:
  "decayed e = Some e' \<Longrightarrow> 0 \<le> opsSeen e \<Longrightarrow> opsSeen e \<le> int (Suc n) \<Longrightarrow> 0 < opsSeen e' \<and> opsSeen e' \<le> int n"
  by (auto simp: decayed_def Let_def split: if_splits)

lemma hourlyCron_bound:
  assumes "rep_wf s" and "\<forall>k e. obj_get (entries s) k = Some e \<longrightarrow> opsSeen e \<le> int (Suc n)"
  shows "\<forall>k e. obj_get (entries (hourlyCron s)) k = Some e \<longrightarrow> opsSeen e \<le> int n"
proof (intro allI impI)
  fix k e assume "obj_get (entries (hourlyCron s)) k = Some e"
  then obtain e0 where e0: "obj_get (entries s) k = Some e0" "decayed e0 = Some e"
    using assms(1) by (auto simp: hourlyCron_get bind_eq_Some_conv)
  then have "0 \<le> opsSeen e0" using assms(1) by (simp add: rep_wf_def entry_ok_def)
  with decayed_bound [OF e0(2)] assms(2) e0(1) show "opsSeen e \<le> int n" by blast
qed

lemma entries_empty_iff: "entries s = [] \<longleftrightarrow> (\<forall>k. obj_get (entries s) k = None)"
  by (simp add: fun_eq_iff flip: map_of_eq_empty_iff)

section \<open>Reachable states\<close>

text \<open>
  The operations the rest of the program applies to the manager, as steps of the object.
  \<^verbatim>\<open>setReputation\<close> is a debug call that takes any number, so a step needs its numbers
  not to be negative.
\<close>

inductive rep_step :: "rep_state \<Rightarrow> rep_state \<Rightarrow> bool" where
  step_seen: "rep_step s (updateSeenStatus a v s)"
| step_included: "rep_step s (updateIncludedStatus b s)"
| step_crashed: "rep_step s (crashedHandleOps a s)"
| step_cron: "rep_step s (hourlyCron s)"
| step_dump: "rep_step s (snd (rep_dump s))"
| step_clear: "rep_step s (rep_clearState s)"
| step_white: "rep_step s (addWhitelist items s)"
| step_black: "rep_step s (addBlacklist items s)"
| step_set: "\<forall>(a, seen, incl)\<in>set reps. 0 \<le> seen \<and> 0 \<le> incl \<Longrightarrow>
    rep_step s (snd (setReputation reps s))"

inductive_cases rep_stepE: "rep_step s t"

lemma rep_wf_step: "rep_step s t \<Longrightarrow> rep_wf s \<Longrightarrow> rep_wf t"
proof (induction rule: rep_step.induct)
  case (step_set reps s)
  then show ?case using keepsD [OF rep_wf_setReputation] by blast
qed (simp_all add: rep_wf_updateSeenStatus rep_wf_updateIncludedStatus rep_wf_crashedHandleOps
    rep_wf_hourlyCron rep_wf_dump, simp_all add: rep_wf_def rep_clearState_def addWhitelist_def addBlacklist_def)

lemma entry_of_put_entry [simp]: "entry_of a (put_entry (toLowerCase a) e s) = e"
  by (simp add: entry_of_def)

lemma put_entry_twice [simp]: "put_entry k e (put_entry k e' s) = put_entry k e s"
  by (simp add: put_entry_def AList_update_twice)

lemma included_iter:
  "(updateIncludedStatus a ^^ Suc n) s =
     put_entry (toLowerCase a) (entry_of a s\<lparr>opsIncluded := opsIncluded (entry_of a s) + int (Suc n)\<rparr>) s"
  by (induction n) (simp_all add: updateIncludedStatus_eq algebra_simps)

lemma included_iter_put:
  "(updateIncludedStatus a ^^ n) (put_entry (toLowerCase a) e s) =
     put_entry (toLowerCase a) (e\<lparr>opsIncluded := opsIncluded e + int n\<rparr>) s"
  by (cases n) (simp_all only: included_iter, simp_all)

lemma crashed_status:
  assumes "rep_wf s" and "params s = BundlerReputationParams"
    and "toLowerCase a \<notin> whitelist s" and "n < 950"
  shows "getStatus (Some a) ((updateIncludedStatus a ^^ n) (crashedHandleOps (Some a) s)) = BANNED"
proof -
  have "0 \<le> opsSeen (entry_of a s)"
    using rep_wf_entry_of [OF assms(1)] by (simp add: entry_ok_def)
  moreover have "\<not> (z + 10000) div 10 \<le> int n + 50" "\<not> (z + 10000) div 10 \<le> int n + 10" if "0 \<le> z" for z :: int
    using that assms(4) by linarith+
  ultimately show ?thesis
    using assms(2-4)
    by (simp add: crashedHandleOps_Some included_iter_put getStatus_put_entry entry_status_def
        BundlerReputationParams_def BAN_OPS_SEEN_PENALTY_def Let_def)
qed

section \<open>Properties\<close>

text \<open>Every state the manager reaches from its constructor is well formed: the table
  has one entry per lower-case address, and no counter is negative.\<close>

theorem reachable_reputation_wf:
  "rep_step\<^sup>*\<^sup>* (init_rep p st del) s \<Longrightarrow> rep_wf s"
  by (induction rule: rtranclp_induct) (auto simp: rep_wf_init intro: rep_wf_step)

lemma reachable_reputation_wf_witness:
  "rep_wf (hourlyCron (updateSeenStatus (Some ''0xA'') 30 (init_rep BundlerReputationParams 1 1)))"
proof -
  have "rep_step\<^sup>*\<^sup>* (init_rep BundlerReputationParams 1 1)
      (hourlyCron (updateSeenStatus (Some ''0xA'') 30 (init_rep BundlerReputationParams 1 1)))"
    by (blast intro: step_seen step_cron rtranclp.rtrancl_into_rtrancl)
  then show ?thesis by (rule reachable_reputation_wf)
qed

text \<open>C26: An entity that crashed a bundle (GREP-040) is banned at once, unless it is
  whitelisted, and stays banned through the next 949 inclusions, whatever its record was.\<close>

theorem crashed_entity_banned:
  assumes "rep_wf s" and "params s = BundlerReputationParams"
    and "toLowerCase a \<notin> whitelist s" and "n < 950"
  shows "getStatus (Some a) ((updateIncludedStatus a ^^ n) (crashedHandleOps (Some a) s)) = BANNED"
  using assms by (rule crashed_status)

lemma crashed_entity_banned_witness:
  "getStatus (Some ''0xAb'') ((updateIncludedStatus ''0xAb'' ^^ 949)
     (crashedHandleOps (Some ''0xAb'') (init_rep BundlerReputationParams 1 1))) = BANNED"
  by (rule crashed_entity_banned) (simp_all add: rep_wf_init, simp_all add: init_rep_def)

text \<open>The status of an address depends on its own record and the administrator's lists
  only: no sequence of seen, included and crash updates of other addresses (other up to
  letter case) changes it, and no sequence of updates at all lifts a blacklisting.\<close>

theorem status_isolated:
  assumes "\<forall>(w, a)\<in>set ws. toLowerCase a \<noteq> toLowerCase b"
  shows "getStatus (Some b) (foldl (\<lambda>s (w, a). rep_apply w a s) s ws) = getStatus (Some b) s
    \<and> (toLowerCase b \<in> blackList s \<longrightarrow> toLowerCase b \<notin> whitelist s \<longrightarrow>
       getStatus (Some b) (foldl (\<lambda>s (w, a). rep_apply w a s) s vs) = BANNED)"
  using rep.status_after_writes [OF assms] rep.banned_after_writes by blast

lemma status_isolated_witness:
  "getStatus (Some ''0xB'') (foldl (\<lambda>s (w, a). rep_apply w a s)
      (addBlacklist [''0xb''] (init_rep BundlerReputationParams 1 1)) [(Crashed, ''0xA''), (Seen 5, ''0xC'')]) = BANNED"
  using status_isolated [of "[(Crashed, ''0xA''), (Seen 5, ''0xC'')]" "''0xB''"
      "addBlacklist [''0xb''] (init_rep BundlerReputationParams 1 1)" "[(Crashed, ''0xA''), (Seen 5, ''0xC'')]"]
  by code_simp

text \<open>More seen operations and fewer included ones never improve a status: the status
  is monotone in what the entity is blamed for and antitone in what it delivered.\<close>

theorem status_monotone:
  assumes "0 < minInclusionDenominator (params s)"
    and "opsSeen (entry_of a s) \<le> opsSeen e'" and "opsIncluded e' \<le> opsIncluded (entry_of a s)"
    and "obj_get (entries s) (toLowerCase a) \<noteq> None"
  shows "getStatus (Some a) s \<le> getStatus (Some a) (put_entry (toLowerCase a) e' s)"
  using entry_status_antitone [OF assms(1-3)] assms(4)
  by (auto simp: getStatus_put_entry getStatus_def entry_of_def)

lemma status_monotone_witness:
  "getStatus (Some ''0xa'') (put_entry ''0xa'' (new_entry ''0xa'') (init_rep BundlerReputationParams 1 1))
     \<le> getStatus (Some ''0xa'') (put_entry (toLowerCase ''0xa'') (new_entry ''0xa''\<lparr>opsSeen := 300\<rparr>)
         (put_entry ''0xa'' (new_entry ''0xa'') (init_rep BundlerReputationParams 1 1)))"
  by (rule status_monotone)
    (code_simp, code_simp, code_simp, code_simp)

text \<open>The cron computes the new \<^verbatim>\<open>opsIncluded\<close> from \<^verbatim>\<open>opsSeen\<close>, so one run
  forgives everyone: right after it every address that is not blacklisted is OK, even one
  that was banned for crashing a bundle a moment before.\<close>

theorem hourlyCron_amnesty:
  assumes "rep_wf s" and "2 \<le> minInclusionDenominator (params s)" and "1 \<le> throttlingSlack (params s)"
    and "toLowerCase a \<notin> blackList s"
  shows "getStatus (Some a) (hourlyCron s) = OK"
proof -
  have "entry_status (params s) e = OK" if "decayed e0 = Some e" "0 \<le> opsSeen e0" for e e0
  proof -
    from that have n: "0 \<le> opsSeen e" "opsIncluded e = opsSeen e * 23 div 24"
      by (auto simp: decayed_def Let_def split: if_splits)
    have "opsSeen e div minInclusionDenominator (params s) \<le> opsSeen e div 2"
      using n(1) assms(2) by (intro zdiv_mono2) auto
    also have "\<dots> \<le> opsSeen e * 23 div 24 + 1" using n(1) by linarith
    finally show ?thesis using assms(3) n(2) by (simp add: entry_status_def Let_def)
  qed
  moreover have "0 \<le> opsSeen e0" if "obj_get (entries s) (toLowerCase a) = Some e0" for e0
    using assms(1) that by (simp add: rep_wf_def entry_ok_def)
  ultimately show ?thesis
    using assms(4) by (auto simp: getStatus_def hourlyCron_get [OF assms(1)] bind_eq_Some_conv split: option.split)
qed

lemma hourlyCron_amnesty_witness:
  "let s = crashedHandleOps (Some ''0xA'') (init_rep BundlerReputationParams 1 1) in
     getStatus (Some ''0xA'') s = BANNED \<and> getStatus (Some ''0xA'') (hourlyCron s) = OK"
proof -
  have "getStatus (Some ''0xA'') (crashedHandleOps (Some ''0xA'') (init_rep BundlerReputationParams 1 1)) = BANNED"
    by code_simp
  moreover have "getStatus (Some ''0xA'') (hourlyCron (crashedHandleOps (Some ''0xA'') (init_rep BundlerReputationParams 1 1))) = OK"
    by (rule hourlyCron_amnesty [OF rep_wf_crashedHandleOps [OF rep_wf_init]])
      (simp_all add: init_rep_def BundlerReputationParams_def)
  ultimately show ?thesis by (simp add: Let_def)
qed

text \<open>The decay forgets: an address that is not touched for \<open>n + 1\<close> hours, where \<open>n\<close>
  bounds the seen counters, leaves the table; the whole table is then empty, and stays so.\<close>

theorem hourlyCron_forgets:
  "rep_wf s \<Longrightarrow> \<forall>k e. obj_get (entries s) k = Some e \<longrightarrow> opsSeen e \<le> int n \<Longrightarrow> n < m \<Longrightarrow>
     entries ((hourlyCron ^^ m) s) = []"
proof (induction n arbitrary: s m)
  case 0
  then obtain m' where m: "m = Suc m'" by (cases m) auto
  have "decayed e = None" if "obj_get (entries s) k = Some e" for k e
    using 0 that by (fastforce simp: rep_wf_def entry_ok_def decayed_def)
  then have "entries (hourlyCron s) = []"
    unfolding entries_empty_iff hourlyCron_get [OF \<open>rep_wf s\<close>]
    by (metis bind_eq_None_conv option.exhaust_sel)
  then have "entries ((hourlyCron ^^ m'') (hourlyCron s)) = []" for m''
    by (induction m'') (simp_all add: hourlyCron_def)
  then show ?case by (simp add: m funpow_swap1)
next
  case (Suc n)
  then obtain m' where m: "m = Suc m'" "n < m'" by (cases m) auto
  have "entries ((hourlyCron ^^ m') (hourlyCron s)) = []"
    using Suc.IH [OF rep_wf_hourlyCron [OF Suc.prems(1)] hourlyCron_bound [OF Suc.prems(1,2)] m(2)] .
  then show ?case by (simp add: m(1) funpow_swap1)
qed

lemma hourlyCron_forgets_witness:
  "entries ((hourlyCron ^^ 3) (updateSeenStatus (Some ''0xA'') 2 (init_rep BundlerReputationParams 1 1))) = []"
  by (rule hourlyCron_forgets [where n = 2])
    (simp_all add: rep_wf_init rep_wf_updateSeenStatus, simp add: init_rep_def updateSeenStatus_Some entry_of_def new_entry_def)

text \<open>\<^verbatim>\<open>checkStake\<close> accepts exactly the whitelisted entities (in their exact
  spelling) and those that are not banned and have enough stake for long enough; it
  refuses a banned entity with the reputation error and any other with the stake error.\<close>

theorem checkStake_exact:
  "case checkStake t info0 s of
     Inr u \<Rightarrow> info0 = None \<or> (\<exists>i. info0 = Some i \<and> (addr i \<in> whitelist s \<or>
        getStatus (Some (addr i)) s \<noteq> BANNED \<and> minStake s \<le> stake i \<and> minUnstakeDelay s \<le> unstakeDelaySec i))
   | Inl err \<Rightarrow> \<exists>i m d. info0 = Some i \<and> addr i \<notin> whitelist s \<and>
       err = RpcError m (error_code (if getStatus (Some (addr i)) s = BANNED then Reputation else InsufficientStake)) d \<and>
       (getStatus (Some (addr i)) s = BANNED \<or> stake i < minStake s \<or> unstakeDelaySec i < minUnstakeDelay s)"
proof (cases info0)
  case (Some i)
  show ?thesis
    by (cases "addr i \<in> whitelist s"; cases "getStatus (Some (addr i)) s = BANNED";
        cases "minStake s \<le> stake i"; cases "minUnstakeDelay s \<le> unstakeDelaySec i")
      (simp_all add: Some checkStake_def isWhitelisted_def checkBanned_def requireCond_simps)
qed (simp add: checkStake_def)

end
