(* ===== verification/MempoolManager.thy ===== *)
theory MempoolManager
  imports ReputationManager "HOL-Library.Multiset"
begin

text \<open>
  \<^verbatim>\<open>packages/bundler/src/modules/MempoolManager.ts\<close> and \<^verbatim>\<open>MempoolEntry.ts\<close>. The state
  extends the state of the reputation manager, the object the mempool holds a reference to.
  An index of \<^verbatim>\<open>-1\<close> is \<open>None\<close>. The third-party packing of a two-dimensional nonce is
  taken from the field \<open>lib\<close>.
\<close>

section \<open>State\<close>

definition THROTTLED_ENTITY_MEMPOOL_COUNT :: int where
  "THROTTLED_ENTITY_MEMPOOL_COUNT = 4"

record mempool_entry =
  userOp :: operation
  userOpHash :: string
  me_prefund :: int
  me_referencedContracts :: code_hashes
  skipValidation :: bool
  aggregator :: "string option"
  userOpMaxGas :: int

definition new_MempoolEntry ::
  "operation \<Rightarrow> string \<Rightarrow> int \<Rightarrow> code_hashes \<Rightarrow> bool \<Rightarrow> string option \<Rightarrow> mempool_entry" where
  "new_MempoolEntry op h pf refs skip agg = \<lparr>userOp = op, userOpHash = h, me_prefund = pf,
     me_referencedContracts = refs, skipValidation = skip, aggregator = agg,
     userOpMaxGas = or_else (preVerificationGas op) 0 + callGasLimit op + verificationGasLimit op
       + or_else (paymasterVerificationGasLimit op) 0 + or_else (paymasterPostOpGasLimit op) 0\<rparr>"

record pool_state = rep_state +
  lib :: ethers_lib
  mempool :: "mempool_entry list"
  entryCounts :: "string \<Rightarrow> int option"

definition init_pool :: "ethers_lib \<Rightarrow> rep_state \<Rightarrow> pool_state" where
  "init_pool L r = rep_state.extend r \<lparr>lib = L, mempool = [], entryCounts = (\<lambda>_. None)\<rparr>"

section \<open>Entity counters\<close>

definition entryCount :: "string \<Rightarrow> 'z pool_state_scheme \<Rightarrow> int option" where
  "entryCount a s = entryCounts s (toLowerCase a)"

definition incrementEntryCount :: "string option \<Rightarrow> 'z pool_state_scheme \<Rightarrow> 'z pool_state_scheme" where
  "incrementEntryCount address s =
     (case lower_opt address of
        None \<Rightarrow> s
      | Some a \<Rightarrow> s\<lparr>entryCounts := (entryCounts s)(a := Some (or_else (entryCounts s a) 0 + 1))\<rparr>)"

definition decrementEntryCount :: "string option \<Rightarrow> 'z pool_state_scheme \<Rightarrow> 'z pool_state_scheme" where
  "decrementEntryCount address s =
     (case lower_opt address of
        None \<Rightarrow> s
      | Some a \<Rightarrow>
         if entryCounts s a = None then s
         else (let c = or_else (entryCounts s a) 0 - 1 in
           if c \<le> 0 then s\<lparr>entryCounts := (entryCounts s)(a := None)\<rparr>
           else s\<lparr>entryCounts := (entryCounts s)(a := Some c)\<rparr>))"

definition pool_count :: "'z pool_state_scheme \<Rightarrow> nat" where
  "pool_count s = length (mempool s)"

section \<open>Searching\<close>

fun findBySenderNonce_from :: "ethers_lib \<Rightarrow> string \<Rightarrow> int \<Rightarrow> nat \<Rightarrow> mempool_entry list \<Rightarrow> nat option res" where
  "findBySenderNonce_from L snd' n i [] = Inr None"
| "findBySenderNonce_from L snd' n i (e # es) =
     bindE (getPackedNonce L (userOp e)) (\<lambda>packedNonce.
       if sender (userOp e) = snd' \<and> packedNonce = n then Inr (Some i)
       else findBySenderNonce_from L snd' n (Suc i) es)"

definition findBySenderNonce :: "string \<Rightarrow> int \<Rightarrow> 'z pool_state_scheme \<Rightarrow> nat option res" where
  "findBySenderNonce snd' n s = findBySenderNonce_from (lib s) snd' n 0 (mempool s)"

fun findByHash_from :: "string \<Rightarrow> nat \<Rightarrow> mempool_entry list \<Rightarrow> nat option" where
  "findByHash_from h i [] = None"
| "findByHash_from h i (e # es) = (if userOpHash e = h then Some i else findByHash_from h (Suc i) es)"

definition findByHash :: "string \<Rightarrow> 'z pool_state_scheme \<Rightarrow> nat option" where
  "findByHash h s = findByHash_from h 0 (mempool s)"

section \<open>Checks on admission\<close>

definition pool_updateSeenStatus ::
  "string option \<Rightarrow> operation \<Rightarrow> stake_info \<Rightarrow> int \<Rightarrow> ('z pool_state_scheme, unit) act" where
  "pool_updateSeenStatus agg op senderI val =
     thenM (catchM
       (thenM (\<lambda>s. (checkStake AccountTitle (Some senderI) s, s))
         (modifyM (updateSeenStatus (Some (sender op)) 1)))
       (\<lambda>e. if \<not> is_RpcError e then throwM e else retM ()))
     (thenM (modifyM (updateSeenStatus agg val))
     (thenM (modifyM (updateSeenStatus (paymaster op) val))
     (modifyM (updateSeenStatus (factory op) val))))"

definition checkReputationStatus :: "entity_title \<Rightarrow> stake_info option \<Rightarrow> 'z pool_state_scheme \<Rightarrow> unit res" where
  "checkReputationStatus title stakeInfo s =
     (case stakeInfo of
        None \<Rightarrow> Inr ()
      | Some info \<Rightarrow>
          (let maxTxMempoolAllowedEntity = calculateMaxAllowedMempoolOpsUnstaked title (addr info) s in
           bindE (checkBanned title info s) (\<lambda>_.
           (let cnt = or_else (entryCount (addr info) s) 0 in
            bindE (if cnt > THROTTLED_ENTITY_MEMPOOL_COUNT then checkThrottled title info s else Inr ()) (\<lambda>_.
            if cnt \<ge> maxTxMempoolAllowedEntity then checkStake title (Some info) s else Inr ())))))"

definition checkReputation :: "('a validation_result_scheme) \<Rightarrow> 'z pool_state_scheme \<Rightarrow> unit res" where
  "checkReputation vr s =
     bindE (checkReputationStatus AccountTitle (Some (senderInfo vr)) s) (\<lambda>_.
     bindE (checkReputationStatus PaymasterTitle (paymasterInfo vr) s) (\<lambda>_.
     bindE (checkReputationStatus DeployerTitle (factoryInfo vr) s) (\<lambda>_.
     checkReputationStatus AggregatorTitle (aggregatorInfo vr) s)))"

definition getKnownSenders :: "'z pool_state_scheme \<Rightarrow> string list" where
  "getKnownSenders s = map (\<lambda>it. toLowerCase (sender (userOp it))) (mempool s)"

definition getKnownEntities :: "'z pool_state_scheme \<Rightarrow> string list" where
  "getKnownEntities s =
     (let res = map (\<lambda>it. paymaster (userOp it)) (mempool s) @ map (\<lambda>it. factory (userOp it)) (mempool s)
      in map (\<lambda>it. toLowerCase (the it)) (filter (\<lambda>it. it \<noteq> None) res))"

definition checkMultipleRolesViolation :: "operation \<Rightarrow> 'z pool_state_scheme \<Rightarrow> unit res" where
  "checkMultipleRolesViolation op s =
     (let knownEntities = getKnownEntities s in
      bindE (requireCond (toLowerCase (sender op) \<notin> set knownEntities)
        (''The sender address '' @ dq @ sender op @ dq @
          '' is used as a different entity in another UserOperation currently in mempool'') OpcodeValidation []) (\<lambda>_.
      (let knownSenders = getKnownSenders s;
           isPaymasterSenderViolation = or_else (lower_opt (paymaster op)) [] \<in> set knownSenders;
           isFactorySenderViolation = or_else (lower_opt (factory op)) [] \<in> set knownSenders in
       bindE (requireCond (\<not> isPaymasterSenderViolation)
         (''A Paymaster at '' @ or_else (paymaster op) ''undefined'' @
           '' in this UserOperation is used as a sender entity in another UserOperation currently in mempool.'')
         OpcodeValidation []) (\<lambda>_.
       requireCond (\<not> isFactorySenderViolation)
         (''A Factory at '' @ or_else (factory op) ''undefined'' @
           '' in this UserOperation is used as a sender entity in another UserOperation currently in mempool.'')
         OpcodeValidation []))))"

text \<open>
  \<^verbatim>\<open>newFee >= oldFee * 1.1\<close>: the literal is the double \<open>2476979795053773 / 2 ^ 51\<close>
  and the product is rounded to the nearest double.
\<close>

definition ge_times_1_1 :: "int \<Rightarrow> int \<Rightarrow> bool" where
  "ge_times_1_1 newFee oldFee \<longleftrightarrow>
     (if 0 \<le> oldFee then round53 (oldFee * 2476979795053773) \<le> newFee * 2 ^ 51
      else - round53 (- oldFee * 2476979795053773) \<le> newFee * 2 ^ 51)"

definition checkReplaceUserOp :: "mempool_entry \<Rightarrow> mempool_entry \<Rightarrow> unit res" where
  "checkReplaceUserOp oldEntry entry =
     bindE (toNumber (maxPriorityFeePerGas (userOp oldEntry))) (\<lambda>oldPrio.
     bindE (toNumber (maxPriorityFeePerGas (userOp entry))) (\<lambda>newPrio.
     bindE (toNumber (maxFeePerGas (userOp oldEntry))) (\<lambda>oldMax.
     bindE (toNumber (maxFeePerGas (userOp entry))) (\<lambda>newMax.
     bindE (requireCond (ge_times_1_1 newPrio oldPrio)
       (''Replacement UserOperation must have higher maxPriorityFeePerGas (old='' @ show_int oldPrio
         @ '' new='' @ show_int newPrio @ '') '') InvalidFields []) (\<lambda>_.
     requireCond (ge_times_1_1 newMax oldMax)
       (''Replacement UserOperation must have higher maxFeePerGas (old='' @ show_int oldMax
         @ '' new='' @ show_int newMax @ '') '') InvalidFields [])))))"

section \<open>Adding\<close>

definition replace_entry :: "nat \<Rightarrow> mempool_entry \<Rightarrow> ('z pool_state_scheme, mempool_entry option) act" where
  "replace_entry i entry =
     bindM (getM (\<lambda>s. mempool s ! i)) (\<lambda>oldEntry.
     thenM (liftE (checkReplaceUserOp oldEntry entry))
     (thenM (modifyM (\<lambda>s. s\<lparr>mempool := (mempool s)[i := entry]\<rparr>))
     (retM (Some oldEntry))))"

definition push_entry ::
  "bool \<Rightarrow> mempool_entry \<Rightarrow> 'a validation_result_scheme \<Rightarrow> ('z pool_state_scheme, mempool_entry option) act" where
  "push_entry skip entry vr = (let op = userOp entry in
     thenM (if \<not> skip then thenM (\<lambda>s. (checkReputation vr s, s)) (\<lambda>s. (checkMultipleRolesViolation op s, s))
            else retM ())
     (thenM (modifyM (incrementEntryCount (Some (sender op))))
     (thenM (if paymaster op \<noteq> None then modifyM (incrementEntryCount (paymaster op)) else retM ())
     (thenM (if factory op \<noteq> None then modifyM (incrementEntryCount (factory op)) else retM ())
     (thenM (modifyM (\<lambda>s. s\<lparr>mempool := mempool s @ [entry]\<rparr>))
     (retM None))))))"

definition addUserOp ::
  "bool \<Rightarrow> operation \<Rightarrow> string \<Rightarrow> validate_user_op_result \<Rightarrow> ('z pool_state_scheme, unit) act" where
  "addUserOp skip op h vr =
     (let entry = new_MempoolEntry op h (or_else (prefund vr) 0) (referencedContracts vr) skip
                    (map_option addr (aggregatorInfo vr)) in
      bindM (getM lib) (\<lambda>L.
      bindM (liftE (getPackedNonce L (userOp entry))) (\<lambda>packedNonce.
      bindM (\<lambda>s. (findBySenderNonce (sender op) packedNonce s, s)) (\<lambda>index.
      bindM (case index of Some i \<Rightarrow> replace_entry i entry | None \<Rightarrow> push_entry skip entry vr) (\<lambda>oldEntry.
      thenM (case oldEntry of
               Some old \<Rightarrow> pool_updateSeenStatus (aggregator old) (userOp old) (senderInfo vr) (-1)
             | None \<Rightarrow> retM ())
      (pool_updateSeenStatus (map_option addr (aggregatorInfo vr)) op (senderInfo vr) 1))))))"

section \<open>Reading and removing\<close>

text \<open>
  \<^verbatim>\<open>getSortedForInclusion\<close>: the library sort is stable and compares every element as
  soon as there are two, so a fee that is not a safe integer throws exactly then.
\<close>

definition getSortedForInclusion :: "'z pool_state_scheme \<Rightarrow> mempool_entry list res" where
  "getSortedForInclusion s =
     (if 2 \<le> length (mempool s) \<and> \<not> list_all (\<lambda>e. safe_int (maxPriorityFeePerGas (userOp e))) (mempool s)
      then Inl overflow_error
      else Inr (sort_key (\<lambda>e. maxPriorityFeePerGas (userOp e)) (mempool s)))"

datatype userOpOrHash = ByHash string | ByOp operation

definition removeAt :: "nat \<Rightarrow> ('z pool_state_scheme, unit) act" where
  "removeAt i =
     bindM (getM (\<lambda>s. (userOp (mempool s ! i), lib s))) (\<lambda>(op, L).
     bindM (liftE (getPackedNonce L op)) (\<lambda>_.
     thenM (modifyM (\<lambda>s. s\<lparr>mempool := take i (mempool s) @ drop (Suc i) (mempool s)\<rparr>))
     (thenM (modifyM (decrementEntryCount (Some (sender op))))
     (thenM (modifyM (decrementEntryCount (paymaster op)))
     (modifyM (decrementEntryCount (factory op)))))))"

definition removeUserOp :: "userOpOrHash \<Rightarrow> ('z pool_state_scheme, unit) act" where
  "removeUserOp what =
     bindM (case what of
         ByHash h \<Rightarrow> getM (findByHash h)
       | ByOp op \<Rightarrow>
           bindM (getM lib) (\<lambda>L.
           bindM (liftE (getPackedNonce L op)) (\<lambda>packedNonce.
           (\<lambda>s. (findBySenderNonce (sender op) packedNonce s, s)))))
     (\<lambda>index. case index of None \<Rightarrow> retM () | Some i \<Rightarrow> removeAt i)"

definition pool_dump :: "'z pool_state_scheme \<Rightarrow> operation list" where
  "pool_dump s = map userOp (mempool s)"

definition pool_clearState :: "'z pool_state_scheme \<Rightarrow> 'z pool_state_scheme" where
  "pool_clearState s = s\<lparr>mempool := [], entryCounts := (\<lambda>_. None)\<rparr>"

fun removeBannedAddr_from :: "string \<Rightarrow> nat \<Rightarrow> ('z pool_state_scheme, unit) act" where
  "removeBannedAddr_from a 0 = retM ()"
| "removeBannedAddr_from a (Suc i) =
     bindM (getM (\<lambda>s. mempool s ! i)) (\<lambda>e.
     thenM (if sender (userOp e) = a \<or> paymaster (userOp e) = Some a \<or> factory (userOp e) = Some a
            then removeUserOp (ByHash (userOpHash e)) else retM ())
     (removeBannedAddr_from a i))"

definition removeBannedAddr :: "string \<Rightarrow> ('z pool_state_scheme, unit) act" where
  "removeBannedAddr a = bindM (getM pool_count) (removeBannedAddr_from a)"

section \<open>Frame facts\<close>

text \<open>The part of the state that the admission bookkeeping of the reputation leaves alone.\<close>

definition pool_frame :: "'z pool_state_scheme \<Rightarrow> 'z pool_state_scheme \<Rightarrow> bool" where
  "pool_frame s t \<longleftrightarrow> lib t = lib s \<and> mempool t = mempool s \<and> entryCounts t = entryCounts s
     \<and> params t = params s \<and> minStake t = minStake s \<and> minUnstakeDelay t = minUnstakeDelay s
     \<and> blackList t = blackList s \<and> whitelist t = whitelist s
     \<and> pool_state.more t = pool_state.more s"

lemma pool_frame_refl [simp]: "pool_frame s s"
  by (simp add: pool_frame_def)

lemma pool_frame_trans: "pool_frame s t \<Longrightarrow> pool_frame t u \<Longrightarrow> pool_frame s u"
  by (simp add: pool_frame_def)

lemma pool_frame_put_entry: "pool_frame s (put_entry k e s)"
  by (simp add: pool_frame_def put_entry_def)

lemma pool_frame_updateSeenStatus: "pool_frame s (updateSeenStatus a v s)"
  by (cases a) (simp_all add: updateSeenStatus_Some pool_frame_put_entry)

lemma pool_frame_seen_step: "pool_frame s t \<Longrightarrow> pool_frame s (updateSeenStatus a v t)"
  by (rule pool_frame_trans [OF _ pool_frame_updateSeenStatus])

lemma checkStake_RpcError: "checkStake t i s = Inl e \<Longrightarrow> is_RpcError e"
  by (auto simp: checkStake_def checkBanned_def requireCond_def bindE_def
      split: option.splits if_splits sum.splits)

text \<open>Counting an operation as seen always returns, and touches the reputation table only.\<close>

lemma pool_updateSeenStatus_ok:
  obtains t where "pool_updateSeenStatus agg op si v s = (Inr (), t)" and "pool_frame s t"
proof (cases "checkStake AccountTitle (Some si) s")
  case (Inl e)
  then show thesis
    using that by (simp add: pool_updateSeenStatus_def monad_simps checkStake_RpcError pool_frame_seen_step)
next
  case (Inr u)
  then show thesis
    using that by (simp add: pool_updateSeenStatus_def monad_simps pool_frame_seen_step)
qed

section \<open>The counter interface\<close>

text \<open>
  The admission checks rely on counters per address that go up and down by one, and that
  agree with what was counted. The laws are stated for the two operations, and the effect
  of counting a whole operation in and out is derived from them.
\<close>

definition lowers :: "string option list \<Rightarrow> string list" where
  "lowers xs = map toLowerCase (map the (filter (\<lambda>x. x \<noteq> None) xs))"

lemma lowers_simps [simp]:
  "lowers [] = []" "lowers (None # xs) = lowers xs" "lowers (Some a # xs) = toLowerCase a # lowers xs"
  by (simp_all add: lowers_def)

locale counter =
  fixes read :: "'s \<Rightarrow> string \<Rightarrow> int"
    and inc :: "string option \<Rightarrow> 's \<Rightarrow> 's"
    and dec :: "string option \<Rightarrow> 's \<Rightarrow> 's"
  assumes inc_None: "inc None s = s"
    and dec_None: "dec None s = s"
    and inc_read: "read (inc (Some a) s) b = read s b + (if b = toLowerCase a then 1 else 0)"
    and dec_read: "0 < read s (toLowerCase a) \<Longrightarrow>
      read (dec (Some a) s) b = read s b - (if b = toLowerCase a then 1 else 0)"
begin

lemma inc_all: "read (fold inc xs s) b = read s b + int (count_list (lowers xs) b)"
proof (induction xs arbitrary: s)
  case (Cons x xs)
  then show ?case by (cases x) (simp_all add: inc_None inc_read)
qed simp

lemma dec_all:
  "(\<And>b. int (count_list (lowers xs) b) \<le> read s b) \<Longrightarrow>
     read (fold dec xs s) b = read s b - int (count_list (lowers xs) b)"
proof (induction xs arbitrary: s)
  case (Cons x xs)
  show ?case
  proof (cases x)
    case None
    then show ?thesis using Cons.IH [of s] Cons.prems by (simp add: dec_None)
  next
    case (Some a)
    then have pos: "0 < read s (toLowerCase a)" using Cons.prems [of "toLowerCase a"] by simp
    have "int (count_list (lowers xs) c) \<le> read (dec x s) c" for c
      using Cons.prems [of c] Some by (auto simp: dec_read [OF pos])
    then show ?thesis using Cons.IH [of "dec x s"] Some by (simp add: dec_read [OF pos])
  qed
qed simp

lemma dec_after_inc:
  assumes "\<And>b. 0 \<le> read s b"
  shows "read (fold dec xs (fold inc xs s)) b = read s b"
  using assms dec_all [of xs "fold inc xs s" b] by (simp add: inc_all)

end

definition read_count :: "'z pool_state_scheme \<Rightarrow> string \<Rightarrow> int" where
  "read_count s a = or_else (entryCounts s a) 0"

interpretation cnt: counter read_count incrementEntryCount decrementEntryCount
  by unfold_locales
    (auto simp: read_count_def incrementEntryCount_def decrementEntryCount_def Let_def split: option.split)

text \<open>The addresses an operation involves, and how often a pool involves an address.\<close>

definition roles :: "operation \<Rightarrow> string option list" where
  "roles op = [Some (sender op), paymaster op, factory op]"

definition role_count :: "mempool_entry list \<Rightarrow> string \<Rightarrow> nat" where
  "role_count es a = sum_list (map (\<lambda>e. count_list (lowers (roles (userOp e))) a) es)"

lemma role_count_simps [simp]:
  "role_count [] a = 0"
  "role_count (e # es) a = count_list (lowers (roles (userOp e))) a + role_count es a"
  "role_count (es @ fs) a = role_count es a + role_count fs a"
  by (simp_all add: role_count_def)

definition counts_ok :: "'z pool_state_scheme \<Rightarrow> bool" where
  "counts_ok s \<longleftrightarrow> (\<forall>a. read_count s a = int (role_count (mempool s) a))
     \<and> (\<forall>a c. entryCounts s a = Some c \<longrightarrow> 0 < c)"

lemma inc_positive:
  "(\<And>a c. entryCounts s a = Some c \<Longrightarrow> 0 < c) \<Longrightarrow>
     entryCounts (fold incrementEntryCount xs s) a = Some c \<Longrightarrow> 0 < c"
proof (induction xs arbitrary: s)
  case (Cons x xs)
  have "0 < d" if "entryCounts (incrementEntryCount x s) b = Some d" for b d
    using that Cons.prems(1)
    by (cases "lower_opt x"; cases "entryCounts s (the (lower_opt x))")
      (force simp: incrementEntryCount_def split: if_splits)+
  then show ?case using Cons.IH [of "incrementEntryCount x s"] Cons.prems(2) by simp
qed simp

lemma dec_positive:
  "(\<And>a c. entryCounts s a = Some c \<Longrightarrow> 0 < c) \<Longrightarrow>
     entryCounts (fold decrementEntryCount xs s) a = Some c \<Longrightarrow> 0 < c"
proof (induction xs arbitrary: s)
  case (Cons x xs)
  have "0 < d" if "entryCounts (decrementEntryCount x s) b = Some d" for b d
    using that Cons.prems(1)
    by (force simp: decrementEntryCount_def Let_def split: if_splits option.splits)
  then show ?case using Cons.IH [of "decrementEntryCount x s"] Cons.prems(2) by simp
qed simp

lemma count_frame:
  "mempool (incrementEntryCount x s) = mempool s" "lib (incrementEntryCount x s) = lib s"
  "mempool (decrementEntryCount x s) = mempool s" "lib (decrementEntryCount x s) = lib s"
  "blackList (incrementEntryCount x s) = blackList s" "whitelist (incrementEntryCount x s) = whitelist s"
  by (simp_all add: incrementEntryCount_def decrementEntryCount_def Let_def split: option.split)

declare count_frame [simp]

lemma incrementEntryCount_None [simp]: "incrementEntryCount None s = s"
  by (simp add: incrementEntryCount_def)

lemma decrementEntryCount_None [simp]: "decrementEntryCount None s = s"
  by (simp add: decrementEntryCount_def)

section \<open>What an addition does\<close>

definition admitted :: "bool \<Rightarrow> operation \<Rightarrow> validate_user_op_result \<Rightarrow> 'z pool_state_scheme \<Rightarrow> unit res" where
  "admitted skip op vr s =
     (if skip then Inr () else bindE (checkReputation vr s) (\<lambda>_. checkMultipleRolesViolation op s))"

definition entry_for :: "bool \<Rightarrow> operation \<Rightarrow> string \<Rightarrow> validate_user_op_result \<Rightarrow> mempool_entry" where
  "entry_for skip op h vr = new_MempoolEntry op h (or_else (prefund vr) 0) (referencedContracts vr) skip
     (map_option addr (aggregatorInfo vr))"

lemma entry_for_simps [simp]:
  "userOp (entry_for skip op h vr) = op" "userOpHash (entry_for skip op h vr) = h"
  by (simp_all add: entry_for_def new_MempoolEntry_def)

lemma replace_entry_eq:
  "replace_entry i e s = (case checkReplaceUserOp (mempool s ! i) e of
     Inl err \<Rightarrow> (Inl err, s) | Inr u \<Rightarrow> (Inr (Some (mempool s ! i)), s\<lparr>mempool := (mempool s)[i := e]\<rparr>))"
  by (simp add: replace_entry_def monad_simps split: sum.split)

lemma push_entry_eq:
  "push_entry skip (entry_for skip op h vr) vr s = (case admitted skip op vr s of
     Inl err \<Rightarrow> (Inl err, s)
   | Inr u \<Rightarrow> (Inr None, (fold incrementEntryCount (roles op) s)\<lparr>mempool := mempool s @ [entry_for skip op h vr]\<rparr>))"
proof (cases "admitted skip op vr s")
  case (Inl err)
  then have "skip = False" by (simp add: admitted_def split: if_splits)
  with Inl show ?thesis
    by (cases "checkReputation vr s"; cases "checkMultipleRolesViolation op s")
      (simp_all add: admitted_def push_entry_def Let_def monad_simps bindE_def)
next
  case (Inr u)
  show ?thesis
    using Inr
    by (cases skip; cases "checkReputation vr s"; cases "checkMultipleRolesViolation op s";
        cases "paymaster op"; cases "factory op")
      (simp_all add: admitted_def push_entry_def Let_def monad_simps roles_def)
qed

text \<open>
  The four ways an addition ends. A failed addition leaves the state as it was, because
  every check comes before the first write.
\<close>

lemma addUserOp_cases:
  obtains (bad_nonce) err where "getPackedNonce (lib s) op = Inl err" and "addUserOp skip op h vr s = (Inl err, s)"
  | (bad_pool) n err where "getPackedNonce (lib s) op = Inr n"
      and "findBySenderNonce (sender op) n s = Inl err" and "addUserOp skip op h vr s = (Inl err, s)"
  | (not_replaced) n i err where "getPackedNonce (lib s) op = Inr n"
      and "findBySenderNonce (sender op) n s = Inr (Some i)"
      and "checkReplaceUserOp (mempool s ! i) (entry_for skip op h vr) = Inl err"
      and "addUserOp skip op h vr s = (Inl err, s)"
  | (replaced) n i t where "getPackedNonce (lib s) op = Inr n"
      and "findBySenderNonce (sender op) n s = Inr (Some i)"
      and "checkReplaceUserOp (mempool s ! i) (entry_for skip op h vr) = Inr ()"
      and "addUserOp skip op h vr s = (Inr (), t)"
      and "pool_frame (s\<lparr>mempool := (mempool s)[i := entry_for skip op h vr]\<rparr>) t"
  | (refused) n err where "getPackedNonce (lib s) op = Inr n" and "findBySenderNonce (sender op) n s = Inr None"
      and "admitted skip op vr s = Inl err" and "addUserOp skip op h vr s = (Inl err, s)"
  | (pushed) n t where "getPackedNonce (lib s) op = Inr n" and "findBySenderNonce (sender op) n s = Inr None"
      and "admitted skip op vr s = Inr ()" and "addUserOp skip op h vr s = (Inr (), t)"
      and "pool_frame ((fold incrementEntryCount (roles op) s)\<lparr>mempool := mempool s @ [entry_for skip op h vr]\<rparr>) t"
proof (cases "getPackedNonce (lib s) op")
  case (Inl err)
  show thesis
    by (rule bad_nonce [OF Inl]) (simp add: addUserOp_def entry_for_def [symmetric] monad_simps Inl Let_def)
next
  case n: (Inr n)
  note add = addUserOp_def entry_for_def [symmetric] monad_simps n Let_def
  show thesis
  proof (cases "findBySenderNonce (sender op) n s")
    case (Inl err)
    show thesis by (rule bad_pool [OF n Inl]) (simp add: add Inl)
  next
    case (Inr idx)
    show thesis
    proof (cases idx)
      case None
      with Inr have f: "findBySenderNonce (sender op) n s = Inr None" by simp
      show thesis
      proof (cases "admitted skip op vr s")
        case (Inl err)
        show thesis by (rule refused [OF n f Inl]) (simp add: add f push_entry_eq Inl)
      next
        case a: (Inr u)
        let ?u = "(fold incrementEntryCount (roles op) s)\<lparr>mempool := mempool s @ [entry_for skip op h vr]\<rparr>"
        obtain t where t: "pool_updateSeenStatus (map_option addr (aggregatorInfo vr)) op (senderInfo vr) 1 ?u = (Inr (), t)"
          "pool_frame ?u t" by (rule pool_updateSeenStatus_ok)
        show thesis using pushed [OF n f _ _ t(2)] t(1) a by (simp add: add f push_entry_eq)
      qed
    next
      case (Some i)
      with Inr have f: "findBySenderNonce (sender op) n s = Inr (Some i)" by simp
      show thesis
      proof (cases "checkReplaceUserOp (mempool s ! i) (entry_for skip op h vr)")
        case (Inl err)
        show thesis by (rule not_replaced [OF n f Inl]) (simp add: add f replace_entry_eq Inl)
      next
        case c: (Inr u)
        let ?u = "s\<lparr>mempool := (mempool s)[i := entry_for skip op h vr]\<rparr>" and ?old = "mempool s ! i"
        obtain t1 where t1: "pool_updateSeenStatus (aggregator ?old) (userOp ?old) (senderInfo vr) (-1) ?u = (Inr (), t1)"
          "pool_frame ?u t1" by (rule pool_updateSeenStatus_ok)
        obtain t where t: "pool_updateSeenStatus (map_option addr (aggregatorInfo vr)) op (senderInfo vr) 1 t1 = (Inr (), t)"
          "pool_frame t1 t" by (rule pool_updateSeenStatus_ok)
        show thesis
          using replaced [OF n f _ _ pool_frame_trans [OF t1(2) t(2)]] t1(1) t(1) c
          by (simp add: add f replace_entry_eq)
      qed
    qed
  qed
qed

section \<open>Searching finds what is there\<close>

definition pool_key :: "ethers_lib \<Rightarrow> mempool_entry \<Rightarrow> string \<times> int res" where
  "pool_key L e = (sender (userOp e), getPackedNonce L (userOp e))"

text \<open>
  The pool invariant: every nonce in the pool packs, and no two entries have the same
  sender and packed nonce.
\<close>

definition pool_wf :: "'z pool_state_scheme \<Rightarrow> bool" where
  "pool_wf s \<longleftrightarrow> distinct (map (pool_key (lib s)) (mempool s))
     \<and> (\<forall>e\<in>set (mempool s). \<exists>n. getPackedNonce (lib s) (userOp e) = Inr n)"

lemma find_from_Some:
  "findBySenderNonce_from L a n k es = Inr (Some i) \<Longrightarrow>
     \<exists>j. i = k + j \<and> j < length es \<and> pool_key L (es ! j) = (a, Inr n)"
proof (induction es arbitrary: k)
  case (Cons e es)
  show ?case
  proof (cases "pool_key L e = (a, Inr n)")
    case True
    then show ?thesis using Cons.prems by (auto simp: bindE_Inr_iff pool_key_def)
  next
    case False
    then have "findBySenderNonce_from L a n (Suc k) es = Inr (Some i)"
      using Cons.prems by (auto simp: bindE_Inr_iff pool_key_def split: if_splits)
    then obtain j where "i = Suc k + j" "j < length es" "pool_key L (es ! j) = (a, Inr n)"
      using Cons.IH by blast
    then show ?thesis by (intro exI [of _ "Suc j"]) simp
  qed
qed simp

lemma find_from_None:
  "findBySenderNonce_from L a n k es = Inr None \<Longrightarrow> (a, Inr n) \<notin> pool_key L ` set es"
  by (induction es arbitrary: k) (auto simp: bindE_Inr_iff pool_key_def split: if_splits)

lemma find_from_ok:
  "\<forall>e\<in>set es. \<exists>n. getPackedNonce L (userOp e) = Inr n \<Longrightarrow> \<exists>r. findBySenderNonce_from L a n k es = Inr r"
  by (induction es arbitrary: k) auto

lemma findBySenderNonce_Some:
  "findBySenderNonce a n s = Inr (Some i) \<Longrightarrow>
     i < length (mempool s) \<and> pool_key (lib s) (mempool s ! i) = (a, Inr n)"
  using find_from_Some [of "lib s" a n 0 "mempool s" i] by (simp add: findBySenderNonce_def)

lemma findByHash_from_Some:
  "findByHash_from h k es = Some i \<Longrightarrow> \<exists>j. i = k + j \<and> j < length es \<and> userOpHash (es ! j) = h"
proof (induction es arbitrary: k)
  case (Cons e es)
  show ?case
  proof (cases "userOpHash e = h")
    case False
    then obtain j where "i = Suc k + j" "j < length es" "userOpHash (es ! j) = h"
      using Cons.IH [of "Suc k"] Cons.prems by auto
    then show ?thesis by (intro exI [of _ "Suc j"]) simp
  qed (use Cons.prems in auto)
qed simp

lemma findByHash_from_None: "findByHash_from h k es = None \<longleftrightarrow> h \<notin> userOpHash ` set es"
  by (induction es arbitrary: k) auto

lemma findByHash_from_first:
  "h \<notin> userOpHash ` set es \<Longrightarrow> findByHash_from h k (es @ fs) = findByHash_from h (k + length es) fs"
  by (induction es arbitrary: k) auto

section \<open>The invariants are kept\<close>

lemma pool_frame_wf: "pool_frame s t \<Longrightarrow> pool_wf t \<longleftrightarrow> pool_wf s"
  by (simp add: pool_frame_def pool_wf_def)

lemma pool_frame_counts: "pool_frame s t \<Longrightarrow> counts_ok t \<longleftrightarrow> counts_ok s"
  by (simp add: pool_frame_def counts_ok_def read_count_def)

lemma fold_count_frame [simp]:
  "mempool (fold incrementEntryCount xs s) = mempool s" "lib (fold incrementEntryCount xs s) = lib s"
  "mempool (fold decrementEntryCount xs s) = mempool s" "lib (fold decrementEntryCount xs s) = lib s"
  "blackList (fold incrementEntryCount xs s) = blackList s" "whitelist (fold incrementEntryCount xs s) = whitelist s"
  by (induction xs arbitrary: s) simp_all

lemma distinct_map_list_update:
  assumes "distinct (map f xs)" and "i < length xs" and "f x = f (xs ! i)"
  shows "map f (xs[i := x]) = map f xs"
  using assms by (metis list_update_id map_update)

lemma pool_wf_addUserOp: "pool_wf s \<Longrightarrow> pool_wf (snd (addUserOp skip op h vr s))"
proof -
  assume wf: "pool_wf s"
  show "pool_wf (snd (addUserOp skip op h vr s))"
  proof (cases rule: addUserOp_cases [where s = s and op = op and skip = skip and h = h and vr = vr])
    case (replaced n i t)
    have i: "i < length (mempool s)" "pool_key (lib s) (mempool s ! i) = (sender op, Inr n)"
      using findBySenderNonce_Some [OF replaced(2)] by simp_all
    then have "pool_key (lib s) (entry_for skip op h vr) = pool_key (lib s) (mempool s ! i)"
      by (simp add: pool_key_def replaced(1))
    then have "map (pool_key (lib s)) ((mempool s)[i := entry_for skip op h vr]) = map (pool_key (lib s)) (mempool s)"
      using wf i(1) by (intro distinct_map_list_update) (simp_all add: pool_wf_def)
    moreover have "set ((mempool s)[i := entry_for skip op h vr]) \<subseteq> insert (entry_for skip op h vr) (set (mempool s))"
      by (rule set_update_subset_insert)
    ultimately have "pool_wf (s\<lparr>mempool := (mempool s)[i := entry_for skip op h vr]\<rparr>)"
      using wf replaced(1) by (fastforce simp: pool_wf_def)
    then show ?thesis using replaced(4) pool_frame_wf [OF replaced(5)] by simp
  next
    case (pushed n t)
    have "(sender op, Inr n) \<notin> pool_key (lib s) ` set (mempool s)"
      using pushed(2) by (auto simp: findBySenderNonce_def dest: find_from_None)
    then show ?thesis
      using wf pushed(1,4) pool_frame_wf [OF pushed(5)]
      by (simp add: pool_wf_def pool_key_def)
  qed (use wf in simp_all)
qed

lemma removeAt_eq:
  assumes "getPackedNonce (lib s) (userOp (mempool s ! i)) = Inr n"
  shows "removeAt i s = (Inr (), fold decrementEntryCount (roles (userOp (mempool s ! i)))
           (s\<lparr>mempool := take i (mempool s) @ drop (Suc i) (mempool s)\<rparr>))"
  by (simp add: removeAt_def monad_simps assms roles_def)

lemma removeAt_throws:
  "getPackedNonce (lib s) (userOp (mempool s ! i)) = Inl err \<Longrightarrow> removeAt i s = (Inl err, s)"
  by (simp add: removeAt_def monad_simps)

lemma distinct_map_remove: "distinct (map f xs) \<Longrightarrow> distinct (map f (take i xs @ drop (Suc i) xs))"
proof (cases "i < length xs")
  case True
  assume "distinct (map f xs)"
  then have "distinct (map f (take i xs @ xs ! i # drop (Suc i) xs))"
    using id_take_nth_drop [OF True] by simp
  then show ?thesis by auto
qed simp

lemma set_remove: "set (take i xs @ drop j xs) \<subseteq> set xs"
  by (auto dest: in_set_takeD in_set_dropD)

lemma pool_wf_removeAt: "pool_wf s \<Longrightarrow> pool_wf (snd (removeAt i s))"
proof -
  assume wf: "pool_wf s"
  show "pool_wf (snd (removeAt i s))"
  proof (cases "getPackedNonce (lib s) (userOp (mempool s ! i))")
    case (Inr n)
    have "\<forall>e\<in>set (take i (mempool s) @ drop (Suc i) (mempool s)). \<exists>n. getPackedNonce (lib s) (userOp e) = Inr n"
      using wf set_remove [of i "mempool s" "Suc i"] unfolding pool_wf_def by blast
    then show ?thesis
      using wf distinct_map_remove [of "pool_key (lib s)" "mempool s" i]
      by (simp add: removeAt_eq [OF Inr] pool_wf_def)
  qed (use wf in \<open>simp add: removeAt_throws\<close>)
qed

lemma removeUserOp_cases:
  obtains (nothing) r where "removeUserOp w s = (r, s)"
  | (at) i where "i < length (mempool s)" and "removeUserOp w s = removeAt i s"
proof (cases w)
  case (ByHash h)
  note rem = removeUserOp_def ByHash monad_simps
  show thesis
  proof (cases "findByHash h s")
    case None
    have "removeUserOp w s = (Inr (), s)" by (simp add: rem None)
    then show thesis by (rule nothing)
  next
    case (Some i)
    then have "i < length (mempool s)"
      using findByHash_from_Some [of h 0 "mempool s" i] by (simp add: findByHash_def)
    moreover have "removeUserOp w s = removeAt i s" by (simp add: rem Some)
    ultimately show thesis by (rule at)
  qed
next
  case (ByOp op)
  note rem = removeUserOp_def ByOp monad_simps
  show thesis
  proof (cases "getPackedNonce (lib s) op")
    case (Inl err)
    have "removeUserOp w s = (Inl err, s)" by (simp add: rem Inl)
    then show thesis by (rule nothing)
  next
    case n: (Inr n)
    consider (err) err where "findBySenderNonce (sender op) n s = Inl err"
      | (none) "findBySenderNonce (sender op) n s = Inr None"
      | (some) i where "findBySenderNonce (sender op) n s = Inr (Some i)"
      by (cases "findBySenderNonce (sender op) n s"; cases "projr (findBySenderNonce (sender op) n s)") auto
    then show thesis
    proof cases
      case err
      have "removeUserOp w s = (Inl err, s)" by (simp add: rem n err)
      then show thesis by (rule nothing)
    next
      case none
      have "removeUserOp w s = (Inr (), s)" by (simp add: rem n none)
      then show thesis by (rule nothing)
    next
      case some
      have "removeUserOp w s = removeAt i s" by (simp add: rem n some)
      with findBySenderNonce_Some [OF some] show thesis by (intro at) simp_all
    qed
  qed
qed

lemma keeps_removeUserOp:
  assumes "\<And>i s. I s \<Longrightarrow> i < length (mempool s) \<Longrightarrow> I (snd (removeAt i s))"
  shows "keeps I (removeUserOp w)"
proof (rule keepsI)
  fix s assume "I s"
  then show "I (snd (removeUserOp w s))"
    by (cases rule: removeUserOp_cases [of w s]) (simp_all add: assms)
qed

lemma keeps_removeBannedAddr:
  assumes "\<And>i s. I s \<Longrightarrow> i < length (mempool s) \<Longrightarrow> I (snd (removeAt i s))"
  shows "keeps I (removeBannedAddr a)"
proof -
  have "keeps I (removeBannedAddr_from a n)" for n
    by (induction n) (auto intro!: keeps_intros keeps_removeUserOp assms)
  then show ?thesis unfolding removeBannedAddr_def by (intro keeps_bindM keeps_pure)
qed

text \<open>The counters.\<close>

lemma role_count_update:
  "i < length es \<Longrightarrow> lowers (roles (userOp e)) = lowers (roles (userOp (es ! i))) \<Longrightarrow>
     role_count (es[i := e]) a = role_count es a"
proof -
  assume i: "i < length es" and eq: "lowers (roles (userOp e)) = lowers (roles (userOp (es ! i)))"
  have "role_count (take i es @ e # drop (Suc i) es) a = role_count (take i es @ es ! i # drop (Suc i) es) a"
    using eq by simp
  then show ?thesis by (simp only: upd_conv_take_nth_drop [OF i] id_take_nth_drop [OF i, symmetric])
qed

lemma counts_ok_push:
  assumes "counts_ok s"
  shows "counts_ok ((fold incrementEntryCount (roles (userOp e)) s)\<lparr>mempool := mempool s @ [e]\<rparr>)"
proof -
  let ?t = "fold incrementEntryCount (roles (userOp e)) s"
  have "read_count ?t a = int (role_count (mempool s @ [e]) a)" for a
    using assms cnt.inc_all [of "roles (userOp e)" s a] by (simp add: counts_ok_def)
  moreover have "0 < c" if "entryCounts ?t a = Some c" for a c
    using assms inc_positive [OF _ that] by (auto simp: counts_ok_def)
  ultimately show ?thesis by (auto simp: counts_ok_def read_count_def)
qed

lemma counts_ok_removeAt:
  assumes "counts_ok s" and i: "i < length (mempool s)"
  shows "counts_ok (snd (removeAt i s))"
proof (cases "getPackedNonce (lib s) (userOp (mempool s ! i))")
  case (Inr n)
  let ?e = "mempool s ! i" and ?es = "take i (mempool s) @ drop (Suc i) (mempool s)"
  let ?u = "s\<lparr>mempool := ?es\<rparr>"
  let ?t = "fold decrementEntryCount (roles (userOp ?e)) ?u"
  have rc: "role_count (mempool s) a = count_list (lowers (roles (userOp ?e))) a + role_count ?es a" for a
    by (subst id_take_nth_drop [OF i]) simp
  have rd: "read_count ?u a = int (role_count (mempool s) a)" for a
    using assms(1) by (simp add: counts_ok_def read_count_def)
  have "read_count ?t a = int (role_count ?es a)" for a
    by (subst cnt.dec_all) (simp_all add: rd rc)
  moreover have "0 < c" if "entryCounts ?t a = Some c" for a c
    using assms(1) dec_positive [OF _ that] by (auto simp: counts_ok_def)
  ultimately show ?thesis by (auto simp: removeAt_eq [OF Inr] counts_ok_def)
qed (use assms in \<open>simp add: removeAt_throws\<close>)

lemma counts_ok_replace:
  assumes "counts_ok s" and "i < length (mempool s)"
    and "lowers (roles (userOp e)) = lowers (roles (userOp (mempool s ! i)))"
  shows "counts_ok (s\<lparr>mempool := (mempool s)[i := e]\<rparr>)"
  using assms by (simp add: counts_ok_def read_count_def role_count_update)

lemma keeps_removals:
  "keeps pool_wf (removeUserOp w)" "keeps pool_wf (removeBannedAddr a)"
  "keeps counts_ok (removeUserOp w)" "keeps counts_ok (removeBannedAddr a)"
  by (intro keeps_removeUserOp keeps_removeBannedAddr; simp add: pool_wf_removeAt counts_ok_removeAt)+

text \<open>Looking for an operation right after its entry was appended.\<close>

lemma find_from_append:
  "findBySenderNonce_from L a n k es = Inr None \<Longrightarrow>
     findBySenderNonce_from L a n k (es @ fs) = findBySenderNonce_from L a n (k + length es) fs"
proof (induction es arbitrary: k)
  case (Cons e es)
  have "findBySenderNonce_from L a n (Suc k) es = Inr None"
    using Cons.prems by (auto simp: bindE_Inr_iff split: if_splits)
  then show ?case
    using Cons.IH [of "Suc k"] Cons.prems by (auto simp: bindE_Inr_iff bindE_def split: sum.splits if_splits)
qed simp

section \<open>Reachable pools\<close>

text \<open>
  The calls of the rest of the program that change the pool or the reputation under it.
  The flag of a step says that no operation was replaced by one with other entities.
\<close>

definition same_entities :: "operation \<Rightarrow> operation \<Rightarrow> bool" where
  "same_entities op op' \<longleftrightarrow> lower_opt (paymaster op) = lower_opt (paymaster op')
     \<and> lower_opt (factory op) = lower_opt (factory op')"

definition keeps_entities :: "operation \<Rightarrow> 'z pool_state_scheme \<Rightarrow> bool" where
  "keeps_entities op s \<longleftrightarrow> (case getPackedNonce (lib s) op of Inl e \<Rightarrow> True | Inr n \<Rightarrow>
     (case findBySenderNonce (sender op) n s of Inr (Some i) \<Rightarrow> same_entities op (userOp (mempool s ! i)) | _ \<Rightarrow> True))"

inductive pool_step :: "bool \<Rightarrow> 'z pool_state_scheme \<Rightarrow> 'z pool_state_scheme \<Rightarrow> bool" where
  pool_add: "b \<longrightarrow> keeps_entities op s \<Longrightarrow> pool_step b s (snd (addUserOp skip op h vr s))"
| pool_remove: "pool_step b s (snd (removeUserOp w s))"
| pool_ban: "pool_step b s (snd (removeBannedAddr a s))"
| pool_clear: "pool_step b s (pool_clearState s)"
| pool_seen: "pool_step b s (updateSeenStatus a v s)"
| pool_included: "pool_step b s (updateIncludedStatus a' s)"
| pool_crashed: "pool_step b s (crashedHandleOps a s)"
| pool_cron: "pool_step b s (hourlyCron s)"

inductive_cases pool_stepE: "pool_step b s t"

lemma pool_frame_reputation:
  "pool_frame s (updateSeenStatus a v s)" "pool_frame s (updateIncludedStatus a' s)"
  "pool_frame s (crashedHandleOps a s)" "pool_frame s (hourlyCron s)"
proof -
  have "pool_frame s (hourly_entry k s)" for k and s :: "'z pool_state_scheme"
    by (simp add: hourly_entry_def Let_def pool_frame_put_entry split: option.split) (simp add: pool_frame_def)
  then have "pool_frame s (foldl (\<lambda>s a. hourly_entry a s) s ks)" for ks
    by (induction ks arbitrary: s) (auto intro: pool_frame_trans)
  then show "pool_frame s (hourlyCron s)" by (simp add: hourlyCron_def)
  show "pool_frame s (updateSeenStatus a v s)" by (rule pool_frame_updateSeenStatus)
  show "pool_frame s (updateIncludedStatus a' s)" by (simp add: rep_writes pool_frame_put_entry)
  show "pool_frame s (crashedHandleOps a s)" by (cases a) (simp_all add: rep_writes pool_frame_put_entry)
qed

lemma pool_wf_step: "pool_step b s t \<Longrightarrow> pool_wf s \<Longrightarrow> pool_wf t"
proof (induction rule: pool_step.induct)
  case (pool_remove b s w)
  show ?case using pool_remove by (rule keepsD [OF keeps_removals(1)])
next
  case (pool_ban b s a)
  show ?case using pool_ban by (rule keepsD [OF keeps_removals(2)])
qed (simp_all add: pool_wf_addUserOp pool_frame_wf [OF pool_frame_reputation(1)]
    pool_frame_wf [OF pool_frame_reputation(2)] pool_frame_wf [OF pool_frame_reputation(3)]
    pool_frame_wf [OF pool_frame_reputation(4)], simp add: pool_wf_def pool_clearState_def)

lemma lowers_same_entities:
  "sender op = sender op' \<Longrightarrow> same_entities op op' \<Longrightarrow> lowers (roles op) = lowers (roles op')"
  by (cases "paymaster op"; cases "paymaster op'"; cases "factory op"; cases "factory op'")
    (simp_all add: same_entities_def roles_def)

lemma counts_ok_addUserOp:
  assumes "counts_ok s" and "keeps_entities op s"
  shows "counts_ok (snd (addUserOp skip op h vr s))"
proof (cases rule: addUserOp_cases [where s = s and op = op and skip = skip and h = h and vr = vr])
  case (replaced n i t)
  have i: "i < length (mempool s)" "sender (userOp (mempool s ! i)) = sender op"
    using findBySenderNonce_Some [OF replaced(2)] by (simp_all add: pool_key_def)
  have "same_entities op (userOp (mempool s ! i))"
    using assms(2) replaced(1,2) by (simp add: keeps_entities_def)
  then have "counts_ok (s\<lparr>mempool := (mempool s)[i := entry_for skip op h vr]\<rparr>)"
    using assms(1) i by (intro counts_ok_replace) (simp_all add: lowers_same_entities)
  then show ?thesis using replaced(4) pool_frame_counts [OF replaced(5)] by simp
next
  case (pushed n t)
  have "counts_ok ((fold incrementEntryCount (roles (userOp (entry_for skip op h vr))) s)
      \<lparr>mempool := mempool s @ [entry_for skip op h vr]\<rparr>)"
    using assms(1) by (rule counts_ok_push)
  then show ?thesis using pushed(4) pool_frame_counts [OF pushed(5)] by simp
qed (use assms in simp_all)

lemma counts_ok_step: "pool_step b s t \<Longrightarrow> b \<Longrightarrow> counts_ok s \<Longrightarrow> counts_ok t"
proof (induction rule: pool_step.induct)
  case (pool_add b op s skip h vr)
  then show ?case by (intro counts_ok_addUserOp) simp_all
next
  case (pool_remove b s w)
  show ?case using pool_remove(2) by (rule keepsD [OF keeps_removals(3)])
next
  case (pool_ban b s a)
  show ?case using pool_ban(2) by (rule keepsD [OF keeps_removals(4)])
qed (simp_all add: pool_frame_counts [OF pool_frame_reputation(1)]
    pool_frame_counts [OF pool_frame_reputation(2)] pool_frame_counts [OF pool_frame_reputation(3)]
    pool_frame_counts [OF pool_frame_reputation(4)], simp add: counts_ok_def pool_clearState_def read_count_def)

lemma init_pool_simps [simp]:
  "mempool (init_pool L r) = []" "lib (init_pool L r) = L" "entryCounts (init_pool L r) = (\<lambda>_. None)"
  by (simp_all add: init_pool_def rep_state.defs)

section \<open>Properties\<close>

text \<open>No state the pool reaches holds two operations with the same sender and the same
  (packed) nonce, and every nonce in it packs without an error.\<close>

theorem pool_keys_unique:
  "(pool_step b)\<^sup>*\<^sup>* (init_pool L r) s \<Longrightarrow>
     distinct (map (\<lambda>e. (sender (userOp e), getPackedNonce (lib s) (userOp e))) (mempool s))
     \<and> (\<forall>e\<in>set (mempool s). \<exists>n. getPackedNonce (lib s) (userOp e) = Inr n)"
proof -
  assume "(pool_step b)\<^sup>*\<^sup>* (init_pool L r) s"
  then have "pool_wf s"
    by (induction rule: rtranclp_induct) (auto intro: pool_wf_step, simp add: pool_wf_def)
  then show ?thesis by (simp add: pool_wf_def pool_key_def [abs_def])
qed

definition pool_example :: pool_state where
  "pool_example = init_pool base_lib (init_rep BundlerReputationParams 1 1)"

lemma pool_keys_unique_witness:
  "let s = snd (addUserOp True (base_op ''0xB'' 0) ''h1'' EmptyValidateUserOpResult
        (snd (addUserOp True (base_op ''0xA'' 0) ''h0'' EmptyValidateUserOpResult pool_example))) in
     distinct (map (\<lambda>e. (sender (userOp e), getPackedNonce (lib s) (userOp e))) (mempool s))
     \<and> (\<forall>e\<in>set (mempool s). \<exists>n. getPackedNonce (lib s) (userOp e) = Inr n)"
  unfolding Let_def pool_example_def
  by (rule pool_keys_unique [where b = False])
    (blast intro: pool_add rtranclp.rtrancl_into_rtrancl)

text \<open>C9: As long as no operation is replaced by one with another paymaster or factory, the
  counter of every address is exactly the number of roles it has in the pool, and absent
  when that number is zero; so the counters never leak.\<close>

theorem entry_counts_exact:
  assumes "(pool_step True)\<^sup>*\<^sup>* (init_pool L r) s"
  shows "entryCount a s = (let c = role_count (mempool s) (toLowerCase a) in if c = 0 then None else Some (int c))"
proof -
  have "counts_ok s"
    using assms
    by (induction rule: rtranclp_induct) (auto intro: counts_ok_step, simp add: counts_ok_def read_count_def)
  then have "read_count s (toLowerCase a) = int (role_count (mempool s) (toLowerCase a))"
      "\<And>c. entryCounts s (toLowerCase a) = Some c \<Longrightarrow> 0 < c"
    by (auto simp: counts_ok_def)
  then show ?thesis
    by (cases "entryCounts s (toLowerCase a)") (auto simp: entryCount_def read_count_def Let_def)
qed

lemma entry_counts_exact_witness:
  "let s = snd (addUserOp True (base_op ''0xA'' 1\<lparr>paymaster := Some ''0xP''\<rparr>) ''h1'' EmptyValidateUserOpResult
        (snd (addUserOp True (base_op ''0xA'' 0) ''h0'' EmptyValidateUserOpResult pool_example))) in
     entryCount ''0xA'' s = (let c = role_count (mempool s) (toLowerCase ''0xA'') in if c = 0 then None else Some (int c))"
  unfolding Let_def [of "snd (addUserOp _ _ _ _ _)"] pool_example_def
proof (rule entry_counts_exact)
  let ?s0 = "init_pool base_lib (init_rep BundlerReputationParams 1 1)"
  let ?s1 = "snd (addUserOp True (base_op ''0xA'' 0) ''h0'' EmptyValidateUserOpResult ?s0)"
  let ?op = "base_op ''0xA'' 1\<lparr>paymaster := Some ''0xP''\<rparr>"
  have "pool_step True ?s0 ?s1"
    by (rule pool_add) (simp add: keeps_entities_def base_op_def getPackedNonce_def findBySenderNonce_def)
  moreover have "keeps_entities ?op ?s1" by code_simp
  then have "pool_step True ?s1 (snd (addUserOp True ?op ''h1'' EmptyValidateUserOpResult ?s1))"
    by (intro pool_add) simp
  ultimately show "(pool_step True)\<^sup>*\<^sup>* ?s0 (snd (addUserOp True ?op ''h1'' EmptyValidateUserOpResult ?s1))"
    by (rule converse_rtranclp_into_rtranclp [OF _ r_into_rtranclp])
qed

text \<open>Replacing an operation by one with another paymaster leaves the counters as they
  were, so they no longer agree with the pool: the paymaster of the old operation stays
  counted for good.\<close>

theorem replacement_leaks_count:
  assumes "counts_ok s" and "addUserOp skip op h vr s = (Inr (), t)"
    and "getPackedNonce (lib s) op = Inr n" and "findBySenderNonce (sender op) n s = Inr (Some i)"
    and "paymaster (userOp (mempool s ! i)) = Some p" and "toLowerCase p \<notin> set (lowers (roles op))"
  shows "entryCount p t = entryCount p s \<and> \<not> counts_ok t
    \<and> int (role_count (mempool t) (toLowerCase p)) < or_else (entryCount p t) 0"
proof -
  let ?p = "toLowerCase p" and ?e = "entry_for skip op h vr"
  have fr: "pool_frame (s\<lparr>mempool := (mempool s)[i := ?e]\<rparr>) t"
    using assms(2-4)
    by (cases rule: addUserOp_cases [where s = s and op = op and skip = skip and h = h and vr = vr]) simp_all
  then have same: "entryCount p t = entryCount p s" by (simp add: pool_frame_def entryCount_def)
  have i: "i < length (mempool s)" using findBySenderNonce_Some [OF assms(4)] by simp
  have "count_list (lowers (roles (userOp (mempool s ! i)))) ?p \<ge> 1"
    using assms(5) by (simp add: roles_def)
  moreover have "count_list (lowers (roles op)) ?p = 0" using assms(6) by (simp add: count_list_0_iff)
  moreover have "role_count (mempool s) ?p = role_count (take i (mempool s) @ mempool s ! i # drop (Suc i) (mempool s)) ?p"
    by (simp only: id_take_nth_drop [OF i, symmetric])
  moreover have "mempool t = take i (mempool s) @ ?e # drop (Suc i) (mempool s)"
    using fr i by (simp add: pool_frame_def upd_conv_take_nth_drop)
  ultimately have less: "role_count (mempool t) ?p < role_count (mempool s) ?p" by simp
  have rs: "read_count s ?p = int (role_count (mempool s) ?p)" using assms(1) by (simp add: counts_ok_def)
  have gt: "int (role_count (mempool t) ?p) < or_else (entryCount p t) 0"
    using less rs same by (simp add: read_count_def entryCount_def)
  have "read_count t ?p = read_count s ?p" using fr by (simp add: pool_frame_def read_count_def)
  then have "\<not> counts_ok t"
    using less rs by (auto simp: counts_ok_def)
  then show ?thesis using same gt by blast
qed

lemma replacement_leaks_count_witness:
  "\<exists>(s :: pool_state) t. addUserOp True (base_op ''0xA'' 0) ''h1'' EmptyValidateUserOpResult s = (Inr (), t) \<and> counts_ok s \<and> \<not> counts_ok t"
proof -
  let ?op = "base_op ''0xA'' 0\<lparr>paymaster := Some ''0xP''\<rparr>" and ?vr = EmptyValidateUserOpResult
  let ?s = "snd (addUserOp True ?op ''h0'' ?vr pool_example)"
  let ?t = "snd (addUserOp True (base_op ''0xA'' 0) ''h1'' ?vr ?s)"
  have c: "counts_ok ?s"
    by (rule counts_ok_addUserOp)
      (simp_all add: pool_example_def counts_ok_def read_count_def keeps_entities_def base_op_def getPackedNonce_def findBySenderNonce_def)
  have "fst (addUserOp True (base_op ''0xA'' 0) ''h1'' ?vr ?s) = Inr ()" by code_simp
  then have "addUserOp True (base_op ''0xA'' 0) ''h1'' ?vr ?s = (Inr (), ?t)"
    by (metis prod.collapse)
  moreover have "getPackedNonce (lib ?s) (base_op ''0xA'' 0) = Inr 0"
      "findBySenderNonce (sender (base_op ''0xA'' 0)) 0 ?s = Inr (Some 0)"
      "paymaster (userOp (mempool ?s ! 0)) = Some ''0xP''"
      "toLowerCase ''0xP'' \<notin> set (lowers (roles (base_op ''0xA'' 0)))"
    by code_simp+
  ultimately show ?thesis using c replacement_leaks_count by blast
qed

text \<open>C35: A failed addition changes nothing at all, and a successful one leaves exactly one
  changed or one new entry, which holds the operation with its hash and gas limit.\<close>

theorem addUserOp_atomic:
  "case addUserOp skip op h vr s of
     (Inl err, t) \<Rightarrow> t = s
   | (Inr u, t) \<Rightarrow> lib t = lib s \<and> whitelist t = whitelist s \<and> blackList t = blackList s \<and>
       (\<exists>e. userOp e = op \<and> userOpHash e = h \<and> skipValidation e = skip \<and>
         userOpMaxGas e = sum_opt [preVerificationGas op, Some (callGasLimit op), Some (verificationGasLimit op),
            paymasterVerificationGasLimit op, paymasterPostOpGasLimit op] \<and>
         (mempool t = mempool s @ [e] \<or>
          (\<exists>i<length (mempool s). sender (userOp (mempool s ! i)) = sender op \<and>
             getPackedNonce (lib s) (userOp (mempool s ! i)) = getPackedNonce (lib s) op \<and>
             mempool t = (mempool s)[i := e])))"
proof -
  have e: "userOp (entry_for skip op h vr) = op" "userOpHash (entry_for skip op h vr) = h"
      "skipValidation (entry_for skip op h vr) = skip"
      "userOpMaxGas (entry_for skip op h vr) = sum_opt [preVerificationGas op, Some (callGasLimit op),
        Some (verificationGasLimit op), paymasterVerificationGasLimit op, paymasterPostOpGasLimit op]"
    by (simp_all add: entry_for_def new_MempoolEntry_def sum_opt_def)
  show ?thesis
  proof (cases rule: addUserOp_cases [where s = s and op = op and skip = skip and h = h and vr = vr])
    case (replaced n i t)
    have "i < length (mempool s)" "pool_key (lib s) (mempool s ! i) = (sender op, Inr n)"
      using findBySenderNonce_Some [OF replaced(2)] by simp_all
    then show ?thesis
      using replaced(1,4,5) e by (auto simp: pool_frame_def pool_key_def intro!: exI [of _ "entry_for skip op h vr"])
  next
    case (pushed n t)
    then show ?thesis using e by (auto simp: pool_frame_def intro!: exI [of _ "entry_for skip op h vr"])
  qed simp_all
qed

text \<open>The entities of a validation result with their titles.\<close>

definition involved :: "'a validation_result_scheme \<Rightarrow> (entity_title \<times> stake_info) list" where
  "involved vr = (AccountTitle, senderInfo vr) # List.map_filter (\<lambda>(t, i). map_option (Pair t) i)
     [(PaymasterTitle, paymasterInfo vr), (DeployerTitle, factoryInfo vr), (AggregatorTitle, aggregatorInfo vr)]"

lemma checkReputationStatus_ok:
  "checkReputationStatus t (Some i) s = Inr () \<Longrightarrow>
     getStatus (Some (addr i)) s \<noteq> BANNED
     \<and> (getStatus (Some (addr i)) s = THROTTLED \<longrightarrow> or_else (entryCount (addr i) s) 0 \<le> THROTTLED_ENTITY_MEMPOOL_COUNT)
     \<and> (or_else (entryCount (addr i) s) 0 < calculateMaxAllowedMempoolOpsUnstaked t (addr i) s
        \<or> checkStake t (Some i) s = Inr ())"
  by (auto simp: checkReputationStatus_def Let_def bindE_Inr_iff checkBanned_def checkThrottled_def split: if_splits)

lemma checkReputation_involved:
  "checkReputation vr s = Inr () \<Longrightarrow> (t, i) \<in> set (involved vr) \<Longrightarrow> checkReputationStatus t (Some i) s = Inr ()"
  by (auto simp: checkReputation_def involved_def bindE_Inr_iff List.map_filter_simps split: option.splits)

text \<open>A validated operation enters the pool as a new entry only if none of its entities
  is banned (GREP-010), every throttled one has at most four operations in the pool, and
  every one that is at its limit of unstaked operations has passed the stake check.\<close>

theorem admission_reputation:
  assumes "addUserOp False op h vr s = (Inr (), t)" and "length (mempool t) = Suc (length (mempool s))"
    and "(ttl, i) \<in> set (involved vr)"
  shows "getStatus (Some (addr i)) s \<noteq> BANNED
    \<and> (getStatus (Some (addr i)) s = THROTTLED \<longrightarrow> or_else (entryCount (addr i) s) 0 \<le> 4)
    \<and> (calculateMaxAllowedMempoolOpsUnstaked ttl (addr i) s \<le> or_else (entryCount (addr i) s) 0 \<longrightarrow>
           checkStake ttl (Some i) s = Inr ())"
proof -
  have "admitted False op vr s = Inr ()"
    using assms(1,2)
    by (cases rule: addUserOp_cases [where s = s and op = op and skip = False and h = h and vr = vr])
      (auto simp: pool_frame_def)
  then have "checkReputationStatus ttl (Some i) s = Inr ()"
    using assms(3) by (auto simp: admitted_def bindE_Inr_iff intro: checkReputation_involved)
  then show ?thesis
    using checkReputationStatus_ok [of ttl i s] by (auto simp: THROTTLED_ENTITY_MEMPOOL_COUNT_def)
qed

lemma admission_reputation_witness:
  "getStatus (Some ''0xA'') pool_example \<noteq> BANNED"
proof -
  let ?vr = "EmptyValidateUserOpResult\<lparr>senderInfo := \<lparr>addr = ''0xA'', stake = 0, unstakeDelaySec = 0, pm_context = None\<rparr>\<rparr>"
  let ?r = "addUserOp False (base_op ''0xA'' 0) ''h0'' ?vr pool_example"
  have "fst ?r = Inr ()" "length (mempool (snd ?r)) = Suc (length (mempool pool_example))"
    by code_simp+
  then show ?thesis
    using admission_reputation [of "base_op ''0xA'' 0" "''h0''" ?vr pool_example "snd ?r" AccountTitle "senderInfo ?vr"]
    by (simp add: involved_def prod_eq_iff)
qed

text \<open>A replacement is judged by its fees alone: whether it is accepted does not depend
  on the validation result, so an operation can bring a banned paymaster into the pool by
  replacing an earlier operation of the same sender and nonce.\<close>

theorem replacement_checks_fees_only:
  assumes "getPackedNonce (lib s) op = Inr n" and "findBySenderNonce (sender op) n s = Inr (Some i)"
  shows "fst (addUserOp skip op h vr s) = checkReplaceUserOp (mempool s ! i) (entry_for skip op h vr)
    \<and> fst (addUserOp skip op h vr' s) = fst (addUserOp skip op h vr s)"
proof -
  have *: "fst (addUserOp skip op h vr s) = checkReplaceUserOp (mempool s ! i) (entry_for skip op h vr)" for vr
    using assms
    by (cases rule: addUserOp_cases [where s = s and op = op and skip = skip and h = h and vr = vr]) simp_all
  show ?thesis unfolding * by (simp add: checkReplaceUserOp_def)
qed

lemma replacement_checks_fees_only_witness:
  "let s = addBlacklist [''0xp''] (snd (addUserOp True (base_op ''0xA'' 0) ''h0'' EmptyValidateUserOpResult pool_example));
       op = base_op ''0xA'' 0\<lparr>paymaster := Some ''0xP''\<rparr>;
       vr = EmptyValidateUserOpResult\<lparr>paymasterInfo := Some \<lparr>addr = ''0xP'', stake = 0, unstakeDelaySec = 0, pm_context = None\<rparr>\<rparr>
   in getStatus (Some ''0xP'') s = BANNED \<and> fst (addUserOp False op ''h1'' vr s) = Inr ()"
proof -
  let ?s = "addBlacklist [''0xp''] (snd (addUserOp True (base_op ''0xA'' 0) ''h0'' EmptyValidateUserOpResult pool_example))"
  let ?op = "base_op ''0xA'' 0\<lparr>paymaster := Some ''0xP''\<rparr>"
  have b: "getStatus (Some ''0xP'') ?s = BANNED"
    and n: "getPackedNonce (lib ?s) ?op = Inr 0" and f: "findBySenderNonce (sender ?op) 0 ?s = Inr (Some 0)"
    by code_simp+
  let ?vr = "EmptyValidateUserOpResult\<lparr>paymasterInfo := Some \<lparr>addr = ''0xP'', stake = 0, unstakeDelaySec = 0, pm_context = None\<rparr>\<rparr>"
  have "checkReplaceUserOp (mempool ?s ! 0) (entry_for False ?op ''h1'' ?vr) = Inr ()"
    by code_simp
  then show ?thesis using b replacement_checks_fees_only [OF n f] by (simp add: Let_def)
qed

lemma ge_times_1_1_bump:
  assumes "ge_times_1_1 newFee oldFee" and "0 \<le> oldFee" and "oldFee < 2 ^ 51"
  shows "11 * oldFee \<le> 10 * newFee"
proof -
  let ?p = "oldFee * 2476979795053773"
  have "?p * 2 ^ 53 \<le> newFee * 2 ^ 51 * 2 ^ 53 + ?p"
    using assms(1,2) round53_lower [of ?p] by (simp add: ge_times_1_1_def)
  then show ?thesis using assms(2,3) by simp
qed

lemma checkReplaceUserOp_ok:
  "checkReplaceUserOp e e' = Inr () \<longleftrightarrow>
     safe_int (maxPriorityFeePerGas (userOp e)) \<and> safe_int (maxPriorityFeePerGas (userOp e'))
     \<and> safe_int (maxFeePerGas (userOp e)) \<and> safe_int (maxFeePerGas (userOp e'))
     \<and> ge_times_1_1 (maxPriorityFeePerGas (userOp e')) (maxPriorityFeePerGas (userOp e))
     \<and> ge_times_1_1 (maxFeePerGas (userOp e')) (maxFeePerGas (userOp e))"
  by (auto simp: checkReplaceUserOp_def bindE_Inr_iff toNumber_Inr_iff)

text \<open>C39: An addition that takes an operation out of the pool is a replacement, by an operation of the
  same sender and nonce, and it pays at least ten per cent more in both fees, for all fees below
  \<open>2 ^ 51\<close> wei: the floating-point product never rounds the threshold down far enough to let a cheaper
  one through.\<close>

theorem replacement_fee_bump:
  assumes "addUserOp skip op h vr s = (r, t)" and "e \<in> set (mempool s)" and "e \<notin> set (mempool t)"
    and "0 \<le> maxPriorityFeePerGas (userOp e)" and "maxPriorityFeePerGas (userOp e) < 2 ^ 51"
    and "0 \<le> maxFeePerGas (userOp e)" and "maxFeePerGas (userOp e) < 2 ^ 51"
  shows "sender (userOp e) = sender op \<and> getPackedNonce (lib s) (userOp e) = getPackedNonce (lib s) op
    \<and> 11 * maxPriorityFeePerGas (userOp e) \<le> 10 * maxPriorityFeePerGas op
    \<and> 11 * maxFeePerGas (userOp e) \<le> 10 * maxFeePerGas op"
proof (cases rule: addUserOp_cases [where s = s and op = op and skip = skip and h = h and vr = vr])
  case (replaced n i t')
  obtain j where j: "j < length (mempool s)" "mempool s ! j = e" using assms(2) by (auto simp: in_set_conv_nth)
  have t: "mempool t = (mempool s)[i := entry_for skip op h vr]"
    using replaced(4,5) assms(1) by (simp add: pool_frame_def)
  have "j = i"
  proof (rule ccontr)
    assume "j \<noteq> i"
    then have "mempool t ! j = e" "j < length (mempool t)" using j t by simp_all
    then show False using assms(3) by (metis nth_mem)
  qed
  then have "sender (userOp e) = sender op" "getPackedNonce (lib s) (userOp e) = getPackedNonce (lib s) op"
    using findBySenderNonce_Some [OF replaced(2)] replaced(1) j(2) by (simp_all add: pool_key_def)
  then show ?thesis
    using replaced(3) assms(4-7) j(2) \<open>j = i\<close> ge_times_1_1_bump by (simp add: checkReplaceUserOp_ok)
next
  case (pushed n t')
  then show ?thesis using assms(1-3) by (simp add: pool_frame_def)
qed (use assms(1-3) in simp_all)

definition fee_entry :: "int \<Rightarrow> mempool_entry" where
  "fee_entry f = new_MempoolEntry (base_op ''0xA'' 0\<lparr>maxFeePerGas := f, maxPriorityFeePerGas := f\<rparr>)
     ''h'' 0 \<lparr>ch_addresses = [], ch_hash = []\<rparr> False None"

lemma fee_entry_simps [simp]:
  "maxFeePerGas (userOp (fee_entry f)) = f" "maxPriorityFeePerGas (userOp (fee_entry f)) = f"
  by (simp_all add: fee_entry_def new_MempoolEntry_def)

lemma replacement_fee_bump_witness:
  "\<exists>s t :: pool_state. \<exists>e. addUserOp True (base_op ''0xA'' 0\<lparr>maxFeePerGas := 1100000008, maxPriorityFeePerGas := 1100000008\<rparr>)
       ''h1'' EmptyValidateUserOpResult s = (Inr (), t) \<and>
     e \<in> set (mempool s) \<and> e \<notin> set (mempool t) \<and> maxFeePerGas (userOp e) = 1000000007 \<and>
     11 * maxFeePerGas (userOp e) \<le> 10 * 1100000008"
proof -
  let ?old = "base_op ''0xA'' 0\<lparr>maxFeePerGas := 1000000007, maxPriorityFeePerGas := 1000000007\<rparr>"
  let ?new = "base_op ''0xA'' 0\<lparr>maxFeePerGas := 1100000008, maxPriorityFeePerGas := 1100000008\<rparr>"
  let ?vr = EmptyValidateUserOpResult
  let ?s = "snd (addUserOp True ?old ''h0'' ?vr pool_example)" and ?t = "snd (addUserOp True ?new ''h1'' ?vr
    (snd (addUserOp True ?old ''h0'' ?vr pool_example)))"
  let ?e = "entry_for True ?old ''h0'' ?vr"
  have "fst (addUserOp True ?new ''h1'' ?vr ?s) = Inr ()" by code_simp
  then have add: "addUserOp True ?new ''h1'' ?vr ?s = (Inr (), ?t)" by (metis prod.collapse)
  have "map userOpHash (mempool ?t) = [''h1'']" and s: "mempool ?s = [?e]" by code_simp+
  then have out: "?e \<in> set (mempool ?s)" "?e \<notin> set (mempool ?t)" by auto
  have "maxFeePerGas (userOp ?e) = 1000000007" by simp
  moreover from this replacement_fee_bump [OF add out] have "11 * maxFeePerGas (userOp ?e) \<le> 10 * 1100000008" by simp
  ultimately show ?thesis using add out by blast
qed

text \<open>The double that stands for 1.1 is above 1.1, so a replacement that raises both fees
  from 100 to 110, by exactly ten per cent, is refused, and the refusal names a fee of 110
  as not higher.\<close>

theorem replacement_100_to_110_refused:
  "checkReplaceUserOp (fee_entry 100) (fee_entry 110) = Inl (RpcError
     ''Replacement UserOperation must have higher maxPriorityFeePerGas (old=100 new=110) '' (-32602) [])
   \<and> checkReplaceUserOp (fee_entry 100) (fee_entry 111) = Inr ()"
  by (rule conjI; code_simp)

text \<open>The list offered for inclusion is the pool, with every entry as often as it occurs,
  in ascending order of priority fee (the cheapest operation first), and operations of
  equal fee keep their order of arrival.\<close>

theorem sorted_for_inclusion:
  assumes "getSortedForInclusion s = Inr es"
  shows "mset es = mset (mempool s)
    \<and> sorted (map (\<lambda>e. maxPriorityFeePerGas (userOp e)) es)
    \<and> filter (\<lambda>e. maxPriorityFeePerGas (userOp e) = f) es = filter (\<lambda>e. maxPriorityFeePerGas (userOp e) = f) (mempool s)"
proof -
  have es: "es = sort_key (\<lambda>e. maxPriorityFeePerGas (userOp e)) (mempool s)"
    using assms by (simp add: getSortedForInclusion_def split: if_splits)
  then show ?thesis by (simp add: sort_key_stable)
qed

lemma sorted_for_inclusion_witness:
  "getSortedForInclusion (pool_example\<lparr>mempool := [fee_entry 5, fee_entry 3]\<rparr>) = Inr [fee_entry 3, fee_entry 5]
   \<and> mset [fee_entry 3, fee_entry 5] = mset (mempool (pool_example\<lparr>mempool := [fee_entry 5, fee_entry 3]\<rparr>))"
proof -
  have "getSortedForInclusion (pool_example\<lparr>mempool := [fee_entry 5, fee_entry 3]\<rparr>) = Inr [fee_entry 3, fee_entry 5]"
    by (simp add: getSortedForInclusion_def safe_int_def)
  with sorted_for_inclusion [OF this] show ?thesis by blast
qed

section \<open>Removal\<close>

lemma remove_nth_filter:
  assumes "distinct (map f xs)" and "i < length xs"
  shows "take i xs @ drop (Suc i) xs = filter (\<lambda>x. f x \<noteq> f (xs ! i)) xs"
proof -
  have split: "xs = take i xs @ xs ! i # drop (Suc i) xs" by (rule id_take_nth_drop [OF assms(2)])
  have "distinct (map f (take i xs @ xs ! i # drop (Suc i) xs))" using assms(1) split by simp
  then have "f (xs ! i) \<notin> f ` set (take i xs)" "f (xs ! i) \<notin> f ` set (drop (Suc i) xs)" by simp_all
  then have "filter (\<lambda>x. f x \<noteq> f (xs ! i)) (take i xs) = take i xs"
      "filter (\<lambda>x. f x \<noteq> f (xs ! i)) (drop (Suc i) xs) = drop (Suc i) xs"
    by (intro filter_True ballI; metis image_eqI)+
  moreover have "filter (\<lambda>x. f x \<noteq> f (xs ! i)) xs =
      filter (\<lambda>x. f x \<noteq> f (xs ! i)) (take i xs @ xs ! i # drop (Suc i) xs)"
    using split by simp
  ultimately show ?thesis by simp
qed

text \<open>On a well-formed pool a removal cannot fail, and removes the one entry it is about.\<close>

lemma removeUserOp_op:
  assumes "pool_wf s" and "getPackedNonce (lib s) op = Inr n"
  obtains t where "removeUserOp (ByOp op) s = (Inr (), t)"
    and "mempool t = filter (\<lambda>e. pool_key (lib s) e \<noteq> (sender op, Inr n)) (mempool s)"
proof -
  obtain r where r: "findBySenderNonce (sender op) n s = Inr r"
    using assms(1) find_from_ok unfolding findBySenderNonce_def pool_wf_def by blast
  show thesis
  proof (cases r)
    case None
    then have "(sender op, Inr n) \<notin> pool_key (lib s) ` set (mempool s)"
      using r by (auto simp: findBySenderNonce_def dest: find_from_None)
    then have "filter (\<lambda>e. pool_key (lib s) e \<noteq> (sender op, Inr n)) (mempool s) = mempool s"
      by (intro filter_True) (metis image_eqI)
    moreover have "removeUserOp (ByOp op) s = (Inr (), s)"
      using r None assms(2) by (simp add: removeUserOp_def monad_simps)
    ultimately show thesis using that by simp
  next
    case (Some i)
    then have i: "i < length (mempool s)" "pool_key (lib s) (mempool s ! i) = (sender op, Inr n)"
      using r findBySenderNonce_Some [of "sender op" n s i] by simp_all
    then have k: "getPackedNonce (lib s) (userOp (mempool s ! i)) = Inr n" by (simp add: pool_key_def)
    have "take i (mempool s) @ drop (Suc i) (mempool s)
        = filter (\<lambda>e. pool_key (lib s) e \<noteq> (sender op, Inr n)) (mempool s)"
      using assms(1) i remove_nth_filter [of "pool_key (lib s)" "mempool s" i] by (simp add: pool_wf_def)
    then show thesis
      using that [of "snd (removeAt i s)"] r Some assms(2) removeAt_eq [OF k]
      by (simp add: removeUserOp_def monad_simps)
  qed
qed

text \<open>C36: An addition that is not a replacement and the removal of the same operation cancel
  out: the pool is the one before, entry for entry, and so is every counter.\<close>

theorem add_remove_roundtrip:
  assumes "counts_ok s" and "addUserOp skip op h vr s = (Inr (), t)"
    and "length (mempool t) = Suc (length (mempool s))"
  shows "case removeUserOp (ByOp op) t of (r, u) \<Rightarrow> r = Inr () \<and> mempool u = mempool s \<and> entryCounts u = entryCounts s"
proof -
  let ?e = "entry_for skip op h vr"
  obtain n where n: "getPackedNonce (lib s) op = Inr n" "findBySenderNonce (sender op) n s = Inr None"
      and fr: "pool_frame ((fold incrementEntryCount (roles op) s)\<lparr>mempool := mempool s @ [?e]\<rparr>) t"
    using assms(2,3)
    by (cases rule: addUserOp_cases [where s = s and op = op and skip = skip and h = h and vr = vr])
      (auto simp: pool_frame_def)
  have t: "lib t = lib s" "mempool t = mempool s @ [?e]" using fr by (simp_all add: pool_frame_def)
  have "findBySenderNonce (sender op) n t = Inr (Some (length (mempool s)))"
    using find_from_append [of "lib s" "sender op" n 0 "mempool s"] n by (simp add: findBySenderNonce_def t)
  then have rem: "removeUserOp (ByOp op) t = removeAt (length (mempool s)) t"
    using n(1) by (simp add: removeUserOp_def monad_simps t)
  let ?u = "snd (removeAt (length (mempool s)) t)"
  have nt: "getPackedNonce (lib t) (userOp (mempool t ! length (mempool s))) = Inr n" using n(1) by (simp add: t)
  have u: "removeAt (length (mempool s)) t = (Inr (), ?u)" "mempool ?u = mempool s"
    using removeAt_eq [OF nt] by (simp_all add: t)
  have "counts_ok t"
    using counts_ok_push [OF assms(1), of ?e] pool_frame_counts [OF fr] by simp
  then have cu: "counts_ok ?u" by (rule counts_ok_removeAt) (simp add: t)
  have "entryCounts ?u a = entryCounts s a" for a
  proof -
    have "read_count ?u a = read_count s a" using cu assms(1) u(2) by (simp add: counts_ok_def)
    moreover have "0 < c" if "entryCounts ?u a = Some c \<or> entryCounts s a = Some c" for c
      using cu assms(1) that by (auto simp: counts_ok_def)
    ultimately show ?thesis
      by (cases "entryCounts ?u a"; cases "entryCounts s a") (auto simp: read_count_def)
  qed
  then show ?thesis using rem u by auto
qed

lemma add_remove_roundtrip_witness:
  "let op = base_op ''0xA'' 0\<lparr>paymaster := Some ''0xA''\<rparr> in
     mempool (snd (removeUserOp (ByOp op) (snd (addUserOp True op ''h0'' EmptyValidateUserOpResult pool_example)))) = []"
proof -
  let ?op = "base_op ''0xA'' 0\<lparr>paymaster := Some ''0xA''\<rparr>"
  let ?r = "addUserOp True ?op ''h0'' EmptyValidateUserOpResult pool_example"
  have "fst ?r = Inr ()" "length (mempool (snd ?r)) = Suc (length (mempool pool_example))" by code_simp+
  moreover have "counts_ok pool_example" by (simp add: counts_ok_def pool_example_def read_count_def)
  ultimately have "case removeUserOp (ByOp ?op) (snd ?r) of (r, u) \<Rightarrow>
      r = Inr () \<and> mempool u = mempool pool_example \<and> entryCounts u = entryCounts pool_example"
    by (intro add_remove_roundtrip [where skip = True and h = "''h0''" and vr = EmptyValidateUserOpResult]) (simp_all add: prod_eq_iff)
  then show ?thesis by (simp add: Let_def case_prod_beta pool_example_def)
qed

definition mentions :: "string \<Rightarrow> mempool_entry \<Rightarrow> bool" where
  "mentions a e \<longleftrightarrow> a = sender (userOp e) \<or> Some a \<in> {paymaster (userOp e), factory (userOp e)}"

lemma removeBannedAddr_from_eq:
  assumes "mempool s = xs @ ys" and "length xs = n" and "distinct (map userOpHash (mempool s))"
    and "\<forall>e\<in>set (mempool s). \<exists>k. getPackedNonce (lib s) (userOp e) = Inr k"
  shows "\<exists>t. removeBannedAddr_from a n s = (Inr (), t) \<and> mempool t = filter (\<lambda>e. \<not> mentions a e) xs @ ys"
  using assms
proof (induction n arbitrary: s xs ys)
  case 0
  then show ?case by (simp add: monad_simps)
next
  case (Suc n)
  then obtain xs' x where xs: "xs = xs' @ [x]" "length xs' = n" by (metis length_Suc_conv_rev)
  have nth: "mempool s ! n = x" using Suc.prems(1) xs by (simp add: nth_append)
  show ?case
  proof (cases "mentions a x")
    case False
    have "\<exists>t. removeBannedAddr_from a n s = (Inr (), t) \<and> mempool t = filter (\<lambda>e. \<not> mentions a e) xs' @ (x # ys)"
      using Suc.prems xs by (intro Suc.IH) simp_all
    then show ?thesis using False nth xs(1) by (auto simp: monad_simps mentions_def)
  next
    case True
    have "userOpHash x \<notin> userOpHash ` set xs'" using Suc.prems(1,3) xs(1) by auto
    then have "findByHash (userOpHash x) s = Some n"
      using findByHash_from_first [of "userOpHash x" xs' 0 "x # ys"] Suc.prems(1) xs by (simp add: findByHash_def)
    moreover obtain k where k: "getPackedNonce (lib s) (userOp (mempool s ! n)) = Inr k"
      using Suc.prems(1,4) nth xs(1) by auto
    ultimately obtain u where u: "removeUserOp (ByHash (userOpHash x)) s = (Inr (), u)"
        "mempool u = xs' @ ys" "lib u = lib s"
      using removeAt_eq [OF k] Suc.prems(1) xs by (auto simp: removeUserOp_def monad_simps)
    have "\<exists>t. removeBannedAddr_from a n u = (Inr (), t) \<and> mempool t = filter (\<lambda>e. \<not> mentions a e) xs' @ ys"
      using Suc.prems xs u by (intro Suc.IH) auto
    then show ?thesis using True nth xs(1) u(1) by (auto simp: monad_simps mentions_def)
  qed
qed

lemma removeBannedAddr_filter:
  assumes "pool_wf s" and "distinct (map userOpHash (mempool s))"
  obtains t where "removeBannedAddr a s = (Inr (), t)" and "mempool t = filter (\<lambda>e. \<not> mentions a e) (mempool s)"
  using removeBannedAddr_from_eq [of s "mempool s" "[]" "length (mempool s)" a] assms
  by (auto simp: removeBannedAddr_def pool_count_def monad_simps pool_wf_def)

text \<open>Banning an address (GREP-010) removes exactly the operations that have it, in this
  spelling, as sender, paymaster or factory, keeps all others in their order, and cannot
  fail, when the hashes in the pool are distinct.\<close>

theorem removeBannedAddr_exact:
  assumes "pool_wf s" and "distinct (map userOpHash (mempool s))"
  shows "case removeBannedAddr a s of (r, t) \<Rightarrow> r = Inr () \<and>
    mempool t = filter (\<lambda>e. a \<noteq> sender (userOp e) \<and> Some a \<noteq> paymaster (userOp e) \<and> Some a \<noteq> factory (userOp e)) (mempool s)"
  by (rule removeBannedAddr_filter [OF assms, of a]) (auto simp: mentions_def intro!: filter_cong)

lemma removeBannedAddr_exact_witness:
  "let add = (\<lambda>op h s. snd (addUserOp True op h EmptyValidateUserOpResult s));
       s = add (base_op ''0xA'' 1) ''h2'' (add (base_op ''0xB'' 0\<lparr>factory := Some ''0xF''\<rparr>) ''h1''
             (add (base_op ''0xA'' 0\<lparr>paymaster := Some ''0xF''\<rparr>) ''h0'' pool_example))
   in map userOpHash (mempool (snd (removeBannedAddr ''0xF'' s))) = [''h2'']"
proof -
  let ?add = "\<lambda>op h s. snd (addUserOp True op h EmptyValidateUserOpResult s)"
  let ?s = "?add (base_op ''0xA'' 1) ''h2'' (?add (base_op ''0xB'' 0\<lparr>factory := Some ''0xF''\<rparr>) ''h1''
             (?add (base_op ''0xA'' 0\<lparr>paymaster := Some ''0xF''\<rparr>) ''h0'' pool_example))"
  have "pool_wf pool_example" by (simp add: pool_wf_def pool_example_def)
  then have "pool_wf ?s" by (intro pool_wf_addUserOp)
  moreover have "distinct (map userOpHash (mempool ?s))" by code_simp
  ultimately have "case removeBannedAddr ''0xF'' ?s of (r, t) \<Rightarrow> r = Inr () \<and> mempool t =
      filter (\<lambda>e. ''0xF'' \<noteq> sender (userOp e) \<and> Some ''0xF'' \<noteq> paymaster (userOp e) \<and> Some ''0xF'' \<noteq> factory (userOp e)) (mempool ?s)"
    by (rule removeBannedAddr_exact)
  moreover have "map userOpHash (filter (\<lambda>e. ''0xF'' \<noteq> sender (userOp e) \<and> Some ''0xF'' \<noteq> paymaster (userOp e) \<and> Some ''0xF'' \<noteq> factory (userOp e))
      (mempool ?s)) = [''h2'']"
    by code_simp
  ultimately show ?thesis by (simp add: Let_def case_prod_beta)
qed

section \<open>Roles and limits\<close>

lemma known_after_push:
  "mempool t = mempool s @ [e] \<Longrightarrow>
     set (getKnownSenders t) = insert (toLowerCase (sender (userOp e))) (set (getKnownSenders s))
     \<and> set (getKnownEntities t) = set (getKnownEntities s) \<union> set (lowers [paymaster (userOp e), factory (userOp e)])"
  by (auto simp: getKnownSenders_def getKnownEntities_def lowers_def)

lemma pushed_iff:
  assumes "addUserOp False op h vr s = (Inr (), t)" and "length (mempool t) = Suc (length (mempool s))"
  shows "mempool t = mempool s @ [entry_for False op h vr]"
    and "checkReputation vr s = Inr ()" and "checkMultipleRolesViolation op s = Inr ()"
  using assms
  by (cases rule: addUserOp_cases [where s = s and op = op and skip = False and h = h and vr = vr];
      auto simp: pool_frame_def admitted_def bindE_Inr_iff)+

text \<open>C38: A validated new operation keeps the roles in the pool apart: if no address was both
  a sender and a paymaster or factory, none is afterwards, unless the operation names its
  own sender as its paymaster or factory, which is not checked.\<close>

theorem roles_stay_apart:
  assumes "addUserOp False op h vr s = (Inr (), t)" and "length (mempool t) = Suc (length (mempool s))"
    and "set (getKnownSenders s) \<inter> set (getKnownEntities s) = {}"
    and "toLowerCase (sender op) \<notin> set (lowers [paymaster op, factory op])"
  shows "set (getKnownSenders t) \<inter> set (getKnownEntities t) = {}"
proof -
  note p = pushed_iff [OF assms(1,2)]
  have "toLowerCase (sender op) \<notin> set (getKnownEntities s)"
    and "set (lowers [paymaster op, factory op]) \<inter> set (getKnownSenders s) = {}"
    using p(3)
    by (cases "paymaster op"; cases "factory op"; simp add: checkMultipleRolesViolation_def Let_def bindE_Inr_iff)+
  then show ?thesis
    using known_after_push [OF p(1)] assms(3,4) by auto
qed

lemma roles_stay_apart_witness:
  "let op = base_op ''0xA'' 0\<lparr>paymaster := Some ''0xP''\<rparr>;
       t = snd (addUserOp False op ''h0'' EmptyValidateUserOpResult pool_example) in
     getKnownSenders t = [''0xa''] \<and> set (getKnownSenders t) \<inter> set (getKnownEntities t) = {}"
proof -
  let ?op = "base_op ''0xA'' 0\<lparr>paymaster := Some ''0xP''\<rparr>"
  let ?r = "addUserOp False ?op ''h0'' EmptyValidateUserOpResult pool_example"
  have "fst ?r = Inr ()" "length (mempool (snd ?r)) = Suc (length (mempool pool_example))"
      "set (getKnownSenders pool_example) \<inter> set (getKnownEntities pool_example) = {}"
      "toLowerCase (sender ?op) \<notin> set (lowers [paymaster ?op, factory ?op])"
      "getKnownSenders (snd ?r) = [''0xa'']"
    by code_simp+
  then show ?thesis
    using roles_stay_apart [of ?op "''h0''" EmptyValidateUserOpResult pool_example "snd ?r"]
    by (simp add: Let_def prod_eq_iff)
qed

lemma senders_le_roles:
  "length (filter (\<lambda>e. toLowerCase (sender (userOp e)) = a) es) \<le> role_count es a"
  by (induction es) (simp_all add: roles_def)

text \<open>An unstaked sender (one that would not pass the stake check) never has more than
  four operations in the pool after a validated addition (UREP-010).\<close>

theorem unstaked_sender_limit:
  assumes "counts_ok s"
    and "addUserOp False op h vr s = (Inr (), t)" and "length (mempool t) = Suc (length (mempool s))"
    and "addr (senderInfo vr) = sender op" and "checkStake AccountTitle (Some (senderInfo vr)) s \<noteq> Inr ()"
  shows "length (filter (\<lambda>e. toLowerCase (sender (userOp e)) = toLowerCase (sender op)) (mempool t)) \<le> 4"
proof -
  note p = pushed_iff [OF assms(2,3)]
  have "checkReputationStatus AccountTitle (Some (senderInfo vr)) s = Inr ()"
    using p(2) by (simp add: checkReputation_def bindE_Inr_iff)
  note ok = checkReputationStatus_ok [OF this]
  have "or_else (entryCount (addr (senderInfo vr)) s) 0 < 4"
    using ok assms(5) by (simp add: calculateMaxAllowedMempoolOpsUnstaked_def SAME_SENDER_MEMPOOL_COUNT_def)
  moreover have "read_count s (toLowerCase (sender op)) = int (role_count (mempool s) (toLowerCase (sender op)))"
    using assms(1) by (simp add: counts_ok_def)
  ultimately have "role_count (mempool s) (toLowerCase (sender op)) < 4"
    using assms(4) by (simp add: entryCount_def read_count_def)
  then show ?thesis
    using senders_le_roles [of "toLowerCase (sender op)" "mempool s"] by (simp add: p(1))
qed

lemma unstaked_sender_limit_witness:
  "let vr = EmptyValidateUserOpResult\<lparr>senderInfo := \<lparr>addr = ''0xA'', stake = 0, unstakeDelaySec = 0, pm_context = None\<rparr>\<rparr>;
       t = snd (addUserOp False (base_op ''0xA'' 0) ''h0'' vr pool_example) in
     length (filter (\<lambda>e. toLowerCase (sender (userOp e)) = toLowerCase ''0xA'') (mempool t)) \<le> 4"
proof -
  let ?vr = "EmptyValidateUserOpResult\<lparr>senderInfo := \<lparr>addr = ''0xA'', stake = 0, unstakeDelaySec = 0, pm_context = None\<rparr>\<rparr>"
  let ?r = "addUserOp False (base_op ''0xA'' 0) ''h0'' ?vr pool_example"
  have "fst ?r = Inr ()" "length (mempool (snd ?r)) = Suc (length (mempool pool_example))"
      "checkStake AccountTitle (Some (senderInfo ?vr)) pool_example \<noteq> Inr ()"
      "addr (senderInfo ?vr) = sender (base_op ''0xA'' 0)" "sender (base_op ''0xA'' 0) = ''0xA''"
    by code_simp+
  moreover have "counts_ok pool_example" by (simp add: counts_ok_def pool_example_def read_count_def)
  ultimately show ?thesis
    using unstaked_sender_limit [of pool_example "base_op ''0xA'' 0" "''h0''" ?vr "snd ?r"]
    by (simp add: Let_def prod_eq_iff)
qed

end
