(* ===== verification/EventsManager.thy ===== *)
theory EventsManager
  imports MempoolManager
begin

text \<open>
  \<^verbatim>\<open>packages/bundler/src/modules/EventsManager.ts\<close>: on-chain events of the entry point
  flush included operations from the pool and credit the entities of each. The provider
  (block number, event query) is an argument.
\<close>

section \<open>State and events\<close>

record events_state = pool_state +
  lastBlock :: "int option"
  eventAggregator :: "string option"
  eventAggregatorTxHash :: "string option"

datatype event_args =
  UserOperationEvent string string string \<comment> \<open>userOpHash, sender, paymaster\<close>
| AccountDeployed string \<comment> \<open>factory\<close>
| SignatureAggregatorForUserOperations string \<comment> \<open>aggregator\<close>
| OtherEvent

record chain_event =
  ev_args :: event_args
  blockNumber :: int
  transactionHash :: string

section \<open>Handlers\<close>

definition includedAddress :: "string option \<Rightarrow> 'z rep_state_scheme \<Rightarrow> 'z rep_state_scheme" where
  "includedAddress data s =
     (case data of
        None \<Rightarrow> s
      | Some d \<Rightarrow> if 42 \<le> length d then updateIncludedStatus (take 42 d) s else s)"

definition handleAggregatorChangedEvent :: "string \<Rightarrow> string \<Rightarrow> 'z events_state_scheme \<Rightarrow> 'z events_state_scheme" where
  "handleAggregatorChangedEvent agg tx s = s\<lparr>eventAggregator := Some agg, eventAggregatorTxHash := Some tx\<rparr>"

definition getEventAggregator :: "string \<Rightarrow> 'z events_state_scheme \<Rightarrow> string option \<times> 'z events_state_scheme" where
  "getEventAggregator tx s =
     (let s' = (if Some tx \<noteq> eventAggregatorTxHash s
                then s\<lparr>eventAggregator := None, eventAggregatorTxHash := Some tx\<rparr> else s)
      in (eventAggregator s', s'))"

definition handleAccountDeployedEvent :: "string \<Rightarrow> 'z events_state_scheme \<Rightarrow> 'z events_state_scheme" where
  "handleAccountDeployedEvent fct s = includedAddress (Some fct) s"

definition handleUserOperationEvent ::
  "string \<Rightarrow> string \<Rightarrow> string \<Rightarrow> string \<Rightarrow> ('z events_state_scheme, unit) act" where
  "handleUserOperationEvent h snd' pm tx =
     thenM (removeUserOp (ByHash h))
     (thenM (modifyM (includedAddress (Some snd')))
     (thenM (modifyM (includedAddress (Some pm)))
     (\<lambda>s. (let (agg, s') = getEventAggregator tx s in (Inr (), includedAddress agg s')))))"

definition handleEvent :: "chain_event \<Rightarrow> ('z events_state_scheme, unit) act" where
  "handleEvent ev =
     thenM (case ev_args ev of
         UserOperationEvent h snd' pm \<Rightarrow> handleUserOperationEvent h snd' pm (transactionHash ev)
       | AccountDeployed fct \<Rightarrow> modifyM (handleAccountDeployedEvent fct)
       | SignatureAggregatorForUserOperations agg \<Rightarrow> modifyM (handleAggregatorChangedEvent agg (transactionHash ev))
       | OtherEvent \<Rightarrow> retM ())
     (modifyM (\<lambda>s. s\<lparr>lastBlock := Some (blockNumber ev + 1)\<rparr>))"

fun contains :: "string \<Rightarrow> string \<Rightarrow> bool" where
  "contains [] p \<longleftrightarrow> p = []"
| "contains (c # s) p \<longleftrightarrow> startsWith (c # s) p \<or> contains s p"

definition handlePastEvents ::
  "int res \<Rightarrow> (int \<Rightarrow> chain_event list res) \<Rightarrow> ('z events_state_scheme, unit) act" where
  "handlePastEvents getBlockNumber queryFilter =
     bindM (getM lastBlock) (\<lambda>lb.
     thenM (if lb = None
            then bindM (liftE getBlockNumber) (\<lambda>b. modifyM (\<lambda>s. s\<lparr>lastBlock := Some (max 1 (b - 1000))\<rparr>))
            else retM ())
     (catchM
       (bindM (getM (\<lambda>s. the (lastBlock s))) (\<lambda>from.
        bindM (liftE (queryFilter from)) (\<lambda>evs. forM evs handleEvent)))
       (\<lambda>e. if \<not> contains (err_message e) ''invalid block range params'' then throwM e else retM ())))"

section \<open>Frame facts\<close>

lemma pool_frame_included: "pool_frame s (includedAddress d s)"
  by (cases d) (simp_all add: includedAddress_def pool_frame_reputation)

lemma more_events:
  fixes s t :: "'z events_state_scheme"
  assumes "pool_state.more t = pool_state.more s"
  shows "lastBlock t = lastBlock s" and "eventAggregator t = eventAggregator s"
    and "eventAggregatorTxHash t = eventAggregatorTxHash s" and "events_state.more t = events_state.more s"
  using assms by (cases s; cases t; simp)+

lemmas frame_events = more_events [OF pool_frame_def [THEN iffD1, THEN conjunct2, THEN conjunct2,
  THEN conjunct2, THEN conjunct2, THEN conjunct2, THEN conjunct2, THEN conjunct2, THEN conjunct2]]

lemma includedAddress_events [simp]:
  "lastBlock (includedAddress d s) = lastBlock s"
  "eventAggregator (includedAddress d s) = eventAggregator s"
  "eventAggregatorTxHash (includedAddress d s) = eventAggregatorTxHash s"
  using pool_frame_included [of s d] by (simp_all add: frame_events)

lemma decrement_fold_frame:
  "params (fold decrementEntryCount xs u) = params u \<and> entries (fold decrementEntryCount xs u) = entries u
   \<and> whitelist (fold decrementEntryCount xs u) = whitelist u \<and> blackList (fold decrementEntryCount xs u) = blackList u
   \<and> pool_state.more (fold decrementEntryCount xs u) = pool_state.more u"
  by (induction xs arbitrary: u) (auto simp: decrementEntryCount_def Let_def split: option.split)

lemma removeUserOp_frame:
  "params (snd (removeUserOp w s)) = params s" "entries (snd (removeUserOp w s)) = entries s"
  "whitelist (snd (removeUserOp w s)) = whitelist s" "blackList (snd (removeUserOp w s)) = blackList s"
  "lib (snd (removeUserOp w s)) = lib s" "pool_state.more (snd (removeUserOp w s)) = pool_state.more s"
proof -
  have at: "params (snd (removeAt i s)) = params s \<and> entries (snd (removeAt i s)) = entries s
      \<and> whitelist (snd (removeAt i s)) = whitelist s \<and> blackList (snd (removeAt i s)) = blackList s
      \<and> lib (snd (removeAt i s)) = lib s \<and> pool_state.more (snd (removeAt i s)) = pool_state.more s" for i
  proof (cases "getPackedNonce (lib s) (userOp (mempool s ! i))")
    case (Inr n)
    show ?thesis
      using decrement_fold_frame [of "roles (userOp (mempool s ! i))"
          "s\<lparr>mempool := take i (mempool s) @ drop (Suc i) (mempool s)\<rparr>"]
      by (simp add: removeAt_eq [OF Inr])
  qed (simp add: removeAt_throws)
  show "params (snd (removeUserOp w s)) = params s" "entries (snd (removeUserOp w s)) = entries s"
    "whitelist (snd (removeUserOp w s)) = whitelist s" "blackList (snd (removeUserOp w s)) = blackList s"
    "lib (snd (removeUserOp w s)) = lib s" "pool_state.more (snd (removeUserOp w s)) = pool_state.more s"
    by (cases rule: removeUserOp_cases [of w s]; use at in simp)+
qed

lemma removeUserOp_events [simp]:
  "lastBlock (snd (removeUserOp w s)) = lastBlock s"
  "eventAggregator (snd (removeUserOp w s)) = eventAggregator s"
  "eventAggregatorTxHash (snd (removeUserOp w s)) = eventAggregatorTxHash s"
  by (rule more_events [OF removeUserOp_frame(6)])+

section \<open>One event\<close>

lemma removeUserOp_hash:
  assumes "pool_wf s" and "distinct (map userOpHash (mempool s))"
  shows "fst (removeUserOp (ByHash h) s) = Inr ()"
    and "mempool (snd (removeUserOp (ByHash h) s)) = filter (\<lambda>e. userOpHash e \<noteq> h) (mempool s)"
proof -
  have "fst (removeUserOp (ByHash h) s) = Inr ()
    \<and> mempool (snd (removeUserOp (ByHash h) s)) = filter (\<lambda>e. userOpHash e \<noteq> h) (mempool s)"
  proof (cases "findByHash h s")
    case None
    then have "h \<notin> userOpHash ` set (mempool s)" by (simp add: findByHash_def findByHash_from_None)
    then have "filter (\<lambda>e. userOpHash e \<noteq> h) (mempool s) = mempool s" by (auto simp: filter_id_conv)
    then show ?thesis using None by (simp add: removeUserOp_def monad_simps)
  next
    case (Some i)
    then have i: "i < length (mempool s)" "userOpHash (mempool s ! i) = h"
      using findByHash_from_Some [of h 0 "mempool s" i] by (simp_all add: findByHash_def)
    then obtain n where n: "getPackedNonce (lib s) (userOp (mempool s ! i)) = Inr n"
      using assms(1) nth_mem [OF i(1)] unfolding pool_wf_def by blast
    have "take i (mempool s) @ drop (Suc i) (mempool s) = filter (\<lambda>e. userOpHash e \<noteq> h) (mempool s)"
      using remove_nth_filter [OF assms(2) i(1)] i(2) by simp
    then show ?thesis using Some removeAt_eq [OF n] by (simp add: removeUserOp_def monad_simps)
  qed
  then show "fst (removeUserOp (ByHash h) s) = Inr ()"
    and "mempool (snd (removeUserOp (ByHash h) s)) = filter (\<lambda>e. userOpHash e \<noteq> h) (mempool s)" by simp_all
qed

lemma includedAddress_more:
  "lastBlock (includedAddress d (s\<lparr>eventAggregator := x, eventAggregatorTxHash := y\<rparr>)) = lastBlock s"
  "mempool (includedAddress d s') = mempool s'"
  using pool_frame_included [of s' d] by (simp_all add: pool_frame_def)

text \<open>The addresses one included operation credits, and the table after the credits.\<close>

definition credit :: "string option \<Rightarrow> reputation_entry obj \<Rightarrow> reputation_entry obj" where
  "credit d m = (case d of None \<Rightarrow> m | Some a \<Rightarrow> if length a < 42 then m else
     (let k = toLowerCase (take 42 a); e = or_else (obj_get m k) (new_entry k)
      in AList.update k (e\<lparr>opsIncluded := opsIncluded e + 1\<rparr>) m))"

lemma entries_includedAddress: "entries (includedAddress d s) = credit d (entries s)"
  by (cases d) (auto simp: includedAddress_def credit_def updateIncludedStatus_eq entry_of_def Let_def split: option.split)

text \<open>The event of an included operation cannot fail on a well-formed pool with distinct
  hashes: it removes exactly that operation, credits the sender, the paymaster and the
  aggregator announced for the same transaction once each (a value shorter than an address,
  or an aggregator of another transaction, credits nobody), and moves on to the next block.\<close>

theorem user_operation_event_effect:
  assumes "pool_wf s" and "distinct (map userOpHash (mempool s))"
    and "ev_args ev = UserOperationEvent h snd' pm"
  shows "case handleEvent ev s of (r, t) \<Rightarrow> r = Inr ()
    \<and> mempool t = filter (\<lambda>e. userOpHash e \<noteq> h) (mempool s)
    \<and> entries t = credit (if eventAggregatorTxHash s = Some (transactionHash ev) then eventAggregator s else None)
                    (credit (Some pm) (credit (Some snd') (entries s)))
    \<and> lastBlock t = Some (blockNumber ev + 1)"
proof -
  obtain u where rem: "removeUserOp (ByHash h) s = (Inr (), u)"
    using removeUserOp_hash(1) [OF assms(1,2)] by (metis prod.collapse)
  have "entries u = entries s" "mempool u = filter (\<lambda>e. userOpHash e \<noteq> h) (mempool s)"
      "eventAggregator u = eventAggregator s" "eventAggregatorTxHash u = eventAggregatorTxHash s"
    using removeUserOp_frame(2) [of "ByHash h" s] removeUserOp_hash(2) [OF assms(1,2), of h]
      removeUserOp_events(2,3) [of "ByHash h" s] by (simp_all add: rem)
  then show ?thesis
    by (simp add: handleEvent_def handleUserOperationEvent_def assms(3) monad_simps rem getEventAggregator_def
        Let_def entries_includedAddress includedAddress_more)
qed

definition events_example :: events_state where
  "events_example = pool_state.extend (pool_state.truncate pool_example)
     \<lparr>lastBlock = Some 5, eventAggregator = None, eventAggregatorTxHash = None\<rparr>"

lemma user_operation_event_effect_witness:
  "let a = ''0x'' @ replicate 40 (CHR ''a'');
       s = snd (addUserOp True (base_op a 0) ''h0'' EmptyValidateUserOpResult events_example);
       t = snd (handleEvent \<lparr>ev_args = UserOperationEvent ''h0'' a AddressZero, blockNumber = 7, transactionHash = ''tx''\<rparr> s)
   in mempool t = [] \<and> lastBlock t = Some 8"
proof -
  let ?a = "''0x'' @ replicate 40 (CHR ''a'')"
  let ?s = "snd (addUserOp True (base_op ?a 0) ''h0'' EmptyValidateUserOpResult events_example)"
  let ?ev = "\<lparr>ev_args = UserOperationEvent ''h0'' ?a AddressZero, blockNumber = 7, transactionHash = ''tx''\<rparr>"
  have "mempool events_example = []" by code_simp
  then have "pool_wf events_example" by (simp add: pool_wf_def)
  then have "pool_wf ?s" by (rule pool_wf_addUserOp)
  moreover have "distinct (map userOpHash (mempool ?s))" "filter (\<lambda>e. userOpHash e \<noteq> ''h0'') (mempool ?s) = []"
    by code_simp+
  ultimately show ?thesis
    using user_operation_event_effect [of ?s ?ev "''h0''" ?a AddressZero]
    by (simp add: Let_def case_prod_beta)
qed

section \<open>Many events\<close>

lemma getEventAggregator_snd:
  "eventAggregator (snd (getEventAggregator tx s)) = fst (getEventAggregator tx s)"
  "eventAggregatorTxHash (snd (getEventAggregator tx s)) = Some tx"
  by (simp_all add: getEventAggregator_def Let_def)

lemma handleEvent_aggregator:
  assumes "handleEvent ev s = (Inr (), t)" and "eventAggregator t = Some a"
  shows "ev_args ev = SignatureAggregatorForUserOperations a \<and> eventAggregatorTxHash t = Some (transactionHash ev)
    \<or> eventAggregator s = Some a \<and> eventAggregatorTxHash t = eventAggregatorTxHash s"
proof (cases "ev_args ev")
  case (UserOperationEvent h snd' pm)
  obtain u where u: "removeUserOp (ByHash h) s = (Inr (), u)"
    using assms(1)
    by (auto simp: handleEvent_def UserOperationEvent handleUserOperationEvent_def elim!: thenM_InrD)
  have "eventAggregator u = eventAggregator s" "eventAggregatorTxHash u = eventAggregatorTxHash s"
    using removeUserOp_events(2,3) [of "ByHash h" s] by (simp_all add: u)
  then show ?thesis
    using assms
    by (auto simp: handleEvent_def UserOperationEvent handleUserOperationEvent_def monad_simps u getEventAggregator_def
        Let_def split: if_splits)
qed (use assms in \<open>auto simp: handleEvent_def monad_simps handleAccountDeployedEvent_def handleAggregatorChangedEvent_def\<close>)

lemma forM_events_aggregator:
  "forM evs handleEvent s = (Inr (), t) \<Longrightarrow> eventAggregator t = Some a \<Longrightarrow>
     (\<exists>ev\<in>set evs. ev_args ev = SignatureAggregatorForUserOperations a \<and> eventAggregatorTxHash t = Some (transactionHash ev))
     \<or> eventAggregator s = Some a \<and> eventAggregatorTxHash t = eventAggregatorTxHash s"
proof (induction evs arbitrary: s)
  case (Cons ev evs)
  from Cons.prems(1) obtain u where u: "handleEvent ev s = (Inr (), u)" "forM evs handleEvent u = (Inr (), t)"
    by (auto elim!: thenM_InrD)
  then show ?case
    using Cons.IH [OF u(2) Cons.prems(2)] handleEvent_aggregator [OF u(1), of a] by auto
qed (simp add: monad_simps)

text \<open>The aggregator credited for an operation is one that an event of the same
  transaction announced; an aggregator never carries over to another transaction.\<close>

theorem aggregator_of_same_transaction:
  assumes "forM evs handleEvent s = (Inr (), t)" and "eventAggregator s = None"
    and "fst (getEventAggregator tx t) = Some a"
  shows "\<exists>ev\<in>set evs. ev_args ev = SignatureAggregatorForUserOperations a \<and> transactionHash ev = tx"
  using assms(2,3) forM_events_aggregator [OF assms(1), of a]
  by (auto simp: getEventAggregator_def Let_def split: if_splits)

lemma aggregator_of_same_transaction_witness:
  "\<exists>ev\<in>set [\<lparr>ev_args = SignatureAggregatorForUserOperations ''0xAgg'', blockNumber = 7, transactionHash = ''tx''\<rparr>].
     ev_args ev = SignatureAggregatorForUserOperations ''0xAgg'' \<and> transactionHash ev = ''tx''"
proof -
  let ?ev = "\<lparr>ev_args = SignatureAggregatorForUserOperations ''0xAgg'', blockNumber = 7, transactionHash = ''tx''\<rparr>"
  let ?t = "snd (forM [?ev] handleEvent events_example)"
  have e: "forM [?ev] handleEvent events_example = (Inr (), ?t)" by (simp add: handleEvent_def monad_simps)
  have "eventAggregator events_example = None" "fst (getEventAggregator ''tx'' ?t) = Some ''0xAgg''" by code_simp+
  then show ?thesis by (rule aggregator_of_same_transaction [OF e])
qed

lemma sorted_map_last: "sorted (map f xs) \<Longrightarrow> x \<in> set xs \<Longrightarrow> f x \<le> f (last xs)"
  by (induction xs) auto

lemma handleEvent_lastBlock: "handleEvent ev s = (Inr (), t) \<Longrightarrow> lastBlock t = Some (blockNumber ev + 1)"
  by (auto simp: handleEvent_def monad_simps split: prod.splits sum.splits)

lemma forM_events_lastBlock:
  "forM evs handleEvent s = (Inr (), t) \<Longrightarrow>
     lastBlock t = (if evs = [] then lastBlock s else Some (blockNumber (last evs) + 1))"
proof (induction evs arbitrary: s)
  case (Cons ev evs)
  from Cons.prems obtain u where u: "handleEvent ev s = (Inr (), u)" "forM evs handleEvent u = (Inr (), t)"
    by (auto elim!: thenM_InrD)
  then show ?case using Cons.IH [OF u(2)] handleEvent_lastBlock [OF u(1)] by simp
qed (simp add: monad_simps)

text \<open>A scan of past events starts where the last one stopped, and when the provider
  returns the events in block order, the next scan starts after all of them: no event is
  handled, and no entity credited, twice.\<close>

theorem past_events_handled_once:
  assumes "handlePastEvents bn q s = (Inr (), t)" and "lastBlock s = Some from" and "q from = Inr evs"
    and "sorted (map blockNumber evs)" and "\<forall>ev\<in>set evs. from \<le> blockNumber ev"
    and "fst (forM evs handleEvent s) = Inr ()"
  shows "\<exists>from'. lastBlock t = Some from' \<and> from \<le> from' \<and> (\<forall>ev\<in>set evs. blockNumber ev < from')"
proof -
  have f: "forM evs handleEvent s = (Inr (), t)"
    using assms(1,2,3,6) by (cases "forM evs handleEvent s") (simp add: handlePastEvents_def monad_simps)
  note lb = forM_events_lastBlock [OF f]
  show ?thesis
  proof (cases "evs = []")
    case False
    have "blockNumber ev \<le> blockNumber (last evs)" if "ev \<in> set evs" for ev
      using assms(4) that by (rule sorted_map_last)
    moreover have "from \<le> blockNumber (last evs)" using assms(5) False by simp
    ultimately show ?thesis using lb False by fastforce
  qed (use lb assms(2) in simp)
qed

lemma past_events_handled_once_witness:
  "let ev = \<lparr>ev_args = AccountDeployed ''0xF'', blockNumber = 9, transactionHash = ''tx''\<rparr> in
     \<exists>from'. lastBlock (snd (handlePastEvents (Inr 100) (\<lambda>_. Inr [ev]) events_example)) = Some from' \<and> 5 \<le> from'
       \<and> (\<forall>e\<in>set [ev]. blockNumber e < from')"
proof -
  let ?ev = "\<lparr>ev_args = AccountDeployed ''0xF'', blockNumber = 9, transactionHash = ''tx''\<rparr>"
  let ?r = "handlePastEvents (Inr 100) (\<lambda>_. Inr [?ev]) events_example"
  have lb: "lastBlock events_example = Some 5" by code_simp
  have "?r = (Inr (), snd ?r)"
    by (simp add: handlePastEvents_def monad_simps lb handleEvent_def)
  moreover have "fst (forM [?ev] handleEvent events_example) = Inr ()"
    by (simp add: monad_simps handleEvent_def)
  ultimately show ?thesis
    unfolding Let_def by (intro past_events_handled_once [OF _ lb, where evs = "[?ev]"]) simp_all
qed

end
