(* ===== verification/DepositManager.thy ===== *)
theory DepositManager
  imports EventsManager
begin

text \<open>
  \<^verbatim>\<open>packages/bundler/src/modules/DepositManager.ts\<close>: a paymaster's deposit has to cover its
  pending operations (EREP-010). The on-chain balance query of the bundle manager is the
  argument \<open>getPaymasterBalance\<close>; what it returned is cached until the cache is cleared.
\<close>

section \<open>State and operations\<close>

record deposit_state = events_state +
  deposits :: "int obj"

definition clearCache :: "'z deposit_state_scheme \<Rightarrow> 'z deposit_state_scheme" where
  "clearCache s = s\<lparr>deposits := []\<rparr>"

definition getCachedDeposit :: "(string \<Rightarrow> int res) \<Rightarrow> string \<Rightarrow> ('z deposit_state_scheme, int) act" where
  "getCachedDeposit getPaymasterBalance a =
     bindM (getM (\<lambda>s. obj_get (deposits s) a)) (\<lambda>deposit.
       case deposit of
         Some d \<Rightarrow> retM d
       | None \<Rightarrow>
           bindM (liftE (getPaymasterBalance a)) (\<lambda>d.
           thenM (modifyM (\<lambda>s. s\<lparr>deposits := AList.update a d (deposits s)\<rparr>)) (retM d)))"

definition checkPaymasterDeposit :: "(string \<Rightarrow> int res) \<Rightarrow> operation \<Rightarrow> ('z deposit_state_scheme, unit) act" where
  "checkPaymasterDeposit getPaymasterBalance op =
     (case paymaster op of
        None \<Rightarrow> retM ()
      | Some pm \<Rightarrow>
          if pm = ''0x'' \<or> pm = AddressZero then retM ()
          else
            bindM (getCachedDeposit getPaymasterBalance pm) (\<lambda>deposit0.
            bindM (getM mempool) (\<lambda>es.
            (let deposit1 = deposit0 - getUserOpMaxCost op;
                 deposit = foldl (\<lambda>d e. if paymaster (userOp e) = Some pm then d - getUserOpMaxCost op else d) deposit1 es
             in liftE (requireCond (deposit \<ge> 0) ''paymaster deposit too low for all mempool UserOps''
                  PaymasterDepositTooLow [])))))"

section \<open>The cache\<close>

lemma getCachedDeposit_eq:
  "getCachedDeposit bal a s = (case obj_get (deposits s) a of
     Some d \<Rightarrow> (Inr d, s)
   | None \<Rightarrow> (case bal a of Inl e \<Rightarrow> (Inl e, s)
              | Inr d \<Rightarrow> (Inr d, s\<lparr>deposits := AList.update a d (deposits s)\<rparr>)))"
  by (simp add: getCachedDeposit_def monad_simps split: option.split sum.split)

text \<open>
  The interface of a cache in front of a query: what the clients rely on is that a hit
  repeats the answer of the miss that filled it, and that clearing it makes the next look-up ask again.
\<close>

locale query_cache =
  fixes lookup :: "(string \<Rightarrow> int res) \<Rightarrow> string \<Rightarrow> 's \<Rightarrow> int res \<times> 's"
    and cached :: "'s \<Rightarrow> string \<Rightarrow> int option"
    and clear :: "'s \<Rightarrow> 's"
  assumes hit: "cached s a = Some d \<Longrightarrow> lookup q a s = (Inr d, s)"
    and miss: "cached s a = None \<Longrightarrow> fst (lookup q a s) = q a"
    and fills: "lookup q a s = (Inr d, t) \<Longrightarrow> cached t a = Some d"
    and others: "b \<noteq> a \<Longrightarrow> cached (snd (lookup q a s)) b = cached s b"
    and cleared: "cached (clear s) a = None"
begin

lemma repeat_lookup: "lookup q a s = (Inr d, t) \<Longrightarrow> lookup q' a t = (Inr d, t)"
  by (rule hit, rule fills)

lemma fresh_after_clear: "fst (lookup q a (clear s)) = q a"
  by (rule miss, rule cleared)

lemma stable_under_others:
  assumes "lookup q a s = (Inr d, t)" and "b \<noteq> a"
  shows "fst (lookup q' a (snd (lookup q'' b t))) = Inr d"
proof -
  have "cached (snd (lookup q'' b t)) a = Some d"
    using others [of a b q'' t] fills [OF assms(1)] assms(2) by simp
  then show ?thesis by (simp add: hit)
qed

end

interpretation dep: query_cache getCachedDeposit "\<lambda>s. obj_get (deposits s)" clearCache
  by unfold_locales (auto simp: getCachedDeposit_eq clearCache_def split: option.splits sum.splits)

text \<open>The deposit the checks use is one answer of the chain for each paymaster: once read
  it stays the same, whatever the chain answers later and whichever other paymasters are
  read in between, until the cache is cleared, and then the next check asks the chain again.\<close>

theorem cached_deposit_stable:
  assumes "getCachedDeposit bal a s = (Inr d, t)" and "b \<noteq> a"
  shows "fst (getCachedDeposit bal' a (snd (getCachedDeposit bal'' b t))) = Inr d
    \<and> fst (getCachedDeposit bal' a (clearCache t)) = bal' a"
  using dep.stable_under_others [OF assms] dep.fresh_after_clear by blast

definition deposit_example :: deposit_state where
  "deposit_example = events_state.extend (events_state.truncate events_example) \<lparr>deposits = []\<rparr>"

lemma cached_deposit_stable_witness:
  "fst (getCachedDeposit (\<lambda>_. Inr 1) ''0xP'' (snd (getCachedDeposit (\<lambda>_. Inr 2) ''0xQ''
     (snd (getCachedDeposit (\<lambda>_. Inr 9) ''0xP'' deposit_example))))) = Inr (9::int)"
proof -
  have "deposits deposit_example = []" by code_simp
  then have "getCachedDeposit (\<lambda>_. Inr 9) ''0xP'' deposit_example =
      (Inr 9, snd (getCachedDeposit (\<lambda>_. Inr 9) ''0xP'' deposit_example))"
    by (simp add: getCachedDeposit_eq)
  then show ?thesis by (rule cached_deposit_stable [THEN conjunct1]) simp
qed

section \<open>The check\<close>

lemma foldl_sub_count:
  "foldl (\<lambda>d e. if P e then d - c else d) (d::int) es = d - c * int (length (filter P es))"
  by (induction es arbitrary: d) (auto simp: algebra_simps)

text \<open>The deposit a check works with: the cached one, or what the chain answers.\<close>

definition known_deposit :: "(string \<Rightarrow> int res) \<Rightarrow> string \<Rightarrow> 'z deposit_state_scheme \<Rightarrow> int res" where
  "known_deposit bal pm s = (case obj_get (deposits s) pm of Some d \<Rightarrow> Inr d | None \<Rightarrow> bal pm)"

lemma checkPaymasterDeposit_exact:
  assumes "paymaster op = Some pm" and "pm \<noteq> ''0x''" and "pm \<noteq> AddressZero"
  shows "fst (checkPaymasterDeposit bal op s) = bindE (known_deposit bal pm s) (\<lambda>d.
     requireCond (getUserOpMaxCost op * (1 + int (length (filter (\<lambda>e. paymaster (userOp e) = Some pm) (mempool s)))) \<le> d)
       ''paymaster deposit too low for all mempool UserOps'' PaymasterDepositTooLow [])"
proof -
  have "0 \<le> d - c - c * k \<longleftrightarrow> c * (1 + k) \<le> d" for d c k :: int
    by (simp add: algebra_simps)
  then show ?thesis
    using assms
    by (auto simp: checkPaymasterDeposit_def monad_simps getCachedDeposit_eq known_deposit_def foldl_sub_count Let_def
        split: option.split sum.split)
qed

text \<open>If no pending operation of the paymaster may cost more than the new one, passing the
  check means that the deposit covers the new operation and all pending ones together
  (EREP-010); an operation without a paymaster always passes.\<close>

theorem deposit_covers_pool:
  assumes "fst (checkPaymasterDeposit bal op s) = Inr ()"
    and "\<forall>e\<in>set (mempool s). paymaster (userOp e) = paymaster op \<longrightarrow> getUserOpMaxCost (userOp e) \<le> getUserOpMaxCost op"
  shows "case paymaster op of None \<Rightarrow> True | Some pm \<Rightarrow> pm = ''0x'' \<or> pm = AddressZero \<or>
    (\<exists>d. known_deposit bal pm s = Inr d \<and>
       getUserOpMaxCost op + sum_list (map (\<lambda>e. getUserOpMaxCost (userOp e))
         (filter (\<lambda>e. paymaster (userOp e) = Some pm) (mempool s))) \<le> d)"
proof (cases "paymaster op")
  case (Some pm)
  show ?thesis
  proof (cases "pm = ''0x'' \<or> pm = AddressZero")
    case False
    then have np: "pm \<noteq> ''0x''" "pm \<noteq> AddressZero" by simp_all
    let ?es = "filter (\<lambda>e. paymaster (userOp e) = Some pm) (mempool s)"
    have "sum_list (map (\<lambda>e. getUserOpMaxCost (userOp e)) ?es) \<le> sum_list (map (\<lambda>e. getUserOpMaxCost op) ?es)"
      using assms(2) Some by (intro sum_list_mono) auto
    then have "sum_list (map (\<lambda>e. getUserOpMaxCost (userOp e)) ?es) \<le> getUserOpMaxCost op * int (length ?es)"
      by (simp add: sum_list_triv mult.commute)
    moreover obtain d where "known_deposit bal pm s = Inr d" "getUserOpMaxCost op * (1 + int (length ?es)) \<le> d"
      using assms(1) unfolding checkPaymasterDeposit_exact [OF Some np] by (auto simp: bindE_Inr_iff)
    ultimately show ?thesis using Some by (auto simp: distrib_left intro!: exI [of _ d])
  qed (use Some in auto)
qed simp

definition cost_op :: "string \<Rightarrow> int \<Rightarrow> operation" where
  "cost_op a c = base_op a 0\<lparr>paymaster := Some ''0xP'', callGasLimit := c, maxFeePerGas := 1\<rparr>"

lemma deposit_covers_pool_witness:
  "known_deposit (\<lambda>_. Inr 30) ''0xP'' (snd (addUserOp True (cost_op ''0xA'' 10) ''h0'' EmptyValidateUserOpResult deposit_example)) = Inr 30
   \<and> (10::int) + 10 \<le> 30"
proof -
  let ?s = "snd (addUserOp True (cost_op ''0xA'' 10) ''h0'' EmptyValidateUserOpResult deposit_example)"
  have k: "known_deposit (\<lambda>_. Inr 30) ''0xP'' ?s = Inr 30" by code_simp
  have "fst (checkPaymasterDeposit (\<lambda>_. Inr 30) (cost_op ''0xB'' 10) ?s) = Inr ()"
      "list_all (\<lambda>e. paymaster (userOp e) = paymaster (cost_op ''0xB'' 10) \<longrightarrow>
         getUserOpMaxCost (userOp e) \<le> getUserOpMaxCost (cost_op ''0xB'' 10)) (mempool ?s)"
      "getUserOpMaxCost (cost_op ''0xB'' 10) = 10" "paymaster (cost_op ''0xB'' 10) = Some ''0xP''"
      "''0xP'' \<noteq> AddressZero"
      "sum_list (map (\<lambda>e. getUserOpMaxCost (userOp e)) (filter (\<lambda>e. paymaster (userOp e) = Some ''0xP'') (mempool ?s))) = 10"
    by code_simp+
  then show ?thesis
    using deposit_covers_pool [of "\<lambda>_. Inr 30" "cost_op ''0xB'' 10" ?s] k by (simp add: list_all_iff)
qed

text \<open>The check charges the cost of the new operation for every pending one, so without
  that condition it proves nothing: with a deposit of 20 and a pending operation that may
  cost 1000, a new operation of cost 10 is accepted.\<close>

theorem deposit_check_uses_wrong_cost:
  "let s = snd (addUserOp True (cost_op ''0xA'' 1000) ''h0'' EmptyValidateUserOpResult deposit_example) in
     fst (checkPaymasterDeposit (\<lambda>_. Inr 20) (cost_op ''0xB'' 10) s) = Inr ()
     \<and> 20 < sum_list (map (\<lambda>e. getUserOpMaxCost (userOp e)) (mempool s))"
  by code_simp

end
