(* ===== verification/BundleManager.thy ===== *)
theory BundleManager
  imports DepositManager "HOL-Library.Sublist"
begin

text \<open>
  \<^verbatim>\<open>packages/bundler/src/modules/BundleManager.ts\<close>: building a bundle from the pool,
  sending it, and blaming an entity when the entry point refuses it. What the manager asks
  of the chain, the signer, the validation manager and the contract interface are the
  fields of \<open>chain_env\<close>; they answer from one snapshot of the chain for one call.
\<close>

section \<open>Environment and configuration\<close>

definition THROTTLED_ENTITY_BUNDLE_COUNT :: int where "THROTTLED_ENTITY_BUNDLE_COUNT = 4"
definition TX_TYPE_EIP_7702 :: int where "TX_TYPE_EIP_7702 = 4"
definition TX_TYPE_EIP_1559 :: int where "TX_TYPE_EIP_1559 = 2"

record populated_tx =
  tx_type :: int
  tx_to :: string
  tx_data :: string
  tx_nonce :: int
  tx_maxPriorityFeePerGas :: int
  tx_maxFeePerGas :: int
  tx_chainId :: int

record eip7702_tx_data =
  td_nonce :: string
  td_to :: string
  td_value :: string
  td_data :: string
  td_chainId :: string
  td_maxPriorityFeePerGas :: string
  td_maxFeePerGas :: string
  td_authorizationList :: "authorization list"
  td_gasLimit :: int

record chain_env =
  getDepositInfo :: "string \<Rightarrow> (int \<times> int) res"
    \<comment> \<open>stake and unstake delay the entry point knows for an address\<close>
  balanceOf :: "string \<Rightarrow> int res"
  storageHashOf :: "string \<Rightarrow> string res"
    \<comment> \<open>\<^verbatim>\<open>eth_getProof\<close>\<close>
  revalidate :: "operation \<Rightarrow> code_hashes \<Rightarrow> bool \<Rightarrow> validate_user_op_result res"
    \<comment> \<open>\<^verbatim>\<open>IValidationManager.validateUserOp\<close>\<close>
  parseErrorArgs :: "js_error \<Rightarrow> (int option \<times> string option) option"
    \<comment> \<open>\<^verbatim>\<open>interface.parseError\<close> of the data attached to an error, \<open>None\<close> when it throws\<close>
  innerErrorCode :: "js_error \<Rightarrow> int option"
    \<comment> \<open>\<^verbatim>\<open>e.error?.code\<close>\<close>
  feeData :: "(int option \<times> int option) res"
  signerNonce :: "int res"
  handleOpsCall :: "operation list \<Rightarrow> string \<Rightarrow> (string \<times> string) res"
    \<comment> \<open>target and call data of \<^verbatim>\<open>handleOps\<close> for packed operations\<close>
  networkChainId :: int
  hexlify :: "int \<Rightarrow> string"
  sign7702 :: "eip7702_tx_data \<Rightarrow> string res"
  signTransaction :: "populated_tx \<Rightarrow> string res"
  sendRawConditional :: "string \<Rightarrow> storage_map \<Rightarrow> string res"
  sendRaw :: "string \<Rightarrow> string res"
    \<comment> \<open>send a raw transaction and read the hash from its receipt\<close>
  sendTransaction :: "populated_tx \<Rightarrow> string res"
    \<comment> \<open>send, wait for the receipt, read its hash\<close>
  userOpHashOf :: "operation \<Rightarrow> string res"
  signerAddress :: "string res"
  balanceOfSigner :: "int res"

record bundle_config =
  beneficiary :: string
  minSignerBalance :: int
  maxBundleGas :: int
  conditionalRpc :: bool
  mergeToAccountRootHash :: bool

definition type_error :: js_error where
  "type_error = JsError ''Cannot read properties of undefined'' None"

section \<open>Parsing a failed operation\<close>

definition word_char :: "char \<Rightarrow> bool" where
  "word_char c \<longleftrightarrow> c \<in> set ''abcdefghijklmnopqrstuvwxyzABCDEFGHIJKLMNOPQRSTUVWXYZ0123456789_''"

definition digit_char :: "char \<Rightarrow> bool" where
  "digit_char c \<longleftrightarrow> c \<in> set ''0123456789''"

definition parse_digits :: "string \<Rightarrow> int" where
  "parse_digits s = foldl (\<lambda>n c. 10 * n + (of_char c - 48)) 0 s"

text \<open>\<^verbatim>\<open>/FailedOp\w*\((\d+),"(.*?)"/\<close>, first at a given position, then anywhere.\<close>

definition match_FailedOp_at :: "string \<Rightarrow> (int \<times> string) option" where
  "match_FailedOp_at s =
     (if \<not> startsWith s ''FailedOp'' then None
      else (case dropWhile word_char (drop 8 s) of
        [] \<Rightarrow> None
      | c # r \<Rightarrow>
          (let ds = takeWhile digit_char r; r1 = dropWhile digit_char r in
           if c = CHR ''('' \<and> ds \<noteq> [] \<and> startsWith r1 ('','' @ dq)
           then (let r2 = drop 2 r1; body = takeWhile (\<lambda>x. x \<noteq> CHR 0x22 \<and> x \<noteq> CHR 0x0A \<and> x \<noteq> CHR 0x0D) r2 in
             if startsWith (drop (length body) r2) dq then Some (parse_digits ds, body) else None)
           else None)))"

fun match_FailedOp :: "string \<Rightarrow> (int \<times> string) option" where
  "match_FailedOp [] = None"
| "match_FailedOp (c # s) = (case match_FailedOp_at (c # s) of Some m \<Rightarrow> Some m | None \<Rightarrow> match_FailedOp s)"

definition parseFailedOpRevert :: "chain_env \<Rightarrow> js_error \<Rightarrow> (int option \<times> string option) res" where
  "parseFailedOpRevert C e =
     (case match_FailedOp (err_message e) of
        Some (i, r) \<Rightarrow> Inr (Some i, Some r)
      | None \<Rightarrow>
          (case parseErrorArgs C e of
             None \<Rightarrow> Inr (None, None)
           | Some (opIndex, reason) \<Rightarrow>
               (case reason of None \<Rightarrow> Inl type_error | Some r \<Rightarrow> Inr (opIndex, Some r))))"

text \<open>\<^verbatim>\<open>/FailedOpWithRevert\(\d+,"AA[21]/\<close>, anywhere in the message: an error of the account (\<^verbatim>\<open>AA2x\<close>) or
  of its factory (\<^verbatim>\<open>AA1x\<close>).\<close>

definition match_account_error_at :: "string \<Rightarrow> bool" where
  "match_account_error_at s =
     (let r = drop 19 s; r1 = dropWhile digit_char r in
      startsWith s ''FailedOpWithRevert('' \<and> takeWhile digit_char r \<noteq> [] \<and>
      (startsWith r1 ('','' @ dq @ ''AA2'') \<or> startsWith r1 ('','' @ dq @ ''AA1'')))"

definition isAccountOrFactoryError :: "js_error \<Rightarrow> bool" where
  "isAccountOrFactoryError e =
     (case e of
        RpcError m c d \<Rightarrow> c = error_code SimulateValidation \<and> list_ex (\<lambda>i. match_account_error_at (drop i m)) [0..<length m]
      | JsError m c \<Rightarrow> False)"

section \<open>Blame\<close>

definition checkFatal :: "chain_env \<Rightarrow> js_error \<Rightarrow> unit res" where
  "checkFatal C e = (if innerErrorCode C e = Some (- 32601) then Inl e else Inr ())"

definition isAccountStaked :: "chain_env \<Rightarrow> operation \<Rightarrow> 'z rep_state_scheme \<Rightarrow> bool res" where
  "isAccountStaked C op s = bindE (getStakeStatus (getDepositInfo C) (sender op) s) (\<lambda>(i, b). Inr b)"

definition isFactoryStaked :: "chain_env \<Rightarrow> operation \<Rightarrow> 'z rep_state_scheme \<Rightarrow> bool res" where
  "isFactoryStaked C op s =
     (case factory op of
        None \<Rightarrow> Inr False
      | Some f \<Rightarrow> bindE (getStakeStatus (getDepositInfo C) f s) (\<lambda>(i, b). Inr b))"

definition findEntityToBlame :: "chain_env \<Rightarrow> string \<Rightarrow> operation \<Rightarrow> 'z rep_state_scheme \<Rightarrow> string option res" where
  "findEntityToBlame C reasonStr op s =
     (if startsWith reasonStr ''AA3'' then
        bindE (isAccountStaked C op s) (\<lambda>staked. Inr (if staked then Some (sender op) else paymaster op))
      else if startsWith reasonStr ''AA2'' then
        bindE (isFactoryStaked C op s) (\<lambda>staked. Inr (if staked then factory op else Some (sender op)))
      else if startsWith reasonStr ''AA1'' then Inr (factory op)
      else Inr None)"

definition undo_seen :: "operation \<Rightarrow> 'z rep_state_scheme \<Rightarrow> 'z rep_state_scheme" where
  "undo_seen op s = updateSeenStatus (factory op) (- 1) (updateSeenStatus (paymaster op) (- 1)
     (updateSeenStatus (Some (sender op)) (- 1) s))"

text \<open>
  \<^verbatim>\<open>_handleSecondValidationException\<close>. The guard \<^verbatim>\<open>addr !== null\<close> is true of
  \<^verbatim>\<open>undefined\<close> as well, the only empty value \<open>findEntityToBlame\<close> produces, so the
  model has no guard there.
\<close>

definition handleSecondValidationException ::
  "chain_env \<Rightarrow> js_error \<Rightarrow> mempool_entry \<Rightarrow> ('z pool_state_scheme, unit) act" where
  "handleSecondValidationException C e entry =
     bindM (liftE (parseFailedOpRevert C e)) (\<lambda>(opIndex, reasonStr).
       case (opIndex, reasonStr) of
         (Some i, Some r) \<Rightarrow>
           bindM (\<lambda>s. (findEntityToBlame C r (userOp entry) s, s)) (\<lambda>a.
           thenM (modifyM (undo_seen (userOp entry)))
           (thenM (modifyM (updateSeenStatus a 1))
           (removeUserOp (ByOp (userOp entry)))))
       | _ \<Rightarrow>
           thenM (liftE (checkFatal C e))
           (removeUserOp (ByOp (userOp entry))))"

section \<open>Merging EIP-7702 authorizations\<close>

fun find_signer :: "ethers_lib \<Rightarrow> authorization \<Rightarrow> authorization list \<Rightarrow> authorization option res" where
  "find_signer L a [] = Inr None"
| "find_signer L a (it # its) =
     bindE (getEip7702AuthorizationSigner L it) (\<lambda>x.
     bindE (getEip7702AuthorizationSigner L a) (\<lambda>y.
       if x = y then Inr (Some it) else find_signer L a its))"

fun merge_auths :: "ethers_lib \<Rightarrow> authorization list \<Rightarrow> authorization list \<Rightarrow> (bool \<times> authorization list) res" where
  "merge_auths L [] authList = Inr (True, authList)"
| "merge_auths L (a # as) authList =
     bindE (find_signer L a authList) (\<lambda>existing.
       case existing of
         None \<Rightarrow> merge_auths L as (authList @ [a])
       | Some x \<Rightarrow> if toLowerCase (auth_address x) \<noteq> toLowerCase (auth_address a) then Inr (False, authList)
                  else merge_auths L as authList)"

definition mergeEip7702Authorizations ::
  "ethers_lib \<Rightarrow> mempool_entry \<Rightarrow> authorization list \<Rightarrow> (bool \<times> authorization list) res" where
  "mergeEip7702Authorizations L entry authList = merge_auths L (getAuthorizationList (userOp entry)) authList"

section \<open>Building a bundle\<close>

record bundle_acc =
  bundle_ops :: "operation list"
  sharedAuthorizationList :: "authorization list"
  paymasterDeposit :: "int obj"
  stakedEntityCount :: "int obj"
  senders :: "string set"
  storageMap :: storage_map
  totalGas :: int
  bundleGas :: int

definition init_acc :: bundle_acc where
  "init_acc = \<lparr>bundle_ops = [], sharedAuthorizationList = [], paymasterDeposit = [], stakedEntityCount = [],
     senders = {}, storageMap = [], totalGas = 0, bundleGas = 0\<rparr>"

datatype loop_ctl = Continue | Break

record bundle_limits =
  lim_minBaseFee :: "int option"
  lim_maxBundleGas :: "int option"
  lim_maxBundleSize :: "int option"

definition bump :: "string \<Rightarrow> bundle_acc \<Rightarrow> bundle_acc" where
  "bump a acc = acc\<lparr>stakedEntityCount := AList.update a (or_else (obj_get (stakedEntityCount acc) a) 0 + 1) (stakedEntityCount acc)\<rparr>"

text \<open>Lines 417 to 430: reserve the prefund in the paymaster's deposit; the flag is False for \<^verbatim>\<open>continue\<close>.\<close>

definition reserve_deposit ::
  "chain_env \<Rightarrow> ethers_lib \<Rightarrow> operation \<Rightarrow> validate_user_op_result \<Rightarrow> bundle_acc \<Rightarrow> (bool \<times> bundle_acc) res" where
  "reserve_deposit C L op vr acc =
     (case paymaster op of
        None \<Rightarrow> Inr (True, acc)
      | Some pm \<Rightarrow>
          if \<not> (lib_isAddress L pm \<and> toLowerCase pm \<noteq> AddressZero) then Inr (True, acc)
          else
            bindE (case obj_get (paymasterDeposit acc) pm of Some d \<Rightarrow> Inr d | None \<Rightarrow> balanceOf C pm) (\<lambda>d.
            (let acc1 = acc\<lparr>paymasterDeposit := AList.update pm d (paymasterDeposit acc)\<rparr> in
             case prefund vr of
               None \<Rightarrow> Inl (JsError ''invalid BigNumber value'' None)
             | Some pf \<Rightarrow>
                 if d < pf then Inr (False, acc1)
                 else (let acc2 = bump pm acc1 in
                   Inr (True, acc2\<lparr>paymasterDeposit := AList.update pm (d - pf) (paymasterDeposit acc2)\<rparr>)))))"

text \<open>Lines 435 to 440: the sender's root hash, if configured, and the storage of the validation.\<close>

definition merge_storage ::
  "chain_env \<Rightarrow> bundle_config \<Rightarrow> operation \<Rightarrow> validate_user_op_result \<Rightarrow> bundle_acc \<Rightarrow> bundle_acc res" where
  "merge_storage C cfg op vr acc =
     bindE (if mergeToAccountRootHash cfg \<and> conditionalRpc cfg \<and> factory op = None
            then bindE (storageHashOf C (sender op)) (\<lambda>h.
              Inr (AList.update (toLowerCase (sender op)) (Root h) (storageMap acc)))
            else Inr (storageMap acc)) (\<lambda>sm.
     Inr (acc\<lparr>storageMap := mergeStorageMap sm (vr_storageMap vr)\<rparr>))"

text \<open>Lines 399 to 451: an operation whose second validation succeeded.\<close>

definition bundle_add ::
  "chain_env \<Rightarrow> bundle_config \<Rightarrow> ethers_lib \<Rightarrow> bundle_limits \<Rightarrow> mempool_entry \<Rightarrow> validate_user_op_result \<Rightarrow>
     bundle_acc \<Rightarrow> (loop_ctl \<times> bundle_acc) res" where
  "bundle_add C cfg L lim entry vr acc =
     (let op = userOp entry in
      case preOpGas vr of
        None \<Rightarrow> Inl (JsError ''invalid BigNumber value'' None)
      | Some pre \<Rightarrow>
          (let newTotalGas = totalGas acc + (pre + callGasLimit op) in
           if newTotalGas > maxBundleGas cfg then Inr (Break, acc)
           else if (case lim_maxBundleGas lim of None \<Rightarrow> False | Some g \<Rightarrow> g \<noteq> 0 \<and> newTotalGas \<ge> g)
             then Inr (Break, acc)
           else
             bindE (reserve_deposit C L op vr acc) (\<lambda>(enough, acc1).
               if \<not> enough then Inr (Continue, acc1)
               else (let acc2 = (case factory op of None \<Rightarrow> acc1
                                 | Some f \<Rightarrow> if lib_isAddress L f then bump f acc1 else acc1) in
                 bindE (merge_storage C cfg op vr acc2) (\<lambda>acc3.
                 bindE (mergeEip7702Authorizations L entry (sharedAuthorizationList acc3)) (\<lambda>(mergeOk, auths).
                 (let acc4 = acc3\<lparr>sharedAuthorizationList := auths\<rparr> in
                  if \<not> mergeOk then Inr (Continue, acc4)
                  else Inr (Continue, acc4\<lparr>bundleGas := bundleGas acc4 + userOpMaxGas entry,
                         senders := insert (sender op) (senders acc4),
                         bundle_ops := bundle_ops acc4 @ [op],
                         totalGas := newTotalGas\<rparr>))))))))"

text \<open>
  The condition of lines 360 and 366: \<^verbatim>\<open>a === THROTTLED ?? b\<close> is a \<^verbatim>\<open>??\<close> whose left
  operand is a boolean, never null, so the count on the right is never looked at.
\<close>

definition throttled_in_bundle :: "string option \<Rightarrow> reputation_status \<Rightarrow> bundle_acc \<Rightarrow> bool" where
  "throttled_in_bundle a st acc \<longleftrightarrow>
     (case a of None \<Rightarrow> False
      | Some a' \<Rightarrow> or_else (Some (st = THROTTLED))
          (or_else (obj_get (stakedEntityCount acc) a') 0 > THROTTLED_ENTITY_BUNDLE_COUNT))"

definition bundle_step ::
  "chain_env \<Rightarrow> bundle_config \<Rightarrow> bundle_limits \<Rightarrow> string list \<Rightarrow> nat \<Rightarrow> mempool_entry \<Rightarrow>
     'z pool_state_scheme \<times> bundle_acc \<Rightarrow> loop_ctl res \<times> ('z pool_state_scheme \<times> bundle_acc)" where
  "bundle_step C cfg lim knownSenders nEntries entry = (\<lambda>(s, acc).
     let op = userOp entry in
     case toNumber (or_else (lim_maxBundleSize lim) 0) of
       Inl e \<Rightarrow> (Inl e, (s, acc))
     | Inr maxSize \<Rightarrow>
       if maxSize \<noteq> 0 \<and> int nEntries \<ge> maxSize then (Inr Break, (s, acc))
       else if (case lim_minBaseFee lim of None \<Rightarrow> False | Some f \<Rightarrow> f \<noteq> 0 \<and> maxFeePerGas op < f)
         then (Inr Continue, (s, acc))
       else
        (let paymasterStatus = getStatus (paymaster op) s; deployerStatus = getStatus (factory op) s in
         if paymasterStatus = BANNED \<or> deployerStatus = BANNED then
           (case removeUserOp (ByOp op) s of
              (Inl e, s') \<Rightarrow> (Inl e, (s', acc)) | (Inr u, s') \<Rightarrow> (Inr Continue, (s', acc)))
         else if throttled_in_bundle (paymaster op) paymasterStatus acc then (Inr Continue, (s, acc))
         else if throttled_in_bundle (factory op) deployerStatus acc then (Inr Continue, (s, acc))
         else if sender op \<in> senders acc then (Inr Continue, (s, acc))
         else
          (case (if \<not> skipValidation entry then revalidate C op (me_referencedContracts entry) False
                 else Inr EmptyValidateUserOpResult) of
             Inl e \<Rightarrow>
               (case handleSecondValidationException C e entry s of
                  (Inl e', s') \<Rightarrow> (Inl e', (s', acc)) | (Inr u, s') \<Rightarrow> (Inr Continue, (s', acc)))
           | Inr vr \<Rightarrow>
               if list_ex (\<lambda>a. toLowerCase a \<noteq> toLowerCase (sender op) \<and> toLowerCase a \<in> set knownSenders)
                    (obj_keys (vr_storageMap vr))
               then (Inr Continue, (s, acc))
               else (case bundle_add C cfg (lib s) lim entry vr acc of
                       Inl e \<Rightarrow> (Inl e, (s, acc)) | Inr (ctl, acc') \<Rightarrow> (Inr ctl, (s, acc'))))))"

fun bundle_loop ::
  "chain_env \<Rightarrow> bundle_config \<Rightarrow> bundle_limits \<Rightarrow> string list \<Rightarrow> nat \<Rightarrow> mempool_entry list \<Rightarrow>
     'z pool_state_scheme \<times> bundle_acc \<Rightarrow> unit res \<times> ('z pool_state_scheme \<times> bundle_acc)" where
  "bundle_loop C cfg lim knownSenders n [] st = (Inr (), st)"
| "bundle_loop C cfg lim knownSenders n (e # es) st =
     (case bundle_step C cfg lim knownSenders n e st of
        (Inl err, st') \<Rightarrow> (Inl err, st')
      | (Inr Break, st') \<Rightarrow> (Inr (), st')
      | (Inr Continue, st') \<Rightarrow> bundle_loop C cfg lim knownSenders n es st')"

definition createBundle ::
  "chain_env \<Rightarrow> bundle_config \<Rightarrow> bundle_limits \<Rightarrow>
     ('z pool_state_scheme, operation list \<times> authorization list \<times> storage_map) act" where
  "createBundle C cfg lim s =
     (case getSortedForInclusion s of
        Inl e \<Rightarrow> (Inl e, s)
      | Inr es \<Rightarrow>
          (case bundle_loop C cfg lim (getKnownSenders s) (length es) es (s, init_acc) of
             (Inl e, (s', acc)) \<Rightarrow> (Inl e, s')
           | (Inr u, (s', acc)) \<Rightarrow> (Inr (bundle_ops acc, sharedAuthorizationList acc, storageMap acc), s')))"

section \<open>Sending a bundle\<close>

definition prepareEip7702Transaction :: "chain_env \<Rightarrow> populated_tx \<Rightarrow> authorization list \<Rightarrow> string res" where
  "prepareEip7702Transaction C tx eip7702Tuples =
     (let auths = map (\<lambda>it. \<lparr>auth_chainId = toRlpHex (auth_chainId it), auth_address = toRlpHex (auth_address it),
              auth_nonce = toRlpHex (auth_nonce it), auth_yParity = toRlpHex (auth_yParity it),
              auth_r = toRlpHex (auth_r it), auth_s = toRlpHex (auth_s it)\<rparr>) eip7702Tuples
      in sign7702 C \<lparr>td_nonce = hexlify C (tx_nonce tx), td_to = tx_to tx, td_value = ''0x0'', td_data = tx_data tx,
           td_chainId = hexlify C (tx_chainId tx),
           td_maxPriorityFeePerGas = hexlify C (tx_maxPriorityFeePerGas tx),
           td_maxFeePerGas = hexlify C (tx_maxPriorityFeePerGas tx),
           td_authorizationList = auths, td_gasLimit = 10000000\<rparr>)"

record send_bundle_return =
  sb_transactionHash :: string
  sb_userOpHashes :: "string list"

definition getUserOpHashes :: "chain_env \<Rightarrow> operation list \<Rightarrow> string list res" where
  "getUserOpHashes C ops = mapE (userOpHashOf C) ops"

text \<open>The \<^verbatim>\<open>try\<close> block of \<^verbatim>\<open>sendBundle\<close>.\<close>

definition submit_bundle ::
  "chain_env \<Rightarrow> bundle_config \<Rightarrow> operation list \<Rightarrow> authorization list \<Rightarrow> string \<Rightarrow> storage_map \<Rightarrow> send_bundle_return res" where
  "submit_bundle C cfg userOps eip7702Tuples benef sm =
     bindE (feeData C) (\<lambda>(prio, maxFee).
     (let ty = (if eip7702Tuples \<noteq> [] then TX_TYPE_EIP_7702 else TX_TYPE_EIP_1559) in
      bindE (signerNonce C) (\<lambda>n.
      bindE (handleOpsCall C userOps benef) (\<lambda>(to, data).
      (let tx = \<lparr>tx_type = ty, tx_to = to, tx_data = data, tx_nonce = n,
                 tx_maxPriorityFeePerGas = or_else prio 0, tx_maxFeePerGas = or_else maxFee 0,
                 tx_chainId = networkChainId C\<rparr> in
       bindE (if conditionalRpc cfg then
                bindE (signTransaction C tx) (\<lambda>signedTx. sendRawConditional C signedTx sm)
              else if tx_type tx = TX_TYPE_EIP_7702 then
                bindE (prepareEip7702Transaction C tx eip7702Tuples) (sendRaw C)
              else sendTransaction C tx) (\<lambda>ret.
       bindE (getUserOpHashes C userOps) (\<lambda>hashes.
       Inr \<lparr>sb_transactionHash = ret, sb_userOpHashes = hashes\<rparr>)))))))"

text \<open>The \<^verbatim>\<open>catch\<close> block of \<^verbatim>\<open>sendBundle\<close> once the failed operation is known.\<close>

definition blame_failed_op :: "chain_env \<Rightarrow> string \<Rightarrow> operation \<Rightarrow> ('z pool_state_scheme, unit) act" where
  "blame_failed_op C reasonStr op =
     bindM (\<lambda>s. (findEntityToBlame C reasonStr op s, s)) (\<lambda>addr0.
     thenM (case addr0 of
         None \<Rightarrow> retM ()
       | Some a \<Rightarrow>
           thenM (modifyM (undo_seen op))
           (thenM (removeBannedAddr a)
           (modifyM (crashedHandleOps (Some a)))))
     (removeUserOp (ByOp op)))"

definition sendBundle ::
  "chain_env \<Rightarrow> bundle_config \<Rightarrow> operation list \<Rightarrow> authorization list \<Rightarrow> string \<Rightarrow> storage_map \<Rightarrow>
     ('z pool_state_scheme, send_bundle_return option) act" where
  "sendBundle C cfg userOps eip7702Tuples benef sm =
     (case submit_bundle C cfg userOps eip7702Tuples benef sm of
        Inr r \<Rightarrow> retM (Some r)
      | Inl e \<Rightarrow>
          bindM (liftE (parseFailedOpRevert C e)) (\<lambda>(opIndex, reasonStr).
            case (opIndex, reasonStr) of
              (Some i, Some r) \<Rightarrow>
                if i < 0 \<or> i \<ge> int (length userOps) then throwM type_error
                else thenM (blame_failed_op C r (userOps ! nat i)) (retM None)
            | _ \<Rightarrow> thenM (liftE (checkFatal C e)) (retM None)))"

definition selectBeneficiary :: "chain_env \<Rightarrow> bundle_config \<Rightarrow> string res" where
  "selectBeneficiary C cfg =
     bindE (balanceOfSigner C) (\<lambda>currentBalance.
       if currentBalance \<le> minSignerBalance cfg then signerAddress C else Inr (beneficiary cfg))"

definition sendNextBundle ::
  "chain_env \<Rightarrow> bundle_config \<Rightarrow> int res \<Rightarrow> (int \<Rightarrow> chain_event list res) \<Rightarrow>
     ('z events_state_scheme, send_bundle_return option) act" where
  "sendNextBundle C cfg getBlockNumber queryFilter =
     thenM (handlePastEvents getBlockNumber queryFilter)
     (bindM (createBundle C cfg \<lparr>lim_minBaseFee = Some 0, lim_maxBundleGas = Some 0, lim_maxBundleSize = Some 0\<rparr>)
        (\<lambda>(b, eip7702Tuples, sm).
          if b = [] then retM None
          else bindM (liftE (selectBeneficiary C cfg)) (\<lambda>benef. sendBundle C cfg b eip7702Tuples benef sm)))"

section \<open>What one step does to the bundle\<close>

definition lists_of :: "'z pool_state_scheme \<Rightarrow> string set \<times> string set \<times> ethers_lib" where
  "lists_of s = (blackList s, whitelist s, lib s)"

lemma updateSeenStatus_pool [simp]:
  "lib (updateSeenStatus a v s) = lib s" "mempool (updateSeenStatus a v s) = mempool s"
  "entryCounts (updateSeenStatus a v s) = entryCounts s"
  using pool_frame_updateSeenStatus [of s a v] by (simp_all add: pool_frame_def)

lemma lists_of_updates [simp]:
  "lists_of (updateSeenStatus a v s) = lists_of s" "lists_of (undo_seen op s) = lists_of s"
  "lists_of (snd (removeUserOp w s)) = lists_of s"
  by (simp_all add: lists_of_def undo_seen_def removeUserOp_frame)

lemma handleSecond_lists: "keeps (\<lambda>s. lists_of s = x) (handleSecondValidationException C e entry)"
proof -
  have "keeps (\<lambda>s. lists_of s = x) (removeUserOp w)" for w by (simp add: keeps_def)
  then show ?thesis
    unfolding handleSecondValidationException_def
    by (auto split: option.split intro!: keeps_intros keeps_query)
qed

text \<open>The result of the second validation of an entry.\<close>

definition vr_of :: "chain_env \<Rightarrow> mempool_entry \<Rightarrow> validate_user_op_result res" where
  "vr_of C e = (if \<not> skipValidation e then revalidate C (userOp e) (me_referencedContracts e) False
     else Inr EmptyValidateUserOpResult)"

definition storage_isolated :: "string list \<Rightarrow> mempool_entry \<Rightarrow> validate_user_op_result \<Rightarrow> bool" where
  "storage_isolated known e vr \<longleftrightarrow> (\<forall>a\<in>set (obj_keys (vr_storageMap vr)).
     toLowerCase a \<in> set known \<longrightarrow> toLowerCase a = toLowerCase (sender (userOp e)))"

lemma bundle_step_cases:
  assumes "bundle_step C cfg lim known n e (s, acc) = (r, (s', acc'))"
  shows "lists_of s' = lists_of s \<and> (acc' = acc \<or>
    (\<exists>vr ctl. vr_of C e = Inr vr \<and> sender (userOp e) \<notin> senders acc \<and> storage_isolated known e vr
      \<and> getStatus (paymaster (userOp e)) s \<noteq> BANNED \<and> getStatus (factory (userOp e)) s \<noteq> BANNED
      \<and> (paymaster (userOp e) \<noteq> None \<longrightarrow> getStatus (paymaster (userOp e)) s = OK)
      \<and> (factory (userOp e) \<noteq> None \<longrightarrow> getStatus (factory (userOp e)) s = OK)
      \<and> bundle_add C cfg (lib s) lim e vr acc = Inr (ctl, acc')))"
proof -
  have rm: "lists_of t = lists_of s" if "removeUserOp w s = (x, t)" for w x t
    using lists_of_updates(3) [of w s] that by simp
  have hd: "lists_of t = lists_of s" if "handleSecondValidationException C err e s = (x, t)" for err x t
    using keepsD [OF handleSecond_lists [of "lists_of s" C err e], of s] that by simp
  have st: "st \<noteq> BANNED \<Longrightarrow> \<not> throttled_in_bundle a st acc \<Longrightarrow> a \<noteq> None \<longrightarrow> st = OK" for a st
    by (cases st; cases a) (auto simp: throttled_in_bundle_def)
  show ?thesis
    using assms
    unfolding bundle_step_def vr_of_def [symmetric] Let_def prod.case
    by (auto simp: storage_isolated_def list_ex_iff rm hd dest: st
        split: sum.splits if_splits prod.splits option.splits)
qed

lemma reserve_deposit_frame:
  "reserve_deposit C L op vr acc = Inr (b, acc') \<Longrightarrow>
     bundle_ops acc' = bundle_ops acc \<and> sharedAuthorizationList acc' = sharedAuthorizationList acc
     \<and> senders acc' = senders acc \<and> storageMap acc' = storageMap acc \<and> totalGas acc' = totalGas acc
     \<and> bundleGas acc' = bundleGas acc"
  by (auto simp: reserve_deposit_def bindE_Inr_iff bump_def Let_def split: option.splits if_splits)

lemma bump_frame [simp]:
  "bundle_ops (bump a acc) = bundle_ops acc" "sharedAuthorizationList (bump a acc) = sharedAuthorizationList acc"
  "senders (bump a acc) = senders acc" "storageMap (bump a acc) = storageMap acc"
  "totalGas (bump a acc) = totalGas acc" "paymasterDeposit (bump a acc) = paymasterDeposit acc"
  by (simp_all add: bump_def)

lemma merge_storage_frame:
  "merge_storage C cfg op vr acc = Inr acc' \<Longrightarrow>
     bundle_ops acc' = bundle_ops acc \<and> sharedAuthorizationList acc' = sharedAuthorizationList acc
     \<and> senders acc' = senders acc \<and> totalGas acc' = totalGas acc \<and> paymasterDeposit acc' = paymasterDeposit acc"
  by (auto simp: merge_storage_def bindE_Inr_iff split: if_splits)

text \<open>
  The three ways an operation that validated ends: not looked at further, dropped after
  its deposit and storage were already accounted for, or added.
\<close>

lemma bundle_add_cases:
  assumes "bundle_add C cfg L lim e vr acc = Inr (ctl, acc')"
  obtains (stop) "ctl = Break" and "acc' = acc"
  | (poor) "reserve_deposit C L (userOp e) vr acc = Inr (False, acc')"
  | (merged) pre ok acc1 acc2 auths where "preOpGas vr = Some pre"
      and "totalGas acc + (pre + callGasLimit (userOp e)) \<le> maxBundleGas cfg"
      and "\<forall>g. lim_maxBundleGas lim = Some g \<longrightarrow> g \<noteq> 0 \<longrightarrow> totalGas acc + (pre + callGasLimit (userOp e)) < g"
      and "reserve_deposit C L (userOp e) vr acc = Inr (True, acc1)"
      and "paymasterDeposit acc2 = paymasterDeposit acc1"
      and "merge_storage C cfg (userOp e) vr (case factory (userOp e) of None \<Rightarrow> acc1
             | Some f \<Rightarrow> if lib_isAddress L f then bump f acc1 else acc1) = Inr acc2"
      and "mergeEip7702Authorizations L e (sharedAuthorizationList acc) = Inr (ok, auths)"
      and "sharedAuthorizationList acc' = auths" and "paymasterDeposit acc' = paymasterDeposit acc1"
      and "storageMap acc' = storageMap acc2"
      and "bundle_ops acc' = (if ok then bundle_ops acc @ [userOp e] else bundle_ops acc)"
      and "senders acc' = (if ok then insert (sender (userOp e)) (senders acc) else senders acc)"
      and "totalGas acc' = (if ok then totalGas acc + (pre + callGasLimit (userOp e)) else totalGas acc)"
proof -
  obtain pre where pre: "preOpGas vr = Some pre"
    using assms by (auto simp: bundle_add_def Let_def split: option.splits)
  let ?g = "totalGas acc + (pre + callGasLimit (userOp e))"
  show thesis
  proof (cases "?g > maxBundleGas cfg \<or> (case lim_maxBundleGas lim of None \<Rightarrow> False | Some g \<Rightarrow> g \<noteq> 0 \<and> ?g \<ge> g)")
    case True
    then show thesis using assms pre by (intro stop) (auto simp: bundle_add_def Let_def split: if_splits)
  next
    case False
    then obtain enough acc1 where r: "reserve_deposit C L (userOp e) vr acc = Inr (enough, acc1)"
      using assms pre by (auto simp: bundle_add_def Let_def bindE_Inr_iff split: if_splits)
    show thesis
    proof (cases enough)
      case False
      then show thesis
        using assms pre r \<open>\<not> (?g > maxBundleGas cfg \<or> _)\<close> poor
        by (auto simp: bundle_add_def Let_def bindE_Inr_iff split: if_splits)
    next
      case en: True
      let ?a = "case factory (userOp e) of None \<Rightarrow> acc1 | Some f \<Rightarrow> if lib_isAddress L f then bump f acc1 else acc1"
      have fa: "bundle_ops ?a = bundle_ops acc" "senders ?a = senders acc" "totalGas ?a = totalGas acc"
          "sharedAuthorizationList ?a = sharedAuthorizationList acc" "paymasterDeposit ?a = paymasterDeposit acc1"
        using reserve_deposit_frame [OF r] by (simp_all split: option.split)
      obtain acc2 where m: "merge_storage C cfg (userOp e) vr ?a = Inr acc2"
        using assms pre r en False by (auto simp: bundle_add_def Let_def bindE_Inr_iff split: if_splits)
      note fm = merge_storage_frame [OF m]
      obtain ok auths where au: "mergeEip7702Authorizations L e (sharedAuthorizationList acc) = Inr (ok, auths)"
        using assms pre r en False m fm fa by (auto simp: bundle_add_def Let_def bindE_Inr_iff split: if_splits)
      have g: "?g \<le> maxBundleGas cfg"
          "\<forall>g. lim_maxBundleGas lim = Some g \<longrightarrow> g \<noteq> 0 \<longrightarrow> ?g < g"
        using False by auto
      have acc': "acc' = (if ok then acc2\<lparr>sharedAuthorizationList := auths, bundleGas := bundleGas acc2 + userOpMaxGas e,
            senders := insert (sender (userOp e)) (senders acc2), bundle_ops := bundle_ops acc2 @ [userOp e], totalGas := ?g\<rparr>
          else acc2\<lparr>sharedAuthorizationList := auths\<rparr>)"
        using assms pre r en False m fm fa au by (auto simp: bundle_add_def Let_def split: if_splits)
      show thesis
        using fm fa en r by (intro merged [OF pre g _ _ m au]) (simp_all add: acc')
    qed
  qed
qed

section \<open>Invariants of the bundle under construction\<close>

text \<open>
  The ghost list \<open>ch\<close> holds the entries added so far with the result of their second
  validation; each part of the accumulator is related to it.
\<close>

type_synonym chosen = "(mempool_entry \<times> validate_user_op_result) list"

definition charged :: "ethers_lib \<Rightarrow> string \<Rightarrow> operation \<Rightarrow> bool" where
  "charged L pm op \<longleftrightarrow> paymaster op = Some pm \<and> lib_isAddress L pm \<and> toLowerCase pm \<noteq> AddressZero"

definition reserved :: "ethers_lib \<Rightarrow> string \<Rightarrow> chosen \<Rightarrow> int" where
  "reserved L pm ch = sum_list (map (\<lambda>(e, vr). if charged L pm (userOp e) then or_else (prefund vr) 0 else 0) ch)"

definition gas_of :: "mempool_entry \<times> validate_user_op_result \<Rightarrow> int" where
  "gas_of = (\<lambda>(e, vr). or_else (preOpGas vr) 0 + callGasLimit (userOp e))"

definition ops_ok :: "chosen \<Rightarrow> bundle_acc \<Rightarrow> bool" where
  "ops_ok ch acc \<longleftrightarrow> bundle_ops acc = map (userOp \<circ> fst) ch
     \<and> senders acc = set (map sender (bundle_ops acc)) \<and> distinct (map sender (bundle_ops acc))"

definition gas_ok :: "bundle_config \<Rightarrow> bundle_limits \<Rightarrow> chosen \<Rightarrow> bundle_acc \<Rightarrow> bool" where
  "gas_ok cfg lim ch acc \<longleftrightarrow> totalGas acc = sum_list (map gas_of ch)
     \<and> (ch \<noteq> [] \<longrightarrow> totalGas acc \<le> maxBundleGas cfg
          \<and> (\<forall>g. lim_maxBundleGas lim = Some g \<longrightarrow> g \<noteq> 0 \<longrightarrow> totalGas acc < g))"

definition dep_ok :: "chain_env \<Rightarrow> ethers_lib \<Rightarrow> chosen \<Rightarrow> bundle_acc \<Rightarrow> bool" where
  "dep_ok C L ch acc \<longleftrightarrow> (\<forall>pm. case obj_get (paymasterDeposit acc) pm of
       None \<Rightarrow> \<not> list_ex (\<lambda>(e, vr). charged L pm (userOp e)) ch
     | Some d \<Rightarrow> \<exists>b. balanceOf C pm = Inr b \<and> reserved L pm ch + d \<le> b
         \<and> (list_ex (\<lambda>(e, vr). charged L pm (userOp e)) ch \<longrightarrow> 0 \<le> d))"

definition auth_covered :: "ethers_lib \<Rightarrow> authorization list \<Rightarrow> authorization \<Rightarrow> bool" where
  "auth_covered L auths a \<longleftrightarrow> (\<exists>x\<in>set auths. getEip7702AuthorizationSigner L x = getEip7702AuthorizationSigner L a
     \<and> toLowerCase (auth_address x) = toLowerCase (auth_address a))"

definition auth_ok :: "ethers_lib \<Rightarrow> chosen \<Rightarrow> bundle_acc \<Rightarrow> bool" where
  "auth_ok L ch acc \<longleftrightarrow> distinct (map (getEip7702AuthorizationSigner L) (sharedAuthorizationList acc))
     \<and> (\<forall>(e, vr)\<in>set ch. \<forall>a\<in>set (getAuthorizationList (userOp e)). auth_covered L (sharedAuthorizationList acc) a)"

definition storage_ok :: "chosen \<Rightarrow> bundle_acc \<Rightarrow> bool" where
  "storage_ok ch acc \<longleftrightarrow> (\<forall>(e, vr)\<in>set ch. set (obj_keys (vr_storageMap vr)) \<subseteq> set (obj_keys (storageMap acc)))"

definition entry_checked ::
  "chain_env \<Rightarrow> string list \<Rightarrow> string set \<Rightarrow> string set \<Rightarrow> mempool_entry \<times> validate_user_op_result \<Rightarrow> bool" where
  "entry_checked C known B W = (\<lambda>(e, vr). vr_of C e = Inr vr \<and> storage_isolated known e vr
     \<and> (\<forall>a. Some a \<in> {paymaster (userOp e), factory (userOp e)} \<longrightarrow> toLowerCase a \<in> B \<longrightarrow> toLowerCase a \<in> W))"

lemma ops_step:
  assumes "ops_ok ch acc" and "sender (userOp e) \<notin> senders acc"
    and "bundle_ops acc' = (if ok then bundle_ops acc @ [userOp e] else bundle_ops acc)"
    and "senders acc' = (if ok then insert (sender (userOp e)) (senders acc) else senders acc)"
  shows "ops_ok (if ok then ch @ [(e, vr)] else ch) acc'"
  using assms by (auto simp: ops_ok_def)

lemma gas_step:
  assumes "gas_ok cfg lim ch acc" and "preOpGas vr = Some pre"
    and "totalGas acc + (pre + callGasLimit (userOp e)) \<le> maxBundleGas cfg"
    and "\<forall>g. lim_maxBundleGas lim = Some g \<longrightarrow> g \<noteq> 0 \<longrightarrow> totalGas acc + (pre + callGasLimit (userOp e)) < g"
    and "totalGas acc' = (if ok then totalGas acc + (pre + callGasLimit (userOp e)) else totalGas acc)"
  shows "gas_ok cfg lim (if ok then ch @ [(e, vr)] else ch) acc'"
  using assms by (auto simp: gas_ok_def gas_of_def)

lemma charged_unique: "charged L pm op \<Longrightarrow> charged L pm' op \<Longrightarrow> pm' = pm"
  by (simp add: charged_def)

lemma reserved_snoc: "reserved L pm (ch @ [(e, vr)]) =
    reserved L pm ch + (if charged L pm (userOp e) then or_else (prefund vr) 0 else 0)"
  by (simp add: reserved_def)

lemma reserve_cases:
  assumes "reserve_deposit C L op vr acc = Inr (enough, acc')"
  obtains (free) "\<forall>pm. \<not> charged L pm op" and "enough" and "acc' = acc"
  | (paid) pm d pf where "charged L pm op"
      and "(case obj_get (paymasterDeposit acc) pm of Some d' \<Rightarrow> Inr d' | None \<Rightarrow> balanceOf C pm) = Inr d"
      and "prefund vr = Some pf" and "enough \<longleftrightarrow> pf \<le> d"
      and "obj_get (paymasterDeposit acc') = (obj_get (paymasterDeposit acc))(pm \<mapsto> (if enough then d - pf else d))"
proof (cases "\<exists>pm. charged L pm op")
  case True
  then obtain pm where pm: "charged L pm op" ..
  then have c: "paymaster op = Some pm" "lib_isAddress L pm" "toLowerCase pm \<noteq> AddressZero"
    by (simp_all add: charged_def)
  obtain d where d: "(case obj_get (paymasterDeposit acc) pm of Some d' \<Rightarrow> Inr d' | None \<Rightarrow> balanceOf C pm) = Inr d"
    using assms c by (auto simp: reserve_deposit_def bindE_Inr_iff)
  obtain pf where pf: "prefund vr = Some pf"
    using assms c d by (auto simp: reserve_deposit_def Let_def split: option.splits)
  show thesis
    using assms by (intro paid [OF pm d pf]) (auto simp: reserve_deposit_def c d pf Let_def split: if_splits)
next
  case False
  then show thesis
    using assms by (intro free) (auto simp: reserve_deposit_def charged_def split: option.splits if_splits)
qed

lemma list_ex_snoc [simp]: "list_ex P (xs @ [x]) \<longleftrightarrow> list_ex P xs \<or> P x"
  by (induction xs) auto

lemma dep_step:
  assumes ok: "dep_ok C L ch acc" and r: "reserve_deposit C L (userOp e) vr acc = Inr (enough, acc1)"
    and pd: "paymasterDeposit acc' = paymasterDeposit acc1"
    and nn: "\<forall>pf. prefund vr = Some pf \<longrightarrow> 0 \<le> pf" and add: "add \<longrightarrow> enough"
  shows "dep_ok C L (if add then ch @ [(e, vr)] else ch) acc'"
  using r
proof (cases rule: reserve_cases)
  case free
  then have nc: "\<not> charged L pm (userOp e)" for pm by blast
  show ?thesis
    using ok unfolding dep_ok_def pd free(3) by (cases add) (simp_all add: nc reserved_snoc cong: option.case_cong)
next
  case (paid pm d pf)
  have pf: "0 \<le> pf" using nn paid(3) by simp
  show ?thesis
    unfolding dep_ok_def
  proof
    fix q
    show "case obj_get (paymasterDeposit acc') q of
        None \<Rightarrow> \<not> list_ex (\<lambda>(e, vr). charged L q (userOp e)) (if add then ch @ [(e, vr)] else ch)
      | Some d \<Rightarrow> \<exists>b. balanceOf C q = Inr b \<and> reserved L q (if add then ch @ [(e, vr)] else ch) + d \<le> b
          \<and> (list_ex (\<lambda>(e, vr). charged L q (userOp e)) (if add then ch @ [(e, vr)] else ch) \<longrightarrow> 0 \<le> d)"
    proof (cases "q = pm")
      case False
      then have "\<not> charged L q (userOp e)" using charged_unique [OF paid(1)] by blast
      then show ?thesis
        using False ok [unfolded dep_ok_def, rule_format, of q]
        unfolding pd paid(5) by (cases add) (simp_all add: reserved_snoc cong: option.case_cong)
    next
      case True
      obtain b where b: "balanceOf C pm = Inr b" "reserved L pm ch + d \<le> b"
      proof (cases "obj_get (paymasterDeposit acc) pm")
        case None
        then have "\<not> list_ex (\<lambda>(e, vr). charged L pm (userOp e)) ch"
          using ok [unfolded dep_ok_def, rule_format, of pm] by simp
        then have "reserved L pm ch = 0"
          by (induction ch) (auto simp: reserved_def)
        with None paid(2) that show thesis by simp
      next
        case (Some d')
        with paid(2) ok [unfolded dep_ok_def, rule_format, of pm] that show thesis by auto
      qed
      have "list_ex (\<lambda>(e, vr). charged L pm (userOp e)) ch \<longrightarrow> 0 \<le> d"
        using ok [unfolded dep_ok_def, rule_format, of pm] paid(2)
        by (cases "obj_get (paymasterDeposit acc) pm") auto
      then show ?thesis
        using b pf paid(1,3,4) add unfolding True pd paid(5)
        by (cases add; cases enough) (auto simp: reserved_snoc)
    qed
  qed
qed

lemma find_signer_cases:
  "find_signer L a auths = Inr r \<Longrightarrow> (case r of
     None \<Rightarrow> \<forall>x\<in>set auths. getEip7702AuthorizationSigner L x \<noteq> getEip7702AuthorizationSigner L a
   | Some x \<Rightarrow> x \<in> set auths \<and> getEip7702AuthorizationSigner L x = getEip7702AuthorizationSigner L a)"
  by (induction auths) (auto simp: bindE_Inr_iff split: if_splits option.splits)

lemma merge_auths_ok:
  "merge_auths L as auths = Inr (ok, auths') \<Longrightarrow> distinct (map (getEip7702AuthorizationSigner L) auths) \<Longrightarrow>
     distinct (map (getEip7702AuthorizationSigner L) auths') \<and> set auths \<subseteq> set auths'
     \<and> (ok \<longrightarrow> (\<forall>a\<in>set as. auth_covered L auths' a))"
proof (induction as arbitrary: auths)
  case (Cons a as)
  obtain r where r: "find_signer L a auths = Inr r" using Cons.prems(1) by (auto simp: bindE_Inr_iff)
  show ?case
  proof (cases r)
    case None
    then have m: "merge_auths L as (auths @ [a]) = Inr (ok, auths')" using Cons.prems(1) r by simp
    have "distinct (map (getEip7702AuthorizationSigner L) (auths @ [a]))"
      using find_signer_cases [OF r] None Cons.prems(2) by auto
    from Cons.IH [OF m this] show ?thesis by (auto simp: auth_covered_def)
  next
    case (Some x)
    note f = find_signer_cases [OF r, unfolded Some option.case]
    show ?thesis
    proof (cases "toLowerCase (auth_address x) = toLowerCase (auth_address a)")
      case True
      then have m: "merge_auths L as auths = Inr (ok, auths')" using Cons.prems(1) r Some by simp
      from Cons.IH [OF m Cons.prems(2)] f True show ?thesis by (auto simp: auth_covered_def)
    qed (use Cons.prems r Some in auto)
  qed
qed simp

lemma auth_step:
  assumes "auth_ok L ch acc"
    and "mergeEip7702Authorizations L e (sharedAuthorizationList acc) = Inr (ok, sharedAuthorizationList acc')"
  shows "auth_ok L (if ok then ch @ [(e, vr)] else ch) acc'"
  using assms merge_auths_ok [of L "getAuthorizationList (userOp e)" "sharedAuthorizationList acc" ok "sharedAuthorizationList acc'"]
  by (fastforce simp: auth_ok_def mergeEip7702Authorizations_def auth_covered_def)

lemma merge_keys: "set (obj_keys (mergeStorageMap m v)) = set (obj_keys m) \<union> set (obj_keys v)"
  unfolding mergeStorageMap_def
proof (induction v arbitrary: m)
  case (Cons p v)
  have "set (obj_keys (mergeStorageMap_step m p)) = insert (fst p) (set (obj_keys m))"
  proof (cases p)
    case (Pair a e)
    show ?thesis
    proof (cases "\<exists>r x. obj_get m a = Some (Root r) \<and> e = Slots x")
      case True
      then have "a \<in> set (obj_keys m)" using obj_get_keys [of a m] by auto
      then show ?thesis using True by (auto simp: Pair insert_absorb)
    next
      case False
      then have "\<exists>v. mergeStorageMap_step m (a, e) = AList.update a v m"
        by (cases e; cases "obj_get m a") (auto split: storage_entry.splits)
      then show ?thesis using set_obj_keys_update [of a _ m] by (auto simp: Pair simp del: set_map)
    qed
  qed
  then show ?case using Cons.IH by simp
qed simp

lemma merge_storage_keys:
  "merge_storage C cfg op vr acc = Inr acc' \<Longrightarrow>
     set (obj_keys (storageMap acc)) \<subseteq> set (obj_keys (storageMap acc'))
     \<and> set (obj_keys (vr_storageMap vr)) \<subseteq> set (obj_keys (storageMap acc'))"
  using set_obj_keys_update [of "toLowerCase (sender op)" _ "storageMap acc"]
  by (auto simp del: set_map simp: merge_storage_def bindE_Inr_iff merge_keys split: if_splits)

lemma storage_step:
  assumes "storage_ok ch acc" and "merge_storage C cfg op vr accm = Inr acc2" and "storageMap accm = storageMap acc"
    and "storageMap acc' = storageMap acc2"
  shows "storage_ok (if ok then ch @ [(e, vr)] else ch) acc'"
proof -
  have sub: "set (obj_keys (storageMap acc)) \<subseteq> set (obj_keys (storageMap acc'))"
      "set (obj_keys (vr_storageMap vr)) \<subseteq> set (obj_keys (storageMap acc'))"
    using merge_storage_keys [OF assms(2)] unfolding assms(3,4) by blast+
  have "x \<in> set ch \<Longrightarrow> set (obj_keys (vr_storageMap (snd x))) \<subseteq> set (obj_keys (storageMap acc'))" for x
    using assms(1) sub(1) unfolding storage_ok_def case_prod_beta by blast
  then show ?thesis using sub(2) unfolding storage_ok_def case_prod_beta by (cases ok) auto
qed

definition chosen_ok ::
  "chain_env \<Rightarrow> bundle_config \<Rightarrow> bundle_limits \<Rightarrow> ethers_lib \<Rightarrow> string list \<Rightarrow> string set \<Rightarrow> string set \<Rightarrow>
     chosen \<Rightarrow> bundle_acc \<Rightarrow> bool" where
  "chosen_ok C cfg lim L known B W ch acc \<longleftrightarrow> ops_ok ch acc \<and> gas_ok cfg lim ch acc \<and> dep_ok C L ch acc
     \<and> auth_ok L ch acc \<and> storage_ok ch acc \<and> list_all (entry_checked C known B W) ch"

lemma chosen_ok_init: "chosen_ok C cfg lim L known B W [] init_acc"
  by (simp add: chosen_ok_def ops_ok_def gas_ok_def dep_ok_def auth_ok_def storage_ok_def init_acc_def)

definition nonneg_prefunds :: "chain_env \<Rightarrow> bool" where
  "nonneg_prefunds C \<longleftrightarrow> (\<forall>e vr pf. vr_of C e = Inr vr \<longrightarrow> prefund vr = Some pf \<longrightarrow> 0 \<le> pf)"

lemma chosen_step:
  assumes ok: "chosen_ok C cfg lim L known B W ch acc" and ls: "lists_of s = (B, W, L)"
    and nn: "nonneg_prefunds C"
    and st: "bundle_step C cfg lim known n e (s, acc) = (r, (s', acc'))"
  shows "lists_of s' = (B, W, L) \<and> (chosen_ok C cfg lim L known B W ch acc'
     \<or> (\<exists>vr. chosen_ok C cfg lim L known B W (ch @ [(e, vr)]) acc'))"
proof (cases "acc' = acc")
  case True
  then show ?thesis using bundle_step_cases [OF st] ok ls by simp
next
  case False
  then obtain vr ctl where vr: "vr_of C e = Inr vr" "sender (userOp e) \<notin> senders acc" "storage_isolated known e vr"
      and pst: "getStatus (paymaster (userOp e)) s \<noteq> BANNED" and fst': "getStatus (factory (userOp e)) s \<noteq> BANNED"
      and add: "bundle_add C cfg L lim e vr acc = Inr (ctl, acc')"
    using bundle_step_cases [OF st] ls by (auto simp: lists_of_def)
  have bl: "getStatus x s \<noteq> BANNED \<Longrightarrow> x = Some a \<Longrightarrow> toLowerCase a \<in> B \<Longrightarrow> toLowerCase a \<in> W" for x a
    using getStatus_blacklisted [of a s] ls by (auto simp: lists_of_def)
  have chk: "entry_checked C known B W (e, vr)"
    using vr bl [OF pst] bl [OF fst'] by (auto simp: entry_checked_def)
  have nn': "\<forall>pf. prefund vr = Some pf \<longrightarrow> 0 \<le> pf"
    using nn vr(1) by (auto simp: nonneg_prefunds_def)
  note ok' = ok [unfolded chosen_ok_def]
  from add have "chosen_ok C cfg lim L known B W ch acc' \<or> chosen_ok C cfg lim L known B W (ch @ [(e, vr)]) acc'"
  proof (cases rule: bundle_add_cases)
    case poor
    note fr = reserve_deposit_frame [OF poor]
    have "dep_ok C L ch acc'" using dep_step [OF _ poor refl nn', of ch False] ok' by simp
    moreover have "ops_ok ch acc' = ops_ok ch acc" "gas_ok cfg lim ch acc' = gas_ok cfg lim ch acc"
        "auth_ok L ch acc' = auth_ok L ch acc" "storage_ok ch acc' = storage_ok ch acc"
      using fr by (simp_all add: ops_ok_def gas_ok_def auth_ok_def storage_ok_def)
    ultimately show ?thesis using ok' by (simp add: chosen_ok_def)
  next
    case (merged pre mok acc1 acc2 auths)
    let ?ch = "if mok then ch @ [(e, vr)] else ch"
    have sm: "storageMap (case factory (userOp e) of None \<Rightarrow> acc1
        | Some f \<Rightarrow> if lib_isAddress L f then bump f acc1 else acc1) = storageMap acc"
      using reserve_deposit_frame [OF merged(4)] by (simp split: option.split)
    have "ops_ok ?ch acc'" using ok' vr(2) merged(11,12) by (intro ops_step) auto
    moreover have "gas_ok cfg lim ?ch acc'" using ok' merged(1-3,13) by (intro gas_step) auto
    moreover have "dep_ok C L ?ch acc'" using ok' merged(4,9) nn' by (intro dep_step) auto
    moreover have "auth_ok L ?ch acc'" using ok' merged(7,8) by (intro auth_step) auto
    moreover have "storage_ok ?ch acc'" using storage_step [OF _ merged(6) sm merged(10)] ok' by blast
    moreover have "list_all (entry_checked C known B W) ?ch" using ok' chk by simp
    ultimately have "chosen_ok C cfg lim L known B W ?ch acc'" by (simp add: chosen_ok_def)
    then show ?thesis by (cases mok) auto
  qed (use ok in simp)
  then show ?thesis using bundle_step_cases [OF st] ls by auto
qed

lemma chosen_loop:
  "chosen_ok C cfg lim L known B W ch acc \<Longrightarrow> lists_of s = (B, W, L) \<Longrightarrow> nonneg_prefunds C \<Longrightarrow>
     bundle_loop C cfg lim known n es (s, acc) = (r, (s', acc')) \<Longrightarrow>
     \<exists>ch'. chosen_ok C cfg lim L known B W (ch @ ch') acc' \<and> subseq (map fst ch') es"
proof (induction es arbitrary: ch s acc)
  case Nil
  then show ?case by (intro exI [of _ "[]"]) auto
next
  case (Cons e es)
  obtain x s1 acc1 where x: "bundle_step C cfg lim known n e (s, acc) = (x, (s1, acc1))"
    by (metis prod.exhaust)
  obtain c where c: "chosen_ok C cfg lim L known B W (ch @ c) acc1" "subseq (map fst c) [e]"
    and ls: "lists_of s1 = (B, W, L)"
    using chosen_step [OF Cons.prems(1,2,3) x]
    by (metis append_Nil2 list.simps(8) list.simps(9) fst_conv list_emb_Nil subseq_order.order_refl)
  have c': "subseq (map fst c) (e # es)" by (rule subseq_order.order_trans [OF c(2)]) simp
  show ?case
  proof (cases "x = Inr Continue")
    case True
    then have "bundle_loop C cfg lim known n es (s1, acc1) = (r, (s', acc'))"
      using Cons.prems(4) x by simp
    from Cons.IH [OF c(1) ls Cons.prems(3) this] obtain ch' where
      "chosen_ok C cfg lim L known B W ((ch @ c) @ ch') acc'" "subseq (map fst ch') es" by blast
    moreover have "subseq (map fst (c @ ch')) ([e] @ es)"
      using c(2) calculation(2) unfolding map_append by (rule list_emb_append_mono)
    ultimately show ?thesis by (intro exI [of _ "c @ ch'"]) simp
  next
    case False
    then have "acc' = acc1"
      using Cons.prems(4) x by (auto split: sum.splits loop_ctl.splits)
    then show ?thesis using c(1) c' by blast
  qed
qed

text \<open>What a returned bundle satisfies, with the entries it was built from.\<close>

lemma createBundle_chosen:
  assumes "createBundle C cfg lim s = (Inr (b, auths, sm), t)" and "nonneg_prefunds C"
  obtains ch acc es where "getSortedForInclusion s = Inr es" and "subseq (map fst ch) es"
    and "chosen_ok C cfg lim (lib s) (getKnownSenders s) (blackList s) (whitelist s) ch acc"
    and "b = bundle_ops acc" and "auths = sharedAuthorizationList acc" and "sm = storageMap acc"
proof -
  obtain es where es: "getSortedForInclusion s = Inr es"
    using assms(1) by (auto simp: createBundle_def split: sum.splits)
  obtain r s' acc where l: "bundle_loop C cfg lim (getKnownSenders s) (length es) es (s, init_acc) = (r, (s', acc))"
    by (metis prod.exhaust)
  have r: "b = bundle_ops acc" "auths = sharedAuthorizationList acc" "sm = storageMap acc"
    using assms(1) es l by (auto simp: createBundle_def split: sum.splits)
  obtain ch where "chosen_ok C cfg lim (lib s) (getKnownSenders s) (blackList s) (whitelist s) ([] @ ch) acc"
      "subseq (map fst ch) es"
    using chosen_loop [OF chosen_ok_init _ assms(2) l] by (auto simp: lists_of_def)
  then show thesis using that [OF es _ _ r] by simp
qed

lemma subseq_set: "subseq xs ys \<Longrightarrow> set xs \<subseteq> set ys"
  by (induction rule: list_emb.induct) auto

lemma chosen_parts:
  assumes "chosen_ok C cfg lim L known B W ch acc"
  shows "bundle_ops acc = map (userOp \<circ> fst) ch" and "distinct (map sender (bundle_ops acc))"
    and "gas_ok cfg lim ch acc" and "\<forall>x\<in>set ch. entry_checked C known B W x"
    and "\<forall>(e, vr)\<in>set ch. vr_of C e = Inr vr"
proof -
  show "bundle_ops acc = map (userOp \<circ> fst) ch" "distinct (map sender (bundle_ops acc))"
    "gas_ok cfg lim ch acc" "\<forall>x\<in>set ch. entry_checked C known B W x"
    using assms unfolding chosen_ok_def ops_ok_def list_all_iff by blast+
  then show "\<forall>(e, vr)\<in>set ch. vr_of C e = Inr vr" by (auto simp: entry_checked_def)
qed

section \<open>A concrete environment\<close>

definition env_example :: chain_env where
  "env_example = \<lparr>getDepositInfo = (\<lambda>a. Inr (0, 0)), balanceOf = (\<lambda>a. Inr 100), storageHashOf = (\<lambda>a. Inr ''0xroot''),
     revalidate = (\<lambda>op refs b. Inr (EmptyValidateUserOpResult\<lparr>prefund := Some 40, preOpGas := Some 50,
        vr_storageMap := [(sender op, Slots [(''0x01'', ''0x02'')])]\<rparr>)),
     parseErrorArgs = (\<lambda>e. None), innerErrorCode = (\<lambda>e. None),
     feeData = Inr (Some 1, Some 2), signerNonce = Inr 0,
     handleOpsCall = (\<lambda>ops b. Inl (JsError (''execution reverted: FailedOp(0,'' @ dq @ ''AA33 reverted'' @ dq @ '')'') None)),
     networkChainId = 1337, hexlify = show_int, sign7702 = (\<lambda>d. Inr ''0xraw''), signTransaction = (\<lambda>tx. Inr ''0xsigned''),
     sendRawConditional = (\<lambda>t m. Inr ''0xhash''), sendRaw = (\<lambda>t. Inr ''0xhash''), sendTransaction = (\<lambda>tx. Inr ''0xhash''),
     userOpHashOf = (\<lambda>op. Inr (sender op)), signerAddress = Inr ''0xSigner'', balanceOfSigner = Inr 5\<rparr>"

definition cfg_example :: bundle_config where
  "cfg_example = \<lparr>beneficiary = ''0xBenef'', minSignerBalance = 10, maxBundleGas = 1000, conditionalRpc = False,
     mergeToAccountRootHash = False\<rparr>"

definition lim_example :: bundle_limits where
  "lim_example = \<lparr>lim_minBaseFee = Some 0, lim_maxBundleGas = Some 0, lim_maxBundleSize = Some 0\<rparr>"

definition pm_example :: string where "pm_example = ''0x99''"

definition auth_example :: authorization where
  "auth_example = \<lparr>auth_chainId = ''0x1'', auth_address = ''0xD'', auth_nonce = ''0x0'', auth_yParity = ''0x0'',
     auth_r = ''0xR'', auth_s = ''0xAuthority''\<rparr>"

definition op_example :: "string \<Rightarrow> operation" where
  "op_example a = base_op a 0\<lparr>paymaster := Some pm_example, callGasLimit := 7, eip7702Auth := Some auth_example\<rparr>"

definition entry_example :: "string \<Rightarrow> string \<Rightarrow> mempool_entry" where
  "entry_example a h = new_MempoolEntry (op_example a) h 40 \<lparr>ch_addresses = [], ch_hash = []\<rparr> False None"

definition bundle_pool :: pool_state where
  "bundle_pool = pool_example\<lparr>mempool := [entry_example ''0xA'' ''h0'', entry_example ''0xB'' ''h1'', entry_example ''0xC'' ''h2'']\<rparr>"

lemma bundle_pool_simps [simp]:
  "lib bundle_pool = base_lib" "entries bundle_pool = []" "params bundle_pool = BundlerReputationParams"
  "mempool bundle_pool = [entry_example ''0xA'' ''h0'', entry_example ''0xB'' ''h1'', entry_example ''0xC'' ''h2'']"
  "blackList bundle_pool = {}" "whitelist bundle_pool = {}"
  by (simp_all add: bundle_pool_def pool_example_def init_pool_def init_rep_def rep_state.defs)

lemma entry_example_simps [simp]:
  "userOp (entry_example a h) = op_example a" "userOpHash (entry_example a h) = h"
  "skipValidation (entry_example a h) = False"
  by (simp_all add: entry_example_def new_MempoolEntry_def)

lemma op_example_simps [simp]:
  "sender (op_example a) = a" "paymaster (op_example a) = Some pm_example" "factory (op_example a) = None"
  "getPackedNonce L (op_example a) = Inr 0"
  by (simp_all add: op_example_def base_op_def getPackedNonce_def)

lemma bundle_pool_wf: "pool_wf bundle_pool" "rep_wf bundle_pool"
  by (simp_all add: pool_wf_def pool_key_def rep_wf_def)

lemma nonneg_prefunds_example: "nonneg_prefunds env_example"
  by (auto simp: nonneg_prefunds_def vr_of_def env_example_def EmptyValidateUserOpResult_def split: if_splits)

definition sm_example :: storage_map where
  "sm_example = [(''0xA'', Slots [(''0x01'', ''0x02'')]), (''0xB'', Slots [(''0x01'', ''0x02'')])]"

text \<open>
  Three operations share a paymaster whose balance covers two of them; all three carry the
  same authorization.
\<close>

lemma bundle_example_created:
  obtains t where "createBundle env_example cfg_example lim_example bundle_pool =
    (Inr ([op_example ''0xA'', op_example ''0xB''], [auth_example], sm_example), t)"
proof -
  have "fst (createBundle env_example cfg_example lim_example bundle_pool) =
    Inr ([op_example ''0xA'', op_example ''0xB''], [auth_example], sm_example)"
    by code_simp
  then show thesis by (metis that prod.collapse)
qed

section \<open>Properties of a created bundle\<close>

text \<open>C3: A bundle never holds two operations of one sender, and its operations are operations
  of the pool, taken in the order of the sorted list.\<close>

theorem bundle_senders_distinct:
  assumes "createBundle C cfg lim s = (Inr (b, auths, sm), t)" and "nonneg_prefunds C"
  shows "distinct (map sender b)
    \<and> (\<exists>es. getSortedForInclusion s = Inr es \<and> subseq b (map userOp es))
    \<and> set b \<subseteq> set (pool_dump s)"
proof -
  obtain ch acc es where c: "getSortedForInclusion s = Inr es" "subseq (map fst ch) es"
      "chosen_ok C cfg lim (lib s) (getKnownSenders s) (blackList s) (whitelist s) ch acc" "b = bundle_ops acc"
    by (rule createBundle_chosen [OF assms])
  have b: "b = map userOp (map fst ch)" "distinct (map sender b)"
    using chosen_parts(1,2) [OF c(3)] c(4) by simp_all
  have "subseq b (map userOp es)" unfolding b(1) by (rule subseq_map [OF c(2)])
  moreover from this have "set b \<subseteq> set (map userOp es)" by (intro subseq_set)
  then have "set b \<subseteq> set (pool_dump s)"
    using c(1) by (auto simp: pool_dump_def getSortedForInclusion_def split: if_splits)
  ultimately show ?thesis using b(2) c(1) by blast
qed

lemma bundle_senders_distinct_witness:
  "distinct (map sender [op_example ''0xA'', op_example ''0xB''])
   \<and> set [op_example ''0xA'', op_example ''0xB''] \<subseteq> set (pool_dump bundle_pool)"
proof -
  obtain t where t: "createBundle env_example cfg_example lim_example bundle_pool =
    (Inr ([op_example ''0xA'', op_example ''0xB''], [auth_example], sm_example), t)"
    by (rule bundle_example_created)
  show ?thesis using bundle_senders_distinct [OF t nonneg_prefunds_example] by blast
qed

text \<open>C10: The verification gas the second validations reported and the call gas limits of the
  bundled operations add up to at most the configured maximum, and stay below the limit of
  the request if it gives one.\<close>

theorem bundle_gas_bounded:
  assumes "createBundle C cfg lim s = (Inr (b, auths, sm), t)" and "nonneg_prefunds C" and "b \<noteq> []"
  shows "\<exists>ch. b = map (userOp \<circ> fst) ch \<and> (\<forall>(e, vr)\<in>set ch. e \<in> set (mempool s) \<and> vr_of C e = Inr vr)
    \<and> sum_list (map gas_of ch) \<le> maxBundleGas cfg
    \<and> (\<forall>g. lim_maxBundleGas lim = Some g \<longrightarrow> g \<noteq> 0 \<longrightarrow> sum_list (map gas_of ch) < g)"
proof -
  obtain ch acc es where c: "getSortedForInclusion s = Inr es" "subseq (map fst ch) es"
      "chosen_ok C cfg lim (lib s) (getKnownSenders s) (blackList s) (whitelist s) ch acc" "b = bundle_ops acc"
    by (rule createBundle_chosen [OF assms(1,2)])
  note parts = chosen_parts [OF c(3)]
  have "set es = set (mempool s)"
    using c(1) by (auto simp: getSortedForInclusion_def split: if_splits)
  moreover have "set (map fst ch) \<subseteq> set es" by (rule subseq_set [OF c(2)])
  ultimately have "fst x \<in> set (mempool s)" if "x \<in> set ch" for x using that by auto
  then have "\<forall>(e, vr)\<in>set ch. e \<in> set (mempool s) \<and> vr_of C e = Inr vr"
    using parts(5) by fastforce
  moreover have "ch \<noteq> []" using assms(3) c(4) parts(1) by auto
  then have "sum_list (map gas_of ch) \<le> maxBundleGas cfg
      \<and> (\<forall>g. lim_maxBundleGas lim = Some g \<longrightarrow> g \<noteq> 0 \<longrightarrow> sum_list (map gas_of ch) < g)"
    using parts(3) by (auto simp: gas_ok_def)
  ultimately show ?thesis using c(4) parts(1) by blast
qed

lemma bundle_gas_bounded_witness:
  "\<exists>ch. [op_example ''0xA'', op_example ''0xB''] = map (userOp \<circ> fst) ch \<and> sum_list (map gas_of ch) \<le> 1000"
proof -
  obtain t where t: "createBundle env_example cfg_example lim_example bundle_pool =
    (Inr ([op_example ''0xA'', op_example ''0xB''], [auth_example], sm_example), t)"
    by (rule bundle_example_created)
  have g: "maxBundleGas cfg_example = 1000" by (simp add: cfg_example_def)
  have "[op_example ''0xA'', op_example ''0xB''] \<noteq> []" by simp
  from bundle_gas_bounded [OF t nonneg_prefunds_example this, unfolded g] show ?thesis
    by (elim ex_forward conjE, intro conjI)
qed

lemma subseq_mset: "subseq xs ys \<Longrightarrow> mset xs \<subseteq># mset ys"
  by (induction rule: list_emb.induct) (auto intro: subset_mset.order_trans)

text \<open>C2: Every paymaster can pay for all its operations in the bundle together (EREP-010): the
  operations of the bundle are those of distinct entries of the pool, and the prefunds that the second
  validations of these entries reported add up, for the operations of one paymaster, to at most its
  balance on chain. Paymasters are told apart as they are spelled, and an entry that skips validation
  has no prefund.\<close>

theorem bundle_deposits_suffice:
  assumes "createBundle C cfg lim s = (Inr (b, auths, sm), t)" and "nonneg_prefunds C"
  shows "\<exists>ch. b = map (userOp \<circ> fst) ch \<and> mset (map fst ch) \<subseteq># mset (mempool s) \<and>
    (\<forall>(e, vr)\<in>set ch. vr_of C e = Inr vr) \<and>
    (\<forall>op\<in>set b. \<forall>pm. charged (lib s) pm op \<longrightarrow> (\<exists>d. balanceOf C pm = Inr d \<and> reserved (lib s) pm ch \<le> d))"
proof -
  obtain ch acc es where c: "chosen_ok C cfg lim (lib s) (getKnownSenders s) (blackList s) (whitelist s) ch acc"
      "b = bundle_ops acc" and es: "getSortedForInclusion s = Inr es" "subseq (map fst ch) es"
    by (rule createBundle_chosen [OF assms])
  have "mset (map fst ch) \<subseteq># mset (mempool s)"
    using subseq_mset [OF es(2)] es(1) by (auto simp: getSortedForInclusion_def split: if_splits)
  moreover have "\<exists>d. balanceOf C pm = Inr d \<and> reserved (lib s) pm ch \<le> d"
    if "op \<in> set b" "charged (lib s) pm op" for op pm
  proof -
    have ex: "list_ex (\<lambda>(e, vr). charged (lib s) pm (userOp e)) ch"
      using that c by (auto simp: chosen_ok_def ops_ok_def list_ex_iff)
    have "dep_ok C (lib s) ch acc" using c(1) by (simp add: chosen_ok_def)
    from this [unfolded dep_ok_def, rule_format, of pm] ex show ?thesis
      by (cases "obj_get (paymasterDeposit acc) pm") fastforce+
  qed
  ultimately show ?thesis using chosen_parts(1,5) [OF c(1)] c(2) by blast
qed

lemma bundle_deposits_suffice_witness:
  "\<exists>ch. [op_example ''0xA'', op_example ''0xB''] = map (userOp \<circ> fst) ch \<and>
     mset (map fst ch) \<subseteq># mset (mempool bundle_pool) \<and> reserved base_lib pm_example ch \<le> 100"
proof -
  obtain t where t: "createBundle env_example cfg_example lim_example bundle_pool =
    (Inr ([op_example ''0xA'', op_example ''0xB''], [auth_example], sm_example), t)"
    by (rule bundle_example_created)
  have L: "lib bundle_pool = base_lib" by simp
  have c: "charged base_lib pm_example (op_example ''0xA'')" by code_simp
  have "balanceOf env_example pm_example = Inr 100" by (simp add: env_example_def)
  moreover have "op_example ''0xA'' \<in> set [op_example ''0xA'', op_example ''0xB'']" by simp
  ultimately show ?thesis
    using bundle_deposits_suffice [OF t nonneg_prefunds_example, unfolded L] c
    by (metis sum.inject(2))
qed

text \<open>No operation of a bundle touched, in its second validation, the storage of another
  sender of the pool, and the storage condition sent with the bundle covers every address
  whose storage any of its operations touched.\<close>

theorem bundle_storage_isolated:
  assumes "createBundle C cfg lim s = (Inr (b, auths, sm), t)" and "nonneg_prefunds C" and "op \<in> set b"
  shows "\<exists>e vr. userOp e = op \<and> vr_of C e = Inr vr
    \<and> (\<forall>a\<in>set (obj_keys (vr_storageMap vr)). a \<in> set (obj_keys sm)
        \<and> (toLowerCase a \<in> set (getKnownSenders s) \<longrightarrow> toLowerCase a = toLowerCase (sender op)))"
proof -
  obtain ch acc where c: "chosen_ok C cfg lim (lib s) (getKnownSenders s) (blackList s) (whitelist s) ch acc"
      "b = bundle_ops acc" "sm = storageMap acc"
    by (rule createBundle_chosen [OF assms(1,2)])
  obtain e vr where e: "(e, vr) \<in> set ch" "userOp e = op"
    using assms(3) c by (auto simp: chosen_ok_def ops_ok_def)
  have "entry_checked C (getKnownSenders s) (blackList s) (whitelist s) (e, vr)"
    using c(1) e(1) by (simp add: chosen_ok_def list_all_iff)
  moreover have "set (obj_keys (vr_storageMap vr)) \<subseteq> set (obj_keys sm)"
    using c(1,3) e(1) unfolding chosen_ok_def storage_ok_def by blast
  ultimately show ?thesis
    using e(2) by (intro exI [of _ e] exI [of _ vr]) (auto simp: entry_checked_def storage_isolated_def)
qed

lemma bundle_storage_isolated_witness:
  "''0xA'' \<in> set (obj_keys sm_example)"
proof -
  obtain t where t: "createBundle env_example cfg_example lim_example bundle_pool =
    (Inr ([op_example ''0xA'', op_example ''0xB''], [auth_example], sm_example), t)"
    by (rule bundle_example_created)
  have "vr_of env_example e = Inr vr \<Longrightarrow> userOp e = op_example ''0xA'' \<Longrightarrow> skipValidation e = False \<Longrightarrow>
      ''0xA'' \<in> set (obj_keys (vr_storageMap vr))" for e vr
    by (auto simp: vr_of_def env_example_def op_example_def base_op_def)
  then show ?thesis
    using bundle_storage_isolated [OF t nonneg_prefunds_example, of "op_example ''0xA''"]
    by (simp add: sm_example_def)
qed

text \<open>No operation of a bundle has a paymaster or a factory that is blacklisted and not
  whitelisted.\<close>

theorem bundle_never_blacklisted:
  assumes "createBundle C cfg lim s = (Inr (b, auths, sm), t)" and "nonneg_prefunds C" and "op \<in> set b"
    and "paymaster op = Some a \<or> factory op = Some a" and "toLowerCase a \<in> blackList s"
  shows "toLowerCase a \<in> whitelist s"
proof -
  obtain ch acc where c: "chosen_ok C cfg lim (lib s) (getKnownSenders s) (blackList s) (whitelist s) ch acc"
      "b = bundle_ops acc"
    by (rule createBundle_chosen [OF assms(1,2)])
  obtain e vr where e: "(e, vr) \<in> set ch" "userOp e = op"
    using assms(3) c by (auto simp: chosen_ok_def ops_ok_def)
  have "entry_checked C (getKnownSenders s) (blackList s) (whitelist s) (e, vr)"
    using c(1) e(1) by (simp add: chosen_ok_def list_all_iff)
  then show ?thesis using e(2) assms(4,5) by (auto simp: entry_checked_def)
qed

lemma bundle_never_blacklisted_witness:
  "toLowerCase pm_example \<in> blackList (addBlacklist [pm_example] (addWhitelist [pm_example] bundle_pool)) \<and>
   toLowerCase pm_example \<in> whitelist (addBlacklist [pm_example] (addWhitelist [pm_example] bundle_pool))"
proof -
  let ?s = "addBlacklist [pm_example] (addWhitelist [pm_example] bundle_pool)"
  let ?r = "createBundle env_example cfg_example lim_example ?s"
  have "fst ?r = Inr ([op_example ''0xA'', op_example ''0xB''], [auth_example], sm_example)" by code_simp
  then have t: "?r = (Inr ([op_example ''0xA'', op_example ''0xB''], [auth_example], sm_example), snd ?r)"
    by (metis prod.collapse)
  have b: "toLowerCase pm_example \<in> blackList ?s" by code_simp
  have "paymaster (op_example ''0xA'') = Some pm_example" by (simp add: op_example_def)
  then show ?thesis
    using bundle_never_blacklisted [OF t nonneg_prefunds_example, of "op_example ''0xA''" pm_example] b by simp
qed

text \<open>C24: The authorization list of a bundle has one tuple for each signer, and every
  authorization an operation of the bundle carries is in it, as a tuple of the same signer
  that delegates to the same code.\<close>

theorem bundle_authorizations_consistent:
  assumes "createBundle C cfg lim s = (Inr (b, auths, sm), t)" and "nonneg_prefunds C"
  shows "distinct (map (getEip7702AuthorizationSigner (lib s)) auths)
    \<and> (\<forall>op\<in>set b. \<forall>a\<in>set (getAuthorizationList op). \<exists>x\<in>set auths.
         getEip7702AuthorizationSigner (lib s) x = getEip7702AuthorizationSigner (lib s) a
         \<and> toLowerCase (auth_address x) = toLowerCase (auth_address a))"
proof -
  obtain ch acc where c: "chosen_ok C cfg lim (lib s) (getKnownSenders s) (blackList s) (whitelist s) ch acc"
      "b = bundle_ops acc" "auths = sharedAuthorizationList acc"
    by (rule createBundle_chosen [OF assms])
  then show ?thesis
    by (fastforce simp: chosen_ok_def ops_ok_def auth_ok_def auth_covered_def)
qed

lemma bundle_authorizations_consistent_witness:
  "\<exists>x\<in>set [auth_example]. toLowerCase (auth_address x) = ''0xd''"
proof -
  obtain t where t: "createBundle env_example cfg_example lim_example bundle_pool =
    (Inr ([op_example ''0xA'', op_example ''0xB''], [auth_example], sm_example), t)"
    by (rule bundle_example_created)
  have "getAuthorizationList (op_example ''0xB'') = [auth_example]" "toLowerCase (auth_address auth_example) = ''0xd''"
    by code_simp+
  then show ?thesis
    using bundle_authorizations_consistent [OF t nonneg_prefunds_example] by (metis list.set_intros(1) list.set_intros(2))
qed

text \<open>A request with a bundle size limit of \<open>m\<close> gets an empty bundle as soon as the pool
  holds \<open>m\<close> operations, because the limit is compared with the size of the pool.\<close>

theorem bundle_size_limit_empties:
  assumes "lim_maxBundleSize lim = Some m" and "0 < m" and "safe_int m"
    and "m \<le> int (length (mempool s))" and "createBundle C cfg lim s = (Inr r, t)"
  shows "r = ([], [], []) \<and> t = s"
proof -
  obtain es where es: "getSortedForInclusion s = Inr es"
    using assms(5) by (auto simp: createBundle_def split: sum.splits)
  then have len: "length es = length (mempool s)"
    by (auto simp: getSortedForInclusion_def split: if_splits)
  have "bundle_step C cfg lim k (length es) e (s, init_acc) = (Inr Break, (s, init_acc))" for k e
    using assms(1-4) len by (simp add: bundle_step_def toNumber_def)
  then have "bundle_loop C cfg lim k (length es) es (s, init_acc) = (Inr (), (s, init_acc))" for k
    by (cases es) simp_all
  then show ?thesis using assms(5) es by (auto simp: createBundle_def init_acc_def)
qed

lemma bundle_size_limit_empties_witness:
  "let r = createBundle env_example cfg_example (lim_example\<lparr>lim_maxBundleSize := Some 3\<rparr>) bundle_pool in
     fst r = Inr ([], [], []) \<and> snd r = bundle_pool"
proof -
  let ?lim = "lim_example\<lparr>lim_maxBundleSize := Some 3\<rparr>"
  let ?r = "createBundle env_example cfg_example ?lim bundle_pool"
  have "fst ?r = Inr ([], [], [])" "length (mempool bundle_pool) = 3" by code_simp+
  moreover from this(1) have "?r = (Inr ([], [], []), snd ?r)" by (metis prod.collapse)
  ultimately show ?thesis
    using bundle_size_limit_empties [of ?lim 3 bundle_pool env_example cfg_example "([], [], [])" "snd ?r"]
    by (simp add: safe_int_def Let_def)
qed

section \<open>Blame\<close>

lemma getStatus_cong:
  "params t = params s \<Longrightarrow> entries t = entries s \<Longrightarrow> whitelist t = whitelist s \<Longrightarrow> blackList t = blackList s \<Longrightarrow>
     getStatus x t = getStatus x s"
  by (cases "lower_opt x") (auto simp: getStatus_def split: option.split)

definition rep_part :: "'z pool_state_scheme \<Rightarrow> reputation_params \<times> reputation_entry obj \<times> string set \<times> string set \<times> ethers_lib" where
  "rep_part s = (params s, entries s, whitelist s, blackList s, lib s)"

lemma rep_part_removals:
  fixes s :: "'z pool_state_scheme"
  shows "rep_part (snd (removeUserOp w s)) = rep_part s" "rep_part (snd (removeBannedAddr a s)) = rep_part s"
proof -
  have rm: "rep_part (snd (removeUserOp w s)) = rep_part s" for w and s :: "'z pool_state_scheme"
    by (simp add: rep_part_def removeUserOp_frame)
  show "rep_part (snd (removeUserOp w s)) = rep_part s" by (rule rm)
  have keeps_rm: "keeps (\<lambda>t. rep_part t = x) (removeUserOp w :: ('z pool_state_scheme, unit) act)" for x w
    by (simp add: keeps_def rm)
  have "keeps (\<lambda>t. rep_part t = x) (removeBannedAddr_from a n :: ('z pool_state_scheme, unit) act)" for n x
    by (induction n) (auto intro!: keeps_intros keeps_rm)
  then have "keeps (\<lambda>t. rep_part t = rep_part s) (removeBannedAddr a :: ('z pool_state_scheme, unit) act)"
    unfolding removeBannedAddr_def by (intro keeps_bindM keeps_pure)
  then show "rep_part (snd (removeBannedAddr a s)) = rep_part s" by (simp add: keeps_def)
qed

lemma rep_wf_undo_seen: "rep_wf s \<Longrightarrow> rep_wf (undo_seen op s)"
  by (simp add: undo_seen_def rep_wf_updateSeenStatus)

lemma pool_frame_undo_seen: "pool_frame s (undo_seen op s)"
  unfolding undo_seen_def by (intro pool_frame_seen_step pool_frame_refl)

lemma pool_frame_crashed: "pool_frame s (crashedHandleOps a s)"
  by (rule pool_frame_reputation)

text \<open>C25: When the entry point refuses a bundle with a FailedOp error and an entity that is not
  whitelisted is to blame, that entity is banned, no operation in the pool mentions it any more, the
  failed operation itself is gone from the pool, every other operation stays, and the sending
  returns normally. The pool is well formed, no hash occurs in it twice, and the reputation parameters are
  those of a bundler.\<close>

theorem failed_bundle_bans_entity:
  assumes "pool_wf s" and "distinct (map userOpHash (mempool s))" and "rep_wf s"
    and "params s = BundlerReputationParams" and "toLowerCase a \<notin> whitelist s"
    and "submit_bundle C cfg ops tuples benef sm = Inl err"
    and "parseFailedOpRevert C err = Inr (Some (int i), Some r)" and "i < length ops"
    and "findEntityToBlame C r (ops ! i) s = Inr (Some a)"
    and "getPackedNonce (lib s) (ops ! i) = Inr n"
  shows "case sendBundle C cfg ops tuples benef sm s of (res, t) \<Rightarrow> res = Inr None
    \<and> getStatus (Some a) t = BANNED
    \<and> mempool t = filter (\<lambda>e. \<not> mentions a e \<and>
        (sender (userOp e), getPackedNonce (lib s) (userOp e)) \<noteq> (sender (ops ! i), Inr n)) (mempool s)"
proof -
  let ?op = "ops ! i"
  define s1 where "s1 = undo_seen ?op s"
  have f1: "pool_frame s s1" unfolding s1_def by (rule pool_frame_undo_seen)
  have w1: "pool_wf s1" "mempool s1 = mempool s" "distinct (map userOpHash (mempool s1))" "rep_wf s1"
    using assms(1,2,3) pool_frame_wf [OF f1] f1 rep_wf_undo_seen [OF assms(3), of ?op]
    by (simp_all add: pool_frame_def s1_def)
  obtain s2 where s2: "removeBannedAddr a s1 = (Inr (), s2)" "mempool s2 = filter (\<lambda>e. \<not> mentions a e) (mempool s1)"
    by (rule removeBannedAddr_filter [OF w1(1,3)])
  have rp2: "rep_part s2 = rep_part s1" using rep_part_removals(2) [of a s1] s2(1) by simp
  have w2: "pool_wf s2" using keepsD [OF keeps_removals(2) w1(1), of a] s2(1) by simp
  define s3 where "s3 = crashedHandleOps (Some a) s2"
  have f3: "pool_frame s2 s3" unfolding s3_def by (rule pool_frame_crashed)
  have l: "lib s3 = lib s" "lib s2 = lib s"
    using f3 rp2 f1 by (simp_all add: pool_frame_def rep_part_def)
  have w3: "pool_wf s3" "mempool s3 = mempool s2" using w2 pool_frame_wf [OF f3] f3 by (simp_all add: pool_frame_def)
  have n3: "getPackedNonce (lib s3) ?op = Inr n" using assms(10) l(1) by simp
  obtain t where t: "removeUserOp (ByOp ?op) s3 = (Inr (), t)"
      "mempool t = filter (\<lambda>e. pool_key (lib s3) e \<noteq> (sender ?op, Inr n)) (mempool s3)"
    by (rule removeUserOp_op [OF w3(1) n3])
  have "rep_wf s2" using w1(4) rp2 by (simp add: rep_part_def rep_wf_def)
  moreover have "params s2 = BundlerReputationParams" "whitelist s2 = whitelist s"
    using rp2 f1 assms(4) by (simp_all add: rep_part_def pool_frame_def)
  ultimately have "getStatus (Some a) s3 = BANNED"
    using crashed_status [of s2 a 0] assms(5) by (simp add: s3_def)
  moreover have "rep_part t = rep_part s3" using rep_part_removals(1) [of "ByOp ?op" s3] t(1) by simp
  ultimately have banned: "getStatus (Some a) t = BANNED"
    using getStatus_cong [of t s3] by (simp add: rep_part_def)
  have "sendBundle C cfg ops tuples benef sm s = (Inr None, t)"
    using assms(6-9) s2(1) t(1)
    by (simp add: sendBundle_def blame_failed_op_def monad_simps s1_def s3_def)
  then show ?thesis
    using banned t(2) w3(2) s2(2) w1(2) l(1) by (auto simp: pool_key_def intro!: filter_cong)
qed

lemma failed_bundle_bans_entity_witness:
  "case sendBundle env_example cfg_example [op_example ''0xA'', op_example ''0xB''] [] ''0xBenef'' [] bundle_pool of
     (res, t) \<Rightarrow> res = Inr None \<and> getStatus (Some pm_example) t = BANNED \<and> mempool t = []"
proof -
  let ?err = "JsError (''execution reverted: FailedOp(0,'' @ dq @ ''AA33 reverted'' @ dq @ '')'') None"
  let ?ops = "[op_example ''0xA'', op_example ''0xB'']"
  have c1: "distinct (map userOpHash (mempool bundle_pool))" by simp
  have c2: "submit_bundle env_example cfg_example ?ops [] ''0xBenef'' [] = Inl ?err"
    by (simp add: submit_bundle_def env_example_def cfg_example_def)
  have c3: "parseFailedOpRevert env_example ?err = Inr (Some (int 0), Some ''AA33 reverted'')" by code_simp
  have c4: "findEntityToBlame env_example ''AA33 reverted'' (?ops ! 0) bundle_pool = Inr (Some pm_example)" by code_simp
  have c5: "getPackedNonce (lib bundle_pool) (?ops ! 0) = Inr 0" by simp
  have c6: "toLowerCase pm_example \<notin> whitelist bundle_pool" by simp
  have c7: "params bundle_pool = BundlerReputationParams" by simp
  have c8: "list_all (mentions pm_example) (mempool bundle_pool)" by (simp add: mentions_def)
  have "0 < length ?ops" by simp
  from failed_bundle_bans_entity [OF bundle_pool_wf(1) c1 bundle_pool_wf(2) c7 c6 c2 c3 this c4 c5] c8 show ?thesis
    by (auto simp: list_all_iff case_prod_beta filter_empty_conv)
qed

text \<open>The second validation undoes the seen counters of an operation even when no entity is
  to blame: the guard that should prevent it compares with \<^verbatim>\<open>null\<close>, and an empty blame is
  \<^verbatim>\<open>undefined\<close>. The operation leaves the pool and nobody is charged for it.\<close>

theorem unblamed_failure_undoes_seen:
  assumes "pool_wf s" and "getPackedNonce (lib s) (userOp e) = Inr n"
    and "parseFailedOpRevert C err = Inr (Some i, Some r)"
    and "findEntityToBlame C r (userOp e) s = Inr None"
  shows "case handleSecondValidationException C err e s of (res, t) \<Rightarrow> res = Inr ()
    \<and> entries t = entries (undo_seen (userOp e) s)
    \<and> mempool t = filter (\<lambda>x. (sender (userOp x), getPackedNonce (lib s) (userOp x)) \<noteq> (sender (userOp e), Inr n)) (mempool s)"
proof -
  define s1 where "s1 = undo_seen (userOp e) s"
  have f1: "pool_frame s s1" unfolding s1_def by (rule pool_frame_undo_seen)
  have w1: "pool_wf s1" "getPackedNonce (lib s1) (userOp e) = Inr n" "mempool s1 = mempool s" "lib s1 = lib s"
    using assms(1,2) pool_frame_wf [OF f1] f1 by (simp_all add: pool_frame_def)
  obtain t where t: "removeUserOp (ByOp (userOp e)) s1 = (Inr (), t)"
      "mempool t = filter (\<lambda>x. pool_key (lib s1) x \<noteq> (sender (userOp e), Inr n)) (mempool s1)"
    by (rule removeUserOp_op [OF w1(1,2)])
  have "entries t = entries s1" using removeUserOp_frame(2) [of "ByOp (userOp e)" s1] t(1) by simp
  moreover have "handleSecondValidationException C err e s = (Inr (), t)"
    using assms(3,4) t(1) by (simp add: handleSecondValidationException_def monad_simps s1_def)
  ultimately show ?thesis using t(2) w1(3,4) by (simp add: s1_def pool_key_def)
qed

lemma unblamed_failure_undoes_seen_witness:
  "let e = hd (mempool bundle_pool);
       err = JsError (''FailedOp(0,'' @ dq @ ''AA95 out of gas'' @ dq @ '')'') None
   in entries (snd (handleSecondValidationException env_example err e bundle_pool)) = entries (undo_seen (userOp e) bundle_pool)"
proof -
  let ?e = "hd (mempool bundle_pool)" and ?err = "JsError (''FailedOp(0,'' @ dq @ ''AA95 out of gas'' @ dq @ '')'') None"
  have "getPackedNonce (lib bundle_pool) (userOp ?e) = Inr 0"
    "parseFailedOpRevert env_example ?err = Inr (Some 0, Some ''AA95 out of gas'')"
    "findEntityToBlame env_example ''AA95 out of gas'' (userOp ?e) bundle_pool = Inr None"
    by code_simp+
  from unblamed_failure_undoes_seen [OF bundle_pool_wf(1) this] show ?thesis by (simp add: Let_def case_prod_beta)
qed

text \<open>The price in a delegating (EIP-7702) bundle transaction: the maximum fee is filled in
  from the maximum priority fee, so whatever fee cap the network data suggested is ignored.\<close>

theorem eip7702_tx_ignores_max_fee:
  "prepareEip7702Transaction C (tx\<lparr>tx_maxFeePerGas := f\<rparr>) tuples = prepareEip7702Transaction C tx tuples"
  by (simp add: prepareEip7702Transaction_def)

text \<open>An operation whose paymaster is throttled is never put into a bundle, not even the
  first one: the count of operations that should be allowed per bundle is never consulted.\<close>

theorem throttled_never_bundled:
  assumes "paymaster (userOp e) = Some a" and "getStatus (Some a) s = THROTTLED"
    and "bundle_step C cfg lim known n e (s, acc) = (r, (s', acc'))"
  shows "acc' = acc"
  using bundle_step_cases [OF assms(3)] assms(1,2) by auto

lemma throttled_never_bundled_witness:
  "let s = put_entry pm_example \<lparr>rep_address = pm_example, opsSeen = 250, opsIncluded = 0, rep_status = None\<rparr> bundle_pool in
     getStatus (Some pm_example) s = THROTTLED \<and>
     snd (snd (bundle_step env_example cfg_example lim_example [] 3 (hd (mempool bundle_pool)) (s, init_acc))) = init_acc"
proof -
  let ?s = "put_entry pm_example \<lparr>rep_address = pm_example, opsSeen = 250, opsIncluded = 0, rep_status = None\<rparr> bundle_pool"
  have "paymaster (userOp (hd (mempool bundle_pool))) = Some pm_example" and t: "getStatus (Some pm_example) ?s = THROTTLED"
    by code_simp+
  then show ?thesis
    using throttled_never_bundled [of "hd (mempool bundle_pool)" pm_example ?s] by (metis prod.collapse)
qed

text \<open>An error of the account is recognised after any text; that of a paymaster is not taken for one.\<close>

lemma account_error_text:
  "isAccountOrFactoryError (RpcError (pre @ ''FailedOpWithRevert(0,'' @ dq @ ''AA23 reverted'') (error_code SimulateValidation) [])"
  "\<not> match_account_error_at (''FailedOpWithRevert(0,'' @ dq @ ''AA33 reverted'')"
  "\<not> isAccountOrFactoryError (JsError m c)"
proof -
  let ?t = "''FailedOpWithRevert(0,'' @ dq @ ''AA23 reverted''"
  have "match_account_error_at (drop (length pre) (pre @ ?t))"
    by (simp add: match_account_error_at_def startsWith_def dq_def digit_char_def)
  then have "\<exists>i\<in>set [0..<length (pre @ ?t)]. match_account_error_at (drop i (pre @ ?t))"
    by (intro bexI [of _ "length pre"]) simp_all
  then show "isAccountOrFactoryError (RpcError (pre @ ?t) (error_code SimulateValidation) [])"
    by (simp only: isAccountOrFactoryError_def js_error.case list_ex_iff simp_thms)
  show "\<not> match_account_error_at (''FailedOpWithRevert(0,'' @ dq @ ''AA33 reverted'')"
    by (simp add: match_account_error_at_def startsWith_def dq_def digit_char_def)
  show "\<not> isAccountOrFactoryError (JsError m c)" by (simp add: isAccountOrFactoryError_def)
qed

end
