(* ===== verification/BundleManagerRIP7560.thy ===== *)
theory BundleManagerRIP7560
  imports BundleManager
begin

text \<open>
  \<^verbatim>\<open>packages/bundler/src/modules/BundleManagerRIP7560.ts\<close> and the transaction hash of
  \<^verbatim>\<open>packages/utils/src/RIP7560Utils.ts\<close>: bundles of native account-abstraction
  transactions, which the node executes and whose status is polled. Number rendering,
  buffers, RLP and keccak are the fields of \<open>rip_lib\<close>.
\<close>

section \<open>Transaction hash\<close>

definition RIP7560_TRANSACTION_TYPE :: int where "RIP7560_TRANSACTION_TYPE = 5"

record rip_lib =
  rl_toHexString :: "int \<Rightarrow> string"
    \<comment> \<open>\<^verbatim>\<open>BigNumber.toHexString\<close>\<close>
  rl_toBuffer :: "string option \<Rightarrow> string res"
    \<comment> \<open>\<^verbatim>\<open>toBuffer\<close>: the hex digits of the bytes\<close>
  rl_encode :: "string option list \<Rightarrow> string"
    \<comment> \<open>RLP of a list of buffers, \<open>None\<close> for the empty list, as hex digits\<close>
  rl_byte :: "int \<Rightarrow> string"
    \<comment> \<open>a byte as two hex digits\<close>
  rl_keccak :: "string \<Rightarrow> string"

definition bigNumberishToUnpaddedBuffer :: "rip_lib \<Rightarrow> int \<Rightarrow> string" where
  "bigNumberishToUnpaddedBuffer R value = (let b = rl_toHexString R value in if b = ''0x00'' then [] else drop 2 b)"

definition nonZeroAddr :: "rip_lib \<Rightarrow> string option \<Rightarrow> string res" where
  "nonZeroAddr R a = (if a = None \<or> a = Some AddressZero then Inr [] else rl_toBuffer R a)"

text \<open>\<^verbatim>\<open>BigNumber.from\<close> of an absent number throws.\<close>

definition required :: "int option \<Rightarrow> int res" where
  "required x = (case x of None \<Rightarrow> Inl (JsError ''invalid BigNumber value'' None) | Some v \<Rightarrow> Inr v)"

definition rlpEncodeRip7560Tx :: "rip_lib \<Rightarrow> operation \<Rightarrow> string res" where
  "rlpEncodeRip7560Tx R op =
     (let num = bigNumberishToUnpaddedBuffer R in
      bindE (required (op_chainId op)) (\<lambda>chain.
      bindE (nonZeroAddr R (Some (sender op))) (\<lambda>snd'.
      bindE (rl_toBuffer R (authorizationData op)) (\<lambda>authData.
      bindE (rl_toBuffer R (executionData op)) (\<lambda>execData.
      bindE (nonZeroAddr R (paymaster op)) (\<lambda>pm.
      bindE (rl_toBuffer R (paymasterData op)) (\<lambda>pmData.
      bindE (nonZeroAddr R (factory op)) (\<lambda>fct.
      bindE (rl_toBuffer R (factoryData op)) (\<lambda>fctData.
      bindE (required (builderFee op)) (\<lambda>fee.
      bindE (required (nonceKey op)) (\<lambda>key.
      (let input = [Some (num chain), Some (num (nonce op)), Some (num (maxPriorityFeePerGas op)),
             Some (num (maxFeePerGas op)), Some (num (callGasLimit op)), None, Some snd', Some authData, Some execData,
             Some pm, Some pmData, Some fct, Some fctData, Some (num fee), Some (num (verificationGasLimit op)),
             Some (num (or_else (paymasterVerificationGasLimit op) 0)),
             Some (num (or_else (paymasterPostOpGasLimit op) 0)), Some (num key)]
       in Inr (''0x'' @ rl_byte R RIP7560_TRANSACTION_TYPE @ rl_encode R input)))))))))))))"

definition getRIP7560TransactionHash :: "rip_lib \<Rightarrow> operation \<Rightarrow> bool \<Rightarrow> string res" where
  "getRIP7560TransactionHash R op forSignature =
     (if \<not> forSignature then Inl (JsError ''not implemented'' None)
      else bindE (rlpEncodeRip7560Tx R op) (\<lambda>rlpEncoded. Inr (rl_keccak R rlpEncoded)))"

section \<open>State and operations\<close>

record rip_state = deposit_state +
  sentBundles :: "send_bundle_return list"

definition computeBundleHash :: "rip_lib \<Rightarrow> operation list \<Rightarrow> string res" where
  "computeBundleHash R userOps =
     bindE (mapE (\<lambda>op. getRIP7560TransactionHash R op True) userOps) (\<lambda>txids.
     Inr (rl_keccak R (rl_encode R (map Some txids))))"

text \<open>The loop over the sent bundles: it removes their operations and collects the hashes of the finished ones.\<close>

fun rip_scan :: "(string \<Rightarrow> bool res) \<Rightarrow> send_bundle_return list \<Rightarrow> ('z pool_state_scheme, string list) act" where
  "rip_scan bundleStatus [] = retM []"
| "rip_scan bundleStatus (b # bs) =
     bindM (liftE (bundleStatus (sb_transactionHash b))) (\<lambda>found.
     thenM (forM (sb_userOpHashes b) (\<lambda>h. removeUserOp (ByHash h)))
     (bindM (rip_scan bundleStatus bs) (\<lambda>clear.
      retM (if found then sb_transactionHash b # clear else clear))))"

definition rip_handlePastEvents :: "(string \<Rightarrow> bool res) \<Rightarrow> ('z rip_state_scheme, unit) act" where
  "rip_handlePastEvents bundleStatus =
     bindM (getM sentBundles) (\<lambda>bs.
     bindM (rip_scan bundleStatus bs) (\<lambda>bundlesToClear.
     modifyM (\<lambda>s. s\<lparr>sentBundles := foldl (\<lambda>sent bundleId. filter (\<lambda>it. sb_transactionHash it \<noteq> bundleId) sent)
       (sentBundles s) bundlesToClear\<rparr>)))"

definition rip_push_sent :: "string \<Rightarrow> string list \<Rightarrow> 'z rip_state_scheme \<Rightarrow> 'z rip_state_scheme" where
  "rip_push_sent txh hs s = s\<lparr>sentBundles := sentBundles s @ [\<lparr>sb_transactionHash = txh, sb_userOpHashes = hs\<rparr>]\<rparr>"

definition rip_createBundle ::
  "rip_lib \<Rightarrow> chain_env \<Rightarrow> bundle_config \<Rightarrow> bundle_limits \<Rightarrow>
     ('z rip_state_scheme, operation list \<times> authorization list \<times> storage_map) act" where
  "rip_createBundle R C cfg lim =
     bindM (createBundle C cfg lim) (\<lambda>(b, _, sm).
       if b = [] then retM ([], [], [])
       else
         bindM (liftE (computeBundleHash R b)) (\<lambda>bundleHash.
         bindM (liftE (mapE (\<lambda>op. getRIP7560TransactionHash R op True) b)) (\<lambda>hashes.
         thenM (modifyM (rip_push_sent bundleHash hashes))
         (retM (b, [], sm)))))"

definition rip_sendBundle ::
  "rip_lib \<Rightarrow> int res \<Rightarrow> (operation list \<Rightarrow> int \<Rightarrow> string \<Rightarrow> string res) \<Rightarrow> operation list \<Rightarrow>
     ('z rip_state_scheme, string) act" where
  "rip_sendBundle R getBlockNumber sendTransactionsBundle userOps =
     bindM (liftE getBlockNumber) (\<lambda>creationBlock.
     bindM (liftE (mapE (\<lambda>op. getRIP7560TransactionHash R op True) userOps)) (\<lambda>hashes.
     bindM (liftE (sendTransactionsBundle userOps (creationBlock + 1) ''www.reference-bundler.fake'')) (\<lambda>bundleHash.
     thenM (modifyM (rip_push_sent bundleHash hashes))
     (retM bundleHash))))"

definition rip_sendNextBundle ::
  "rip_lib \<Rightarrow> chain_env \<Rightarrow> bundle_config \<Rightarrow> (string \<Rightarrow> bool res) \<Rightarrow> int res \<Rightarrow>
     (operation list \<Rightarrow> int \<Rightarrow> string \<Rightarrow> string res) \<Rightarrow> ('z rip_state_scheme, string option) act" where
  "rip_sendNextBundle R C cfg bundleStatus getBlockNumber sendTransactionsBundle =
     thenM (rip_handlePastEvents bundleStatus)
     (bindM (rip_createBundle R C cfg \<lparr>lim_minBaseFee = Some 0, lim_maxBundleGas = Some 0, lim_maxBundleSize = Some 0\<rparr>)
        (\<lambda>(b, _, _).
          if b = [] then retM None
          else bindM (rip_sendBundle R getBlockNumber sendTransactionsBundle b) (\<lambda>h. retM (Some h))))"

section \<open>Polling\<close>

lemma fold_filter_clear:
  "foldl (\<lambda>sent i. filter (\<lambda>it. f it \<noteq> i) sent) xs is = filter (\<lambda>it. f it \<notin> set is) xs"
proof (induction "is" arbitrary: xs)
  case (Cons i "is")
  have "filter (\<lambda>it. f it \<notin> set is) (filter (\<lambda>it. f it \<noteq> i) xs) = filter (\<lambda>it. f it \<notin> set (i # is)) xs"
    by (auto intro: filter_cong)
  then show ?case using Cons.IH by simp
qed simp

lemma removeHashes:
  assumes "pool_wf s" and "distinct (map userOpHash (mempool s))"
  shows "\<exists>t. forM hs (\<lambda>h. removeUserOp (ByHash h)) s = (Inr (), t) \<and> pool_wf t
    \<and> mempool t = filter (\<lambda>e. userOpHash e \<notin> set hs) (mempool s) \<and> pool_state.more t = pool_state.more s"
  using assms
proof (induction hs arbitrary: s)
  case (Cons h hs)
  obtain u where u: "removeUserOp (ByHash h) s = (Inr (), u)"
    using removeUserOp_hash(1) [OF Cons.prems, of h] by (metis prod.collapse)
  have mu: "mempool u = filter (\<lambda>e. userOpHash e \<noteq> h) (mempool s)" "pool_state.more u = pool_state.more s"
    using removeUserOp_hash(2) [OF Cons.prems, of h] removeUserOp_frame(6) [of "ByHash h" s] u by simp_all
  have "pool_wf u" using keepsD [OF keeps_removals(1) Cons.prems(1), of "ByHash h"] u by simp
  moreover have "distinct (map userOpHash (mempool u))" using Cons.prems(2) by (simp add: mu distinct_map_filter)
  ultimately obtain t where "forM hs (\<lambda>h. removeUserOp (ByHash h)) u = (Inr (), t)" "pool_wf t"
      "mempool t = filter (\<lambda>e. userOpHash e \<notin> set hs) (mempool u)" "pool_state.more t = pool_state.more u"
    using Cons.IH by blast
  then show ?case using u mu by (auto simp: monad_simps intro!: filter_cong)
qed (simp add: monad_simps)

lemma rip_scan_ok:
  assumes "pool_wf s" and "distinct (map userOpHash (mempool s))"
    and "\<forall>b\<in>set bs. \<exists>r. status (sb_transactionHash b) = Inr r"
  shows "\<exists>t. rip_scan status bs s = (Inr (map sb_transactionHash (filter (\<lambda>b. status (sb_transactionHash b) = Inr True) bs)), t)
    \<and> mempool t = filter (\<lambda>e. userOpHash e \<notin> set (concat (map sb_userOpHashes bs))) (mempool s)
    \<and> pool_state.more t = pool_state.more s"
  using assms
proof (induction bs arbitrary: s)
  case (Cons b bs)
  obtain r where r: "status (sb_transactionHash b) = Inr r" using Cons.prems(3) by auto
  obtain u where u: "forM (sb_userOpHashes b) (\<lambda>h. removeUserOp (ByHash h)) s = (Inr (), u)" "pool_wf u"
      "mempool u = filter (\<lambda>e. userOpHash e \<notin> set (sb_userOpHashes b)) (mempool s)" "pool_state.more u = pool_state.more s"
    using removeHashes [OF Cons.prems(1,2)] by blast
  have "distinct (map userOpHash (mempool u))" using Cons.prems(2) by (simp add: u(3) distinct_map_filter)
  with u(2) Cons.prems(3) obtain t where t:
    "rip_scan status bs u = (Inr (map sb_transactionHash (filter (\<lambda>b. status (sb_transactionHash b) = Inr True) bs)), t)"
    "mempool t = filter (\<lambda>e. userOpHash e \<notin> set (concat (map sb_userOpHashes bs))) (mempool u)"
    "pool_state.more t = pool_state.more u"
    using Cons.IH [of u] by auto
  have "rip_scan status (b # bs) s =
      (Inr (map sb_transactionHash (filter (\<lambda>b. status (sb_transactionHash b) = Inr True) (b # bs))), t)"
    by (cases r) (simp_all add: monad_simps r u(1) t(1))
  moreover have "mempool t = filter (\<lambda>e. userOpHash e \<notin> set (concat (map sb_userOpHashes (b # bs)))) (mempool s)"
    unfolding t(2) u(3) filter_filter by (rule filter_cong) auto
  ultimately show ?case using t(3) u(4) by (intro exI [of _ t]) simp
qed (simp add: monad_simps)

lemma more_sent:
  fixes s t :: "'z rip_state_scheme"
  shows "pool_state.more t = pool_state.more s \<Longrightarrow> sentBundles t = sentBundles s"
  by (cases s; cases t) simp

lemma finished_iff:
  assumes "\<forall>b\<in>A. \<exists>r. f (g b) = Inr r" and "b \<in> A"
  shows "g b \<notin> g ` {b \<in> A. f (g b) = Inr True} \<longleftrightarrow> f (g b) = Inr False"
proof -
  obtain r where "f (g b) = Inr r" using assms by blast
  then show ?thesis using assms(2) by (cases r) (auto simp: image_iff)
qed

text \<open>A poll of the sent bundles takes the operations of every one of them out of the pool,
  finished or not, and forgets exactly the bundles the node has a status for.\<close>

theorem rip_poll_effect:
  assumes "pool_wf s" and "distinct (map userOpHash (mempool s))"
    and "\<forall>b\<in>set (sentBundles s). \<exists>r. status (sb_transactionHash b) = Inr r"
  shows "case rip_handlePastEvents status s of (r, t) \<Rightarrow> r = Inr ()
    \<and> mempool t = filter (\<lambda>e. \<forall>b\<in>set (sentBundles s). userOpHash e \<notin> set (sb_userOpHashes b)) (mempool s)
    \<and> sentBundles t = filter (\<lambda>b. status (sb_transactionHash b) = Inr False) (sentBundles s)"
proof -
  from rip_scan_ok [OF assms] obtain t where t: "rip_scan status (sentBundles s) s =
      (Inr (map sb_transactionHash (filter (\<lambda>b. status (sb_transactionHash b) = Inr True) (sentBundles s))), t)"
    "mempool t = filter (\<lambda>e. userOpHash e \<notin> set (concat (map sb_userOpHashes (sentBundles s)))) (mempool s)"
    "pool_state.more t = pool_state.more s"
    by (elim exE conjE)
  have "sb_transactionHash b \<notin> sb_transactionHash ` {b \<in> set (sentBundles s). status (sb_transactionHash b) = Inr True}
      \<longleftrightarrow> status (sb_transactionHash b) = Inr False" if "b \<in> set (sentBundles s)" for b
    using finished_iff [where f = status and g = sb_transactionHash, OF assms(3) that] .
  then have "filter (\<lambda>b. sb_transactionHash b \<notin> set (map sb_transactionHash (filter (\<lambda>b. status (sb_transactionHash b) = Inr True) (sentBundles s))))
      (sentBundles s) = filter (\<lambda>b. status (sb_transactionHash b) = Inr False) (sentBundles s)"
    by (intro filter_cong) simp_all
  moreover have "filter (\<lambda>e. userOpHash e \<notin> set (concat (map sb_userOpHashes (sentBundles s)))) (mempool s) =
      filter (\<lambda>e. \<forall>b\<in>set (sentBundles s). userOpHash e \<notin> set (sb_userOpHashes b)) (mempool s)"
    by (intro filter_cong) simp_all
  ultimately show ?thesis
    by (simp only: rip_handlePastEvents_def monad_simps prod.case sum.case t(1) fold_filter_clear t(2) more_sent [OF t(3)])
      (simp add: t(2))
qed

definition rip_example :: rip_state where
  "rip_example = deposit_state.extend (deposit_state.truncate deposit_example)
     \<lparr>sentBundles = [\<lparr>sb_transactionHash = ''b1'', sb_userOpHashes = [''h0'']\<rparr>, \<lparr>sb_transactionHash = ''b2'', sb_userOpHashes = []\<rparr>]\<rparr>"

lemma rip_poll_effect_witness:
  "let s = snd (addUserOp True (base_op ''0xA'' 0) ''h0'' EmptyValidateUserOpResult rip_example);
       t = snd (rip_handlePastEvents (\<lambda>h. Inr (h = ''b2'')) s) in
   mempool t = [] \<and> map sb_transactionHash (sentBundles t) = [''b1'']"
proof -
  let ?s = "snd (addUserOp True (base_op ''0xA'' 0) ''h0'' EmptyValidateUserOpResult rip_example)"
  have "mempool rip_example = []" by code_simp
  then have "pool_wf ?s" by (intro pool_wf_addUserOp) (simp add: pool_wf_def)
  moreover have "distinct (map userOpHash (mempool ?s))" by code_simp
  moreover have "map userOpHash (mempool ?s) = [''h0'']"
      "sentBundles ?s = [\<lparr>sb_transactionHash = ''b1'', sb_userOpHashes = [''h0'']\<rparr>, \<lparr>sb_transactionHash = ''b2'', sb_userOpHashes = []\<rparr>]"
    by code_simp+
  ultimately show ?thesis
    using rip_poll_effect [of ?s "\<lambda>h. Inr (h = ''b2'')"]
    by (auto simp: Let_def case_prod_beta filter_empty_conv map_eq_Cons_conv)
qed

text \<open>Sending a native bundle records it twice: once under the hash the bundler computes when
  it creates the bundle, and once under the hash the node returns.\<close>

theorem rip_bundle_recorded_twice:
  assumes "rip_sendNextBundle R C cfg status bn send s = (Inr (Some h), t)"
  shows "\<exists>b h' hs u. createBundle C cfg \<lparr>lim_minBaseFee = Some 0, lim_maxBundleGas = Some 0, lim_maxBundleSize = Some 0\<rparr>
           (snd (rip_handlePastEvents status s)) = (Inr b, u)
    \<and> computeBundleHash R (fst b) = Inr h' \<and> mapE (\<lambda>op. getRIP7560TransactionHash R op True) (fst b) = Inr hs
    \<and> sentBundles t = sentBundles u @ [\<lparr>sb_transactionHash = h', sb_userOpHashes = hs\<rparr>, \<lparr>sb_transactionHash = h, sb_userOpHashes = hs\<rparr>]"
  using assms
  by (auto simp: rip_sendNextBundle_def rip_createBundle_def rip_sendBundle_def rip_push_sent_def monad_simps
      split: prod.splits sum.splits if_splits)

definition rip_lib_example :: rip_lib where
  "rip_lib_example = \<lparr>rl_toHexString = (\<lambda>i. ''0x'' @ show_int i), rl_toBuffer = (\<lambda>x. Inr (drop 2 (or_else x ''0x''))),
     rl_encode = (\<lambda>xs. concat (map (\<lambda>x. or_else x ''c0'') xs)), rl_byte = show_int, rl_keccak = (\<lambda>s. s)\<rparr>"

definition rip_op_example :: operation where
  "rip_op_example = base_op ''0xA'' 0\<lparr>op_chainId := Some 1, builderFee := Some 0, nonceKey := Some 0\<rparr>"

lemma rip_bundle_recorded_twice_witness:
  "let s = snd (addUserOp True rip_op_example ''h0'' EmptyValidateUserOpResult rip_example);
       t = snd (rip_sendNextBundle rip_lib_example env_example cfg_example (\<lambda>h. Inr (h = ''b2'')) (Inr 5) (\<lambda>ops n i. Inr ''0xnode'')
             (s\<lparr>sentBundles := []\<rparr>))
   in 2 \<le> length (sentBundles t)"
proof -
  let ?s = "(snd (addUserOp True rip_op_example ''h0'' EmptyValidateUserOpResult rip_example))\<lparr>sentBundles := []\<rparr>"
  let ?r = "rip_sendNextBundle rip_lib_example env_example cfg_example (\<lambda>h. Inr (h = ''b2'')) (Inr 5) (\<lambda>ops n i. Inr ''0xnode'') ?s"
  have "fst ?r = Inr (Some ''0xnode'')" by code_simp
  then have "?r = (Inr (Some ''0xnode''), snd ?r)" by (metis prod.collapse)
  then have "\<exists>(u :: rip_state) h' hs. sentBundles (snd ?r) = sentBundles u @
      [\<lparr>sb_transactionHash = h', sb_userOpHashes = hs\<rparr>, \<lparr>sb_transactionHash = ''0xnode'', sb_userOpHashes = hs\<rparr>]"
    using rip_bundle_recorded_twice by blast
  then show ?thesis by (auto simp: Let_def)
qed

end
