(* ===== verification/ExecutionManager.thy ===== *)
theory ExecutionManager
  imports BundleManagerRIP7560
begin

text \<open>
  \<^verbatim>\<open>packages/bundler/src/modules/ExecutionManager.ts\<close>: the entrance of an operation into the
  bundler, automatic bundling, and the timers. The bundle manager and the validation
  manager are the interfaces \<^verbatim>\<open>IBundleManager\<close> and \<^verbatim>\<open>IValidationManager\<close>, records of
  actions here; the mutex is implicit, because an action runs without interruption.
\<close>

section \<open>State and interfaces\<close>

record exec_state = rip_state +
  reputationCron :: "int option"
  autoBundleInterval :: "int option"
  maxMempoolSize :: int
  autoInterval :: int

record ('s, 'r) bundle_manager =
  bm_sendNextBundle :: "('s, 'r option) act"
  bm_handlePastEvents :: "('s, unit) act"
  bm_createBundle :: "bundle_limits \<Rightarrow> ('s, operation list \<times> authorization list \<times> storage_map) act"

record validation_manager =
  vm_validateInputParameters :: "operation \<Rightarrow> string \<Rightarrow> unit res"
  vm_validateUserOp :: "operation \<Rightarrow> validate_user_op_result res"
  vm_getOperationHash :: "operation \<Rightarrow> string res"

record exec_config =
  rip7560 :: bool
  useRip7560Mode :: "string option"
  gethDevMode :: bool
  signer_send_wei :: "string res"
    \<comment> \<open>the hash of the one-wei transaction\<close>
  receipt_seen :: "string \<Rightarrow> nat \<Rightarrow> bool res"
    \<comment> \<open>whether the \<open>i\<close>-th poll finds a receipt\<close>

section \<open>Operations\<close>

text \<open>The polling loop: it ends, because it throws after the poll with \<^verbatim>\<open>i > 20\<close>.\<close>

function wait_receipt :: "exec_config \<Rightarrow> string \<Rightarrow> nat \<Rightarrow> unit res" where
  "wait_receipt ec h i =
     bindE (receipt_seen ec h i) (\<lambda>found.
       if found then Inr ()
       else if i > 20 then Inl (JsError ''timed out waiting for transaction'' None)
       else wait_receipt ec h (i + 1))"
  by pat_completeness auto

termination wait_receipt
  by (relation "measure (\<lambda>(ec, h, i). 22 - i)") auto

declare wait_receipt.simps [simp del]

definition attemptBundle ::
  "exec_config \<Rightarrow> ('z exec_state_scheme, 'r) bundle_manager \<Rightarrow> bool \<Rightarrow> ('z exec_state_scheme, 'r option) act" where
  "attemptBundle ec bm force =
     (if rip7560 ec \<and> useRip7560Mode ec = Some ''PULL'' \<and> gethDevMode ec \<and> force then
        bindM (liftE (signer_send_wei ec)) (\<lambda>h.
        thenM (liftE (wait_receipt ec h 0))
        (thenM (bm_handlePastEvents bm)
        (retM None)))
      else
        bindM (getM (\<lambda>s. (int (pool_count s), maxMempoolSize s))) (\<lambda>(cnt, maxSize).
        if force \<or> cnt \<ge> maxSize then
          bindM (bm_sendNextBundle bm) (\<lambda>ret.
          bindM (getM maxMempoolSize) (\<lambda>maxSize'.
          thenM (if maxSize' = 0 then bm_handlePastEvents bm else retM ())
          (thenM (modifyM clearCache)
          (retM ret))))
        else retM None))"

definition sendUserOperation ::
  "exec_config \<Rightarrow> ('z exec_state_scheme, 'r) bundle_manager \<Rightarrow> validation_manager \<Rightarrow> (string \<Rightarrow> int res) \<Rightarrow>
     operation \<Rightarrow> string \<Rightarrow> bool \<Rightarrow> ('z exec_state_scheme, unit) act" where
  "sendUserOperation ec bm vm getPaymasterBalance op entryPointInput skip =
     thenM (liftE (vm_validateInputParameters vm op entryPointInput))
     (bindM (if \<not> skip then liftE (vm_validateUserOp vm op) else retM EmptyValidateUserOpResult) (\<lambda>validationResult.
      bindM (liftE (vm_getOperationHash vm op)) (\<lambda>opHash.
      thenM (checkPaymasterDeposit getPaymasterBalance op)
      (thenM (addUserOp skip op opHash validationResult)
      (if \<not> rip7560 ec \<or> (rip7560 ec \<and> useRip7560Mode ec = Some ''PUSH'')
       then bindM (attemptBundle ec bm False) (\<lambda>_. retM ())
       else retM ())))))"

definition setReputationCron :: "int \<Rightarrow> 'z exec_state_scheme \<Rightarrow> 'z exec_state_scheme" where
  "setReputationCron interval s =
     (let s1 = s\<lparr>reputationCron := None\<rparr> in
      if interval \<noteq> 0 then s1\<lparr>reputationCron := Some interval\<rparr> else s1)"

definition setAutoBundler :: "int \<Rightarrow> int \<Rightarrow> 'z exec_state_scheme \<Rightarrow> 'z exec_state_scheme" where
  "setAutoBundler interval maxSize s =
     (let s1 = s\<lparr>autoBundleInterval := None, autoInterval := interval\<rparr>;
          s2 = (if interval \<noteq> 0 then s1\<lparr>autoBundleInterval := Some (interval * 1000)\<rparr> else s1)
      in s2\<lparr>maxMempoolSize := maxSize\<rparr>)"

definition exec_createBundle ::
  "('z exec_state_scheme, 'r) bundle_manager \<Rightarrow> bundle_limits \<Rightarrow>
     ('z exec_state_scheme, operation list \<times> authorization list \<times> storage_map) act" where
  "exec_createBundle bm lim = bm_createBundle bm lim"

section \<open>The contract of a bundle manager\<close>

text \<open>
  What the execution manager relies on: whatever a bundle manager does, thrown errors
  included, the pool and the reputation table stay well formed.
\<close>

definition sys_wf :: "'z pool_state_scheme \<Rightarrow> bool" where
  "sys_wf s \<longleftrightarrow> pool_wf s \<and> rep_wf s"

locale bundle_service =
  fixes next_bundle :: "('s, 'r option) act"
    and past_events :: "('s, unit) act"
    and wf :: "'s \<Rightarrow> bool"
  assumes next_keeps: "keeps wf next_bundle"
    and past_keeps: "keeps wf past_events"
begin

lemma flush_keeps: "keeps wf (bindM next_bundle (\<lambda>r. thenM (if c then past_events else retM ()) (retM r)))"
  by (intro keeps_intros next_keeps past_keeps)

lemma bundling_keeps:
  assumes "\<And>s. wf s \<Longrightarrow> wf (clear s)"
  shows "keeps wf (bindM next_bundle (\<lambda>r. bindM (getM f) (\<lambda>m.
    thenM (if m = (0::int) then past_events else retM ()) (thenM (modifyM clear) (retM r)))))"
  by (intro keeps_intros next_keeps past_keeps assms)

end

lemma sys_wf_put: "pool_frame s t \<Longrightarrow> rep_wf t \<Longrightarrow> pool_wf s \<Longrightarrow> sys_wf t"
  by (simp add: sys_wf_def pool_frame_wf)

lemma sys_wf_updates:
  assumes "sys_wf s"
  shows "sys_wf (updateSeenStatus a v s)" "sys_wf (updateIncludedStatus b s)" "sys_wf (crashedHandleOps a s)"
    "sys_wf (undo_seen op s)" "sys_wf (includedAddress a s)" "sys_wf (hourlyCron s)"
proof -
  have i: "rep_wf (includedAddress a s)" using assms
    by (auto simp: sys_wf_def includedAddress_def rep_wf_updateIncludedStatus split: option.split)
  show "sys_wf (updateSeenStatus a v s)" "sys_wf (updateIncludedStatus b s)" "sys_wf (crashedHandleOps a s)"
    "sys_wf (undo_seen op s)" "sys_wf (includedAddress a s)" "sys_wf (hourlyCron s)"
    using assms i
    by (auto simp: sys_wf_def rep_wf_updateSeenStatus rep_wf_updateIncludedStatus rep_wf_crashedHandleOps
        rep_wf_undo_seen rep_wf_hourlyCron pool_frame_wf [OF pool_frame_reputation(1)]
        pool_frame_wf [OF pool_frame_reputation(2)] pool_frame_wf [OF pool_frame_reputation(3)]
        pool_frame_wf [OF pool_frame_reputation(4)] pool_frame_wf [OF pool_frame_undo_seen]
        pool_frame_wf [OF pool_frame_included])
qed

lemma rep_wf_rep_part: "rep_part t = rep_part s \<Longrightarrow> rep_wf t \<longleftrightarrow> rep_wf s"
  by (simp add: rep_part_def rep_wf_def)

lemma keeps_sys_wf: "keeps pool_wf m \<Longrightarrow> keeps rep_wf m \<Longrightarrow> keeps sys_wf m"
  unfolding sys_wf_def [abs_def] by (rule keeps_conj)

lemma sys_wf_removals:
  "keeps sys_wf (removeUserOp w)" "keeps sys_wf (removeBannedAddr a)"
  by (intro keeps_sys_wf keeps_removals keepsI;
      simp add: rep_wf_rep_part [OF rep_part_removals(1)] rep_wf_rep_part [OF rep_part_removals(2)])+

lemma rep_wf_pool_updateSeenStatus: "rep_wf s \<Longrightarrow> rep_wf (snd (pool_updateSeenStatus agg op si v s))"
proof -
  have q: "keeps rep_wf (\<lambda>s. (f s, s))" for f :: "'a pool_state_scheme \<Rightarrow> unit res" by (rule keeps_query)
  have "keeps rep_wf (pool_updateSeenStatus agg op si v :: ('a pool_state_scheme, unit) act)"
    unfolding pool_updateSeenStatus_def
    by (intro keeps_intros q rep_wf_updateSeenStatus) auto
  then show "rep_wf s \<Longrightarrow> ?thesis" by (simp add: keeps_def)
qed

lemma rep_wf_fold_inc: "rep_wf (fold incrementEntryCount xs s) \<longleftrightarrow> rep_wf s"
proof (induction xs arbitrary: s)
  case (Cons x xs)
  have "rep_wf (incrementEntryCount x s) \<longleftrightarrow> rep_wf s"
    by (simp add: incrementEntryCount_def rep_wf_def split: option.split)
  then show ?case using Cons by simp
qed simp

lemma keeps_rep_wf_addUserOp: "keeps rep_wf (addUserOp skip op h vr)"
proof -
  have u: "keeps rep_wf (pool_updateSeenStatus agg op' si v :: ('a pool_state_scheme, unit) act)" for agg op' si v
    by (simp add: keeps_def rep_wf_pool_updateSeenStatus)
  have m: "rep_wf (s\<lparr>mempool := x\<rparr>) \<longleftrightarrow> rep_wf s" for s :: "'a pool_state_scheme" and x
    by (simp add: rep_wf_def)
  have p: "keeps rep_wf (push_entry skip (entry_for skip op h vr) vr :: ('a pool_state_scheme, _) act)"
    by (rule keepsI) (simp add: push_entry_eq m rep_wf_fold_inc split: sum.split)
  have r: "keeps rep_wf (replace_entry i (entry_for skip op h vr) :: ('a pool_state_scheme, _) act)" for i
    by (rule keepsI) (simp add: replace_entry_eq m split: sum.split)
  show ?thesis
    unfolding addUserOp_def entry_for_def [symmetric] Let_def
    by (intro keeps_bindM keeps_thenM keeps_pure keeps_query u) (auto intro: p r u keeps_intros split: option.split)
qed

lemma sys_wf_addUserOp: "keeps sys_wf (addUserOp skip op h vr)"
  by (intro keeps_sys_wf keeps_rep_wf_addUserOp keepsI pool_wf_addUserOp)

section \<open>Both bundle managers fulfil the contract\<close>

lemma sys_wf_frame_more:
  fixes s t :: "'z pool_state_scheme"
  assumes "mempool t = mempool s" and "lib t = lib s" and "entries t = entries s"
  shows "sys_wf t \<longleftrightarrow> sys_wf s"
  using assms by (simp add: sys_wf_def pool_wf_def rep_wf_def)

lemma sys_wf_handleEvent: "keeps sys_wf (handleEvent ev)"
proof -
  have lb: "keeps sys_wf (modifyM (\<lambda>s. s\<lparr>lastBlock := x\<rparr>))" for x
    by (intro keeps_modifyM) (simp add: sys_wf_def pool_wf_def rep_wf_def)
  have agg: "sys_wf (handleAggregatorChangedEvent a tx s)" if "sys_wf s" for a tx and s :: "'a events_state_scheme"
    using that by (simp add: handleAggregatorChangedEvent_def sys_wf_def pool_wf_def rep_wf_def)
  have get: "sys_wf (snd (getEventAggregator tx s))" if "sys_wf s" for tx and s :: "'a events_state_scheme"
    using that by (simp add: getEventAggregator_def Let_def sys_wf_def pool_wf_def rep_wf_def)
  have op: "keeps sys_wf (\<lambda>s :: 'a events_state_scheme. case getEventAggregator tx s of (agg, s') \<Rightarrow> (Inr (), includedAddress agg s'))" for tx
    by (rule keepsI) (simp add: case_prod_beta sys_wf_updates get)
  show ?thesis
    unfolding handleEvent_def handleUserOperationEvent_def handleAccountDeployedEvent_def Let_def
    by (intro keeps_thenM lb) (auto split: event_args.split intro!: keeps_intros sys_wf_removals sys_wf_updates agg op)
qed

lemma sys_wf_handlePastEvents: "keeps sys_wf (handlePastEvents bn q)"
proof -
  have lb: "keeps sys_wf (modifyM (\<lambda>s. s\<lparr>lastBlock := x\<rparr>))" for x
    by (intro keeps_modifyM) (simp add: sys_wf_def pool_wf_def rep_wf_def)
  show ?thesis
    unfolding handlePastEvents_def by (intro keeps_intros lb sys_wf_handleEvent)
qed

lemma sys_wf_handleSecond: "keeps sys_wf (handleSecondValidationException C e entry)"
  unfolding handleSecondValidationException_def
  by (auto split: option.split intro!: keeps_intros sys_wf_removals sys_wf_updates)

lemma sys_wf_bundle_step:
  assumes "bundle_step C cfg lim known n e (s, acc) = (r, (s', acc'))" and "sys_wf s"
  shows "sys_wf s'"
  using assms(1) keeps_res [OF sys_wf_removals(1) assms(2)] keeps_res [OF sys_wf_handleSecond assms(2)] assms(2)
  unfolding bundle_step_def Let_def prod.case
  by (auto split: sum.splits if_splits prod.splits option.splits)

lemma sys_wf_bundle_loop:
  "bundle_loop C cfg lim known n es (s, acc) = (r, (s', acc')) \<Longrightarrow> sys_wf s \<Longrightarrow> sys_wf s'"
proof (induction es arbitrary: s acc)
  case (Cons e es)
  obtain x s1 acc1 where x: "bundle_step C cfg lim known n e (s, acc) = (x, (s1, acc1))" by (metis prod.exhaust)
  then have "sys_wf s1" using Cons.prems(2) by (rule sys_wf_bundle_step)
  then show ?case using Cons x by (auto split: sum.splits loop_ctl.splits)
qed simp

lemma sys_wf_createBundle: "keeps sys_wf (createBundle C cfg lim)"
proof (rule keepsI)
  fix s :: "'a pool_state_scheme" assume s: "sys_wf s"
  show "sys_wf (snd (createBundle C cfg lim s))"
  proof (cases "getSortedForInclusion s")
    case (Inr es)
    obtain r s' acc' where l: "bundle_loop C cfg lim (getKnownSenders s) (length es) es (s, init_acc) = (r, (s', acc'))"
      by (metis prod.exhaust)
    then have "sys_wf s'" using s by (rule sys_wf_bundle_loop)
    then show ?thesis by (cases r) (simp_all add: createBundle_def Inr l)
  qed (use s in \<open>simp add: createBundle_def\<close>)
qed

lemma sys_wf_sendBundle: "keeps sys_wf (sendBundle C cfg ops tuples benef sm)"
  unfolding sendBundle_def blame_failed_op_def
  by (auto split: option.split sum.split intro!: keeps_intros sys_wf_removals sys_wf_updates)

lemma sys_wf_sendNextBundle: "keeps sys_wf (sendNextBundle C cfg bn q)"
  unfolding sendNextBundle_def
  by (auto intro!: keeps_intros sys_wf_handlePastEvents sys_wf_createBundle sys_wf_sendBundle)

lemma sys_wf_rip_handlePastEvents: "keeps sys_wf (rip_handlePastEvents status)"
proof -
  have scan: "keeps sys_wf (rip_scan status bs)" for bs
    by (induction bs) (auto intro!: keeps_intros sys_wf_removals)
  have m: "keeps sys_wf (modifyM (\<lambda>s. s\<lparr>sentBundles := f (sentBundles s)\<rparr>))" for f
    by (intro keeps_modifyM) (simp add: sys_wf_def pool_wf_def rep_wf_def)
  show ?thesis unfolding rip_handlePastEvents_def by (intro keeps_bindM keeps_pure scan m)
qed

lemma sys_wf_rip_sendNextBundle: "keeps sys_wf (rip_sendNextBundle R C cfg status bn send)"
proof -
  have m: "keeps sys_wf (modifyM (rip_push_sent h hs))" for h hs
    by (intro keeps_modifyM) (simp add: rip_push_sent_def sys_wf_def pool_wf_def rep_wf_def)
  show ?thesis
    unfolding rip_sendNextBundle_def rip_createBundle_def rip_sendBundle_def
    by (auto intro!: keeps_intros sys_wf_rip_handlePastEvents sys_wf_createBundle m)
qed

interpretation bm4337: bundle_service "sendNextBundle C cfg bn q" "handlePastEvents bn q" sys_wf
  for C cfg bn q
  by unfold_locales (rule sys_wf_sendNextBundle sys_wf_handlePastEvents)+

interpretation bm7560: bundle_service "rip_sendNextBundle R C cfg status bn send" "rip_handlePastEvents status" sys_wf
  for R C cfg status bn send
  by unfold_locales (rule sys_wf_rip_sendNextBundle sys_wf_rip_handlePastEvents)+

section \<open>The execution manager keeps the system well formed\<close>

lemma sys_wf_checkPaymasterDeposit: "keeps sys_wf (checkPaymasterDeposit bal op)"
proof -
  have m: "keeps sys_wf (modifyM (\<lambda>s. s\<lparr>deposits := f (deposits s)\<rparr>))" for f
    by (intro keeps_modifyM) (simp add: sys_wf_def pool_wf_def rep_wf_def)
  show ?thesis
    unfolding checkPaymasterDeposit_def getCachedDeposit_def Let_def
    by (auto split: option.split intro!: keeps_intros m)
qed

lemma sys_wf_attemptBundle:
  assumes "bundle_service (bm_sendNextBundle bm) (bm_handlePastEvents bm) sys_wf"
  shows "keeps sys_wf (attemptBundle ec bm force)"
proof -
  have n: "keeps sys_wf (bm_sendNextBundle bm)" and p: "keeps sys_wf (bm_handlePastEvents bm)"
    using assms by (simp_all add: bundle_service_def)
  have c: "sys_wf (clearCache s)" if "sys_wf s" for s :: "'a exec_state_scheme"
    using that by (simp add: clearCache_def sys_wf_def pool_wf_def rep_wf_def)
  show ?thesis
    unfolding attemptBundle_def
    by (auto intro!: keeps_intros n p c bundle_service.bundling_keeps [OF assms])
qed

lemma sys_wf_sendUserOperation:
  assumes "bundle_service (bm_sendNextBundle bm) (bm_handlePastEvents bm) sys_wf"
  shows "keeps sys_wf (sendUserOperation ec bm vm bal op ep skip)"
  unfolding sendUserOperation_def
  by (auto intro!: keeps_intros sys_wf_checkPaymasterDeposit sys_wf_addUserOp sys_wf_attemptBundle [OF assms])

lemma sys_wf_timers: "sys_wf (setReputationCron n s) \<longleftrightarrow> sys_wf s" "sys_wf (setAutoBundler n m s) \<longleftrightarrow> sys_wf s"
  by (simp_all add: setReputationCron_def setAutoBundler_def Let_def sys_wf_def pool_wf_def rep_wf_def)

text \<open>
  The life of a bundler: requests, timers that fire while they are set (an error of the
  automatic bundler is only logged), and their configuration.
\<close>

inductive exec_step ::
  "exec_config \<Rightarrow> (exec_state, 'r) bundle_manager \<Rightarrow> validation_manager \<Rightarrow> (string \<Rightarrow> int res) \<Rightarrow>
     exec_state \<Rightarrow> exec_state \<Rightarrow> bool"
  for ec bm vm bal where
  exec_send: "exec_step ec bm vm bal s (snd (sendUserOperation ec bm vm bal op ep skip s))"
| exec_attempt: "exec_step ec bm vm bal s (snd (attemptBundle ec bm force s))"
| exec_cron: "reputationCron s \<noteq> None \<Longrightarrow> exec_step ec bm vm bal s (hourlyCron s)"
| exec_auto: "autoBundleInterval s \<noteq> None \<Longrightarrow> exec_step ec bm vm bal s (snd (attemptBundle ec bm True s))"
| exec_set_cron: "exec_step ec bm vm bal s (setReputationCron n s)"
| exec_set_auto: "exec_step ec bm vm bal s (setAutoBundler n m s)"

lemma sys_wf_exec_step:
  assumes "bundle_service (bm_sendNextBundle bm) (bm_handlePastEvents bm) sys_wf"
    and "exec_step ec bm vm bal s t" and "sys_wf s"
  shows "sys_wf t"
  using assms(2,3)
proof (induction rule: exec_step.induct)
  case (exec_send s op ep skip)
  show ?case using exec_send by (rule keepsD [OF sys_wf_sendUserOperation [OF assms(1)]])
next
  case (exec_attempt s force)
  show ?case using exec_attempt by (rule keepsD [OF sys_wf_attemptBundle [OF assms(1)]])
next
  case (exec_auto s)
  show ?case using exec_auto(2) by (rule keepsD [OF sys_wf_attemptBundle [OF assms(1)]])
qed (simp_all add: sys_wf_timers sys_wf_updates)

definition bm_ERC4337 ::
  "chain_env \<Rightarrow> bundle_config \<Rightarrow> int res \<Rightarrow> (int \<Rightarrow> chain_event list res) \<Rightarrow>
     ('z exec_state_scheme, send_bundle_return) bundle_manager" where
  "bm_ERC4337 C cfg bn q = \<lparr>bm_sendNextBundle = sendNextBundle C cfg bn q, bm_handlePastEvents = handlePastEvents bn q,
     bm_createBundle = createBundle C cfg\<rparr>"

definition bm_RIP7560 ::
  "rip_lib \<Rightarrow> chain_env \<Rightarrow> bundle_config \<Rightarrow> (string \<Rightarrow> bool res) \<Rightarrow> int res \<Rightarrow> (operation list \<Rightarrow> int \<Rightarrow> string \<Rightarrow> string res) \<Rightarrow>
     ('z exec_state_scheme, string) bundle_manager" where
  "bm_RIP7560 R C cfg status bn send = \<lparr>bm_sendNextBundle = rip_sendNextBundle R C cfg status bn send,
     bm_handlePastEvents = rip_handlePastEvents status, bm_createBundle = rip_createBundle R C cfg\<rparr>"

text \<open>However the bundler runs, with the ERC-4337 or the RIP-7560 bundle manager, and
  whatever calls fail on the way: the pool never holds two operations with the same sender
  and nonce, and the reputation table stays well formed.\<close>

theorem bundler_always_well_formed:
  assumes "(exec_step ec (bm_ERC4337 C cfg bn q) vm bal)\<^sup>*\<^sup>* s t
      \<or> (exec_step ec (bm_RIP7560 R C cfg status bn send) vm bal)\<^sup>*\<^sup>* s t"
    and "mempool s = []" and "entries s = []"
  shows "distinct (map (\<lambda>e. (sender (userOp e), getPackedNonce (lib t) (userOp e))) (mempool t)) \<and> rep_wf t"
proof -
  have s: "sys_wf s" using assms(2,3) by (simp add: sys_wf_def pool_wf_def rep_wf_def)
  have a: "bundle_service (bm_sendNextBundle (bm_ERC4337 C cfg bn q :: (exec_state, _) bundle_manager))
      (bm_handlePastEvents (bm_ERC4337 C cfg bn q :: (exec_state, _) bundle_manager)) sys_wf"
    by (simp add: bm_ERC4337_def bm4337.bundle_service_axioms)
  have b: "bundle_service (bm_sendNextBundle (bm_RIP7560 R C cfg status bn send :: (exec_state, _) bundle_manager))
      (bm_handlePastEvents (bm_RIP7560 R C cfg status bn send :: (exec_state, _) bundle_manager)) sys_wf"
    by (simp add: bm_RIP7560_def bm7560.bundle_service_axioms)
  have "sys_wf t"
    using assms(1)
  proof
    assume "(exec_step ec (bm_ERC4337 C cfg bn q) vm bal)\<^sup>*\<^sup>* s t"
    then show ?thesis by (induction rule: rtranclp_induct) (use s sys_wf_exec_step [OF a] in blast)+
  next
    assume "(exec_step ec (bm_RIP7560 R C cfg status bn send) vm bal)\<^sup>*\<^sup>* s t"
    then show ?thesis by (induction rule: rtranclp_induct) (use s sys_wf_exec_step [OF b] in blast)+
  qed
  then show ?thesis by (simp add: sys_wf_def pool_wf_def pool_key_def [abs_def])
qed

definition exec_example :: exec_state where
  "exec_example = rip_state.extend (rip_state.truncate (rip_example\<lparr>sentBundles := []\<rparr>))
     \<lparr>reputationCron = None, autoBundleInterval = None, maxMempoolSize = 10, autoInterval = 0\<rparr>"

definition exec_config_example :: exec_config where
  "exec_config_example = \<lparr>rip7560 = False, useRip7560Mode = None, gethDevMode = False,
     signer_send_wei = Inr ''0xtx'', receipt_seen = (\<lambda>h i. Inr (i = 21))\<rparr>"

definition vm_example :: validation_manager where
  "vm_example = \<lparr>vm_validateInputParameters = (\<lambda>op ep. if ep = ''0xEP'' then Inr () else Inl (RpcError ''bad entry point'' (-32602) [])),
     vm_validateUserOp = (\<lambda>op. if sender op = ''0xBad'' then Inl (RpcError ''AA23 reverted'' (-32500) []) else Inr EmptyValidateUserOpResult),
     vm_getOperationHash = (\<lambda>op. Inr (sender op @ show_int (nonce op)))\<rparr>"

lemma exec_example_simps [simp]:
  "mempool exec_example = []" "entries exec_example = []" "deposits exec_example = []" "maxMempoolSize exec_example = 10"
  by code_simp+

lemma bundler_always_well_formed_witness:
  "rep_wf (snd (sendUserOperation exec_config_example (bm_ERC4337 env_example cfg_example (Inr 5) (\<lambda>n. Inr [])) vm_example
     (\<lambda>a. Inr 5) (base_op ''0xA'' 0) ''0xEP'' False exec_example))"
proof -
  let ?bm = "bm_ERC4337 env_example cfg_example (Inr 5) (\<lambda>n. Inr []) :: (exec_state, _) bundle_manager"
  let ?t = "snd (sendUserOperation exec_config_example ?bm vm_example (\<lambda>a. Inr 5) (base_op ''0xA'' 0) ''0xEP'' False exec_example)"
  have "(exec_step exec_config_example ?bm vm_example (\<lambda>a. Inr 5))\<^sup>*\<^sup>* exec_example ?t"
    by (rule r_into_rtranclp) (rule exec_send)
  then show ?thesis
    using bundler_always_well_formed [of exec_config_example env_example cfg_example "Inr 5" "\<lambda>n. Inr []" vm_example "\<lambda>a. Inr 5" exec_example ?t]
    by simp
qed

section \<open>Entrance and flush\<close>

text \<open>C34: An operation that fails the input check, the validation or the deposit check never
  enters the pool: the error is passed on, and neither the pool nor any reputation changes.\<close>

theorem refused_operation_stays_out:
  assumes "vm_validateInputParameters vm op ep = Inl e
      \<or> vm_validateInputParameters vm op ep = Inr () \<and> \<not> skip \<and> vm_validateUserOp vm op = Inl e
      \<or> vm_validateInputParameters vm op ep = Inr () \<and> (skip \<or> (\<exists>vr. vm_validateUserOp vm op = Inr vr))
         \<and> (\<exists>h. vm_getOperationHash vm op = Inr h) \<and> fst (checkPaymasterDeposit bal op s) = Inl e"
  shows "case sendUserOperation ec bm vm bal op ep skip s of (r, t) \<Rightarrow>
    r = Inl e \<and> mempool t = mempool s \<and> entries t = entries s \<and> entryCounts t = entryCounts s"
proof -
  have d: "mempool t = mempool s \<and> entries t = entries s \<and> entryCounts t = entryCounts s"
    if "checkPaymasterDeposit bal op s = (x, t)" for x t
    using that
    by (auto simp: checkPaymasterDeposit_def monad_simps getCachedDeposit_eq Let_def
        split: option.splits if_splits sum.splits)
  obtain x t where "checkPaymasterDeposit bal op s = (x, t)" by (metis prod.exhaust)
  with assms d [OF this] show ?thesis
    by (auto simp: sendUserOperation_def monad_simps)
qed

lemma refused_operation_stays_out_witness:
  "mempool (snd (sendUserOperation exec_config_example (bm_ERC4337 env_example cfg_example (Inr 5) (\<lambda>n. Inr [])) vm_example
     (\<lambda>a. Inr 5) (base_op ''0xBad'' 0) ''0xEP'' False exec_example)) = []"
proof -
  let ?bm = "bm_ERC4337 env_example cfg_example (Inr 5) (\<lambda>n. Inr []) :: (exec_state, _) bundle_manager"
  have "vm_validateInputParameters vm_example (base_op ''0xBad'' 0) ''0xEP'' = Inr ()"
      "vm_validateUserOp vm_example (base_op ''0xBad'' 0) = Inl (RpcError ''AA23 reverted'' (-32500) [])"
    by (simp_all add: vm_example_def base_op_def)
  then show ?thesis
    using refused_operation_stays_out [of vm_example "base_op ''0xBad'' 0" "''0xEP''" "RpcError ''AA23 reverted'' (-32500) []"
        False "\<lambda>a. Inr 5" exec_example exec_config_example ?bm]
    by (simp add: case_prod_beta)
qed

text \<open>Without force, nothing is sent while the pool is below the configured size; and after a
  bundle attempt that returned, no cached deposit is left, so the next deposit check asks
  the chain.\<close>

theorem attempt_threshold_and_flush:
  assumes "\<not> (rip7560 ec \<and> useRip7560Mode ec = Some ''PULL'' \<and> gethDevMode ec \<and> force)"
    and "attemptBundle ec bm force s = (Inr r, t)"
  shows "if \<not> force \<and> int (length (mempool s)) < maxMempoolSize s then r = None \<and> t = s else deposits t = []"
  using assms
  by (auto simp: attemptBundle_def monad_simps pool_count_def clearCache_def split: prod.splits sum.splits if_splits)

lemma attempt_threshold_and_flush_witness:
  "attemptBundle exec_config_example (bm_ERC4337 env_example cfg_example (Inr 5) (\<lambda>n. Inr [])) False exec_example = (Inr None, exec_example)
   \<and> (\<exists>t. attemptBundle exec_config_example (bm_ERC4337 env_example cfg_example (Inr 5) (\<lambda>n. Inr [])) True exec_example = (Inr None, t)
        \<and> deposits t = [])"
proof -
  let ?bm = "bm_ERC4337 env_example cfg_example (Inr 5) (\<lambda>n. Inr []) :: (exec_state, _) bundle_manager"
  have n: "\<not> (rip7560 exec_config_example \<and> useRip7560Mode exec_config_example = Some ''PULL'' \<and> gethDevMode exec_config_example \<and> f)" for f
    by (simp add: exec_config_example_def)
  have "fst (attemptBundle exec_config_example ?bm False exec_example) = Inr None"
      "fst (attemptBundle exec_config_example ?bm True exec_example) = Inr None"
    by code_simp+
  then obtain t t' where a: "attemptBundle exec_config_example ?bm False exec_example = (Inr None, t)"
      "attemptBundle exec_config_example ?bm True exec_example = (Inr None, t')"
    by (metis prod.collapse)
  show ?thesis
    using attempt_threshold_and_flush [OF n a(1)] attempt_threshold_and_flush [OF n a(2)] a by simp
qed

section \<open>Waiting for a receipt\<close>

lemma ex_from_Suc: "(i::nat) \<le> n \<Longrightarrow> (\<exists>j. i \<le> j \<and> j \<le> n \<and> P j) \<longleftrightarrow> P i \<or> (\<exists>j. Suc i \<le> j \<and> j \<le> n \<and> P j)"
  by (metis Suc_leD Suc_leI le_neq_implies_less order_refl)

lemma wait_receipt_from:
  "\<forall>j. i \<le> j \<longrightarrow> j \<le> 21 \<longrightarrow> (\<exists>b. receipt_seen ec h j = Inr b) \<Longrightarrow> i \<le> 21 \<Longrightarrow>
     wait_receipt ec h i = (if \<exists>j. i \<le> j \<and> j \<le> 21 \<and> receipt_seen ec h j = Inr True then Inr ()
       else Inl (JsError ''timed out waiting for transaction'' None))"
proof (induction "21 - i" arbitrary: i)
  case 0
  then have i: "i = 21" by simp
  then obtain b where b: "receipt_seen ec h 21 = Inr b" using 0 by blast
  have "(\<exists>j. 21 \<le> j \<and> j \<le> 21 \<and> receipt_seen ec h j = Inr True) \<longleftrightarrow> b"
    using b by (metis le_antisym order_refl sum.inject(2))
  then show ?case by (subst wait_receipt.simps) (simp add: i b)
next
  case (Suc k)
  then obtain b where b: "receipt_seen ec h i = Inr b" by blast
  have IH: "wait_receipt ec h (Suc i) = (if \<exists>j. Suc i \<le> j \<and> j \<le> 21 \<and> receipt_seen ec h j = Inr True then Inr ()
      else Inl (JsError ''timed out waiting for transaction'' None))"
    using Suc.hyps(2) Suc.prems by (intro Suc.hyps(1)) auto
  have "(\<exists>j. i \<le> j \<and> j \<le> 21 \<and> receipt_seen ec h j = Inr True) \<longleftrightarrow>
      b \<or> (\<exists>j. Suc i \<le> j \<and> j \<le> 21 \<and> receipt_seen ec h j = Inr True)"
    using ex_from_Suc [OF Suc.prems(2), of "\<lambda>j. receipt_seen ec h j = Inr True"] b by simp
  then show ?case
    using b IH Suc.hyps(2) by (subst wait_receipt.simps) auto
qed

text \<open>The wait for the receipt always ends: after at most 22 polls it returns or gives up,
  and it returns exactly if one of them found the receipt. With 50 ms between polls that is
  about one second.\<close>

theorem wait_receipt_exact:
  assumes "\<forall>i\<le>21. \<exists>b. receipt_seen ec h i = Inr b"
  shows "wait_receipt ec h 0 = (if \<exists>i\<le>21. receipt_seen ec h i = Inr True then Inr ()
    else Inl (JsError ''timed out waiting for transaction'' None))"
  using wait_receipt_from [of 0 ec h] assms by auto

lemma wait_receipt_exact_witness:
  "wait_receipt exec_config_example ''0xtx'' 0 = Inr ()"
  using wait_receipt_exact [of exec_config_example "''0xtx''"] by (auto simp: exec_config_example_def)

end
