(* ===== verification/ERC7562.thy ===== *)
theory ERC7562
  imports Utils
begin

text \<open>
  The vocabulary of the ERC-7562 rules in \<^verbatim>\<open>packages/validation-manager/src\<close>: entities
  (\<^verbatim>\<open>AccountAbstractionEntity.ts\<close>), rules (\<^verbatim>\<open>enum/ERC7562Rule.ts\<close>), opcodes
  (\<^verbatim>\<open>enum/EVMOpcodes.ts\<close>, \<^verbatim>\<open>ERC7562BannedOpcodes.ts\<close>), violations
  (\<^verbatim>\<open>ERC7562Violation.ts\<close>), the call tree of a trace (\<^verbatim>\<open>ERC7562Call.ts\<close>) and the
  detection of the called method (\<^verbatim>\<open>decodeHelper.ts\<close>; the rest of that file is in \<open>GethTracer\<close>).
\<close>

section \<open>Entities and rules\<close>

datatype aa_entity =
  Ent_account | Ent_paymaster | Ent_factory | Ent_aggregator | Ent_senderCreator
| Ent_entryPoint | Ent_nativeEntryPoint | Ent_nativeNonceManager | Ent_none

fun entity_name :: "aa_entity \<Rightarrow> string" where
  "entity_name Ent_account = ''account''"
| "entity_name Ent_paymaster = ''paymaster''"
| "entity_name Ent_factory = ''factory''"
| "entity_name Ent_aggregator = ''aggregator''"
| "entity_name Ent_senderCreator = ''SenderCreator''"
| "entity_name Ent_entryPoint = ''EntryPoint''"
| "entity_name Ent_nativeEntryPoint = ''NativeEntryPoint''"
| "entity_name Ent_nativeNonceManager = ''NativeNonceManager''"
| "entity_name Ent_none = ''none''"

datatype erc7562_rule =
  op011 | op012 | op013 | op020 | op031 | op041 | op042 | op051 | op052 | op053 | op054
| op061 | op062 | op070 | op080 | cod010 | sto010 | sto021 | sto022 | sto031 | sto032
| sto033 | sto040 | sto041 | grep010 | grep020 | grep040 | grep050 | srep010 | srep040
| erep010 | erep015 | erep020 | erep030 | erep040 | erep050

fun rule_name :: "erc7562_rule \<Rightarrow> string" where
  "rule_name op011 = ''OP-011''" | "rule_name op012 = ''OP-012''" | "rule_name op013 = ''OP-013''"
| "rule_name op020 = ''OP-020''" | "rule_name op031 = ''OP-031''" | "rule_name op041 = ''OP-041''"
| "rule_name op042 = ''OP-042''" | "rule_name op051 = ''OP-051''" | "rule_name op052 = ''OP-052''"
| "rule_name op053 = ''OP-053''" | "rule_name op054 = ''OP-054''" | "rule_name op061 = ''OP-061''"
| "rule_name op062 = ''OP-062''" | "rule_name op070 = ''OP-070''" | "rule_name op080 = ''OP-080''"
| "rule_name cod010 = ''COD-010''" | "rule_name sto010 = ''STO-010''" | "rule_name sto021 = ''STO-021''"
| "rule_name sto022 = ''STO-022''" | "rule_name sto031 = ''STO-031''" | "rule_name sto032 = ''STO-032''"
| "rule_name sto033 = ''STO-033''" | "rule_name sto040 = ''STO-040''" | "rule_name sto041 = ''STO-041''"
| "rule_name grep010 = ''GREP-010''" | "rule_name grep020 = ''GREP-020''" | "rule_name grep040 = ''GREP-040''"
| "rule_name grep050 = ''GREP-050''" | "rule_name srep010 = ''SREP-010''" | "rule_name srep040 = ''SREP-040''"
| "rule_name erep010 = ''EREP-010''" | "rule_name erep015 = ''EREP-015''" | "rule_name erep020 = ''EREP-020''"
| "rule_name erep030 = ''EREP-030''" | "rule_name erep040 = ''EREP-040''" | "rule_name erep050 = ''EREP-050''"

section \<open>Opcodes\<close>

definition EVMOpcodes :: "(string \<times> int) list" where
  "EVMOpcodes = [(''ADDRESS'', 0x30), (''BALANCE'', 0x31), (''ORIGIN'', 0x32), (''GASPRICE'', 0x3A),
     (''BLOCKHASH'', 0x40), (''COINBASE'', 0x41), (''TIMESTAMP'', 0x42), (''NUMBER'', 0x43),
     (''DIFFICULTY'', 0x44), (''GASLIMIT'', 0x45), (''SELFBALANCE'', 0x47), (''BASEFEE'', 0x48),
     (''BLOBHASH'', 0x49), (''BLOBBASEFEE'', 0x4A), (''GAS'', 0x5A), (''CREATE'', 0xF0),
     (''SELFDESTRUCT'', 0xFF), (''EXTCODESIZE'', 0x3B), (''EXTCODECOPY'', 0x3C), (''EXTCODEHASH'', 0x3F),
     (''CHAINID'', 0x46), (''MLOAD'', 0x51), (''MSTORE'', 0x52), (''MSTORE8'', 0x53), (''SLOAD'', 0x54),
     (''SSTORE'', 0x55), (''JUMPDEST'', 0x5B), (''TLOAD'', 0x5C), (''TSTORE'', 0x5D), (''MCOPY'', 0x5E),
     (''PUSH0'', 0x5F), (''CALL'', 0xF1), (''RETURN'', 0xF3), (''DELEGATECALL'', 0xF4),
     (''CREATE2'', 0xF5), (''STATICCALL'', 0xFA), (''REVERT'', 0xFD), (''INVALID'', 0xFE)]"

definition getOpcodeName :: "int \<Rightarrow> string option" where
  "getOpcodeName value = map_option fst (find (\<lambda>(n, v). v = value) EVMOpcodes)"

definition bannedOpCodes :: "string list" where
  "bannedOpCodes = [''BASEFEE'', ''BLOCKHASH'', ''COINBASE'', ''DIFFICULTY'', ''GAS'', ''GASLIMIT'',
     ''GASPRICE'', ''INVALID'', ''NUMBER'', ''ORIGIN'', ''PREVRANDAO'', ''RANDOM'', ''SELFDESTRUCT'',
     ''TIMESTAMP'', ''BLOBHASH'', ''BLOBBASEFEE'']"

definition opcodesOnlyInStakedEntities :: "string list" where
  "opcodesOnlyInStakedEntities = [''BALANCE'', ''SELFBALANCE'']"

section \<open>Violations\<close>

type_synonym call_frame_type = string

record erc7562_violation =
  v_rule :: erc7562_rule
  v_depth :: nat
  v_entity :: aa_entity
  v_address :: string
  v_delegatecallStorageAddress :: string
  v_errorCode :: validation_errors
  v_description :: string
  v_callFrameType :: call_frame_type
  v_conflict :: "string option"
  v_opcode :: "string option"
  v_value :: "string option"
  v_slot :: "string option"

definition toError :: "erc7562_violation \<Rightarrow> js_error" where
  "toError violation = RpcError (v_description violation) (error_code (v_errorCode violation)) []"

section \<open>The call tree\<close>

record contract_size =
  cs_contractSize :: int
  cs_opcode :: int

text \<open>Of the four kinds of access only the slots matter, and whether a value is null.\<close>

record accessed_slots =
  as_reads :: "string list obj option"
  as_transientReads :: "string option obj option"
  as_transientWrites :: "string option obj option"
  as_writes :: "int obj option"

datatype erc7562_call = ERC7562Call
  (accessedSlots: accessed_slots)
  (contractSize: "contract_size obj")
  (call_error: "string option")
  (extCodeAccessInfo: "string list")
  (call_from: string)
  (call_gas: string)
  (call_gasUsed: string)
  (call_input: "string option")
  (outOfGas: bool)
  (call_output: "string option")
  (call_to: string)
  (call_type: call_frame_type)
  (usedOpcodes: "int obj")
  (call_value: "string option")
  (call_calls: "erc7562_call list option")
  (call_keccak: "string list option")

text \<open>The inner calls of a frame: \<^verbatim>\<open>calls ?? []\<close>.\<close>

definition inner_calls :: "erc7562_call \<Rightarrow> erc7562_call list" where
  "inner_calls c = or_else (call_calls c) []"

lemma size_inner_calls [termination_simp]: "size_list size (inner_calls c) < size c"
  by (cases c) (simp add: inner_calls_def or_else_def split: option.splits)

text \<open>
  The schema check. Types exclude most failures; what the schema demands beyond the interface
  is that all four kinds of slot access and the input are present. The text of the error comes
  from the schema library.
\<close>

definition ow_accepts :: "erc7562_call \<Rightarrow> bool" where
  "ow_accepts c \<longleftrightarrow>
     as_reads (accessedSlots c) \<noteq> None \<and> as_transientReads (accessedSlots c) \<noteq> None \<and>
     as_transientWrites (accessedSlots c) \<noteq> None \<and> as_writes (accessedSlots c) \<noteq> None \<and>
     call_input c \<noteq> None"

function (sequential) validateERC7562Call :: "(erc7562_call \<Rightarrow> js_error) \<Rightarrow> erc7562_call \<Rightarrow> unit res"
  and validateERC7562Calls :: "(erc7562_call \<Rightarrow> js_error) \<Rightarrow> erc7562_call list \<Rightarrow> unit res" where
  "validateERC7562Call ow_error c =
     (if \<not> ow_accepts c then Inl (ow_error c)
      else validateERC7562Calls ow_error (inner_calls c))"
| "validateERC7562Calls ow_error [] = Inr ()"
| "validateERC7562Calls ow_error (c # cs) =
     bindE (validateERC7562Call ow_error c) (\<lambda>_. validateERC7562Calls ow_error cs)"
  by pat_completeness auto

termination
  by (relation "measure (case_sum (\<lambda>(w, c). 2 * size c + 1) (\<lambda>(w, cs). 2 * size_list size cs))")
     (use size_inner_calls in \<open>auto simp: less_Suc_eq\<close>)

text \<open>Every frame of a call tree, the outermost first.\<close>

function (sequential) frames :: "erc7562_call \<Rightarrow> erc7562_call list"
  and frames_list :: "erc7562_call list \<Rightarrow> erc7562_call list" where
  "frames c = c # frames_list (inner_calls c)"
| "frames_list [] = []"
| "frames_list (c # cs) = frames c @ frames_list cs"
  by pat_completeness auto

termination
  by (relation "measure (case_sum (\<lambda>c. 2 * size c + 1) (\<lambda>cs. 2 * size_list size cs))")
     (use size_inner_calls in \<open>auto simp: less_Suc_eq\<close>)

lemma validate_Inr_frames:
  "validateERC7562Call w c = Inr () \<longleftrightarrow> (\<forall>f \<in> set (frames c). ow_accepts f)"
  "validateERC7562Calls w cs = Inr () \<longleftrightarrow> (\<forall>f \<in> set (frames_list cs). ow_accepts f)"
  by (induction w c and w cs rule: validateERC7562Call_validateERC7562Calls.induct)
     (auto simp: bindE_def split: sum.splits)

section \<open>Known methods\<close>

definition get4bytes :: "string \<Rightarrow> string" where
  "get4bytes input = take 10 input"

text \<open>
  The decoded base64 text is assigned to a variable that is not read again; the selector is
  always taken from the raw input.
\<close>

definition tryDetectKnownMethod :: "ethers_lib \<Rightarrow> erc7562_call \<Rightarrow> string" where
  "tryDetectKnownMethod L c =
     (case call_input c of
        None \<Rightarrow> ''<no-input>''
      | Some input \<Rightarrow> or_else (lib_getFunction L (get4bytes input)) (get4bytes input))"

end
