(* ===== verification/ERC7562Parser.thy ===== *)
theory ERC7562Parser
  imports ERC7562
begin

text \<open>
  \<^verbatim>\<open>packages/validation-manager/src/ERC7562Parser.ts\<close>: the walk over the call tree of a
  traced validation that finds the violated ERC-7562 rules. The object is the record
  \<open>parser\<close>; every method is an action on it, because the current entity, the collected
  violations and the flag \<open>bailOnViolation\<close> are fields that the checks read and write.
\<close>

section \<open>State\<close>

record parser =
  p_lib :: ethers_lib
  keccak :: "string list"
  ruleViolations :: "erc7562_violation list"
  currentEntity :: aa_entity
  currentEntityAddress :: string
  stakeValidationResult :: "validation_result option"
    \<comment> \<open>undefined until the first call of \<open>parseResults\<close>\<close>
  p_contractAddresses :: "string list"
  p_storageMap :: "string obj obj"
    \<comment> \<open>only the slot-map form of a storage entry is ever put here\<close>
  bailOnViolation :: bool
  entryPointAddress :: string
  senderCreatorAddress :: string
  nonceManagerAddress :: "string option"

definition new_parser :: "ethers_lib \<Rightarrow> string \<Rightarrow> string \<Rightarrow> string option \<Rightarrow> parser" where
  "new_parser L ep creator nonceManager = \<lparr>
     p_lib = L, keccak = [], ruleViolations = [], currentEntity = Ent_none, currentEntityAddress = [],
     stakeValidationResult = None, p_contractAddresses = [], p_storageMap = [],
     bailOnViolation = False, entryPointAddress = toLowerCase ep,
     senderCreatorAddress = toLowerCase creator, nonceManagerAddress = lower_opt nonceManager\<rparr>"

record erc7562_results =
  res_storageMap :: storage_map
  res_ruleViolations :: "erc7562_violation list"
  res_contractAddresses :: "string list"

definition init_parse :: "erc7562_call \<Rightarrow> parser \<Rightarrow> parser" where
  "init_parse c s = s\<lparr>keccak := or_else (call_keccak c) [], ruleViolations := [],
     currentEntity := Ent_none, currentEntityAddress := [], p_contractAddresses := [],
     p_storageMap := []\<rparr>"

section \<open>Predicates and lookups\<close>

definition isCallToEntryPoint :: "erc7562_call \<Rightarrow> parser \<Rightarrow> bool" where
  "isCallToEntryPoint c s \<longleftrightarrow>
     toLowerCase (call_to c) = toLowerCase (entryPointAddress s) \<and>
     toLowerCase (call_from c) \<noteq> toLowerCase (entryPointAddress s) \<and>
     toLowerCase (call_from c) \<noteq> AddressZero"

definition entity_stake :: "aa_entity \<Rightarrow> validation_result \<Rightarrow> stake_info option" where
  "entity_stake entity vr =
     (case entity of
        Ent_account \<Rightarrow> Some (senderInfo vr)
      | Ent_factory \<Rightarrow> factoryInfo vr
      | Ent_paymaster \<Rightarrow> paymasterInfo vr
      | _ \<Rightarrow> None)"

definition isEntityStaked :: "aa_entity option \<Rightarrow> parser \<Rightarrow> bool" where
  "isEntityStaked entity s =
     (case Option.bind (stakeValidationResult s) (entity_stake (or_else entity (currentEntity s))) of
        None \<Rightarrow> False
      | Some entStake \<Rightarrow> 1 \<le> stake entStake \<and> 1 \<le> unstakeDelaySec entStake)"

fun within_struct :: "ethers_lib \<Rightarrow> int \<Rightarrow> string list \<Rightarrow> bool res" where
  "within_struct L slotN [] = Inr False"
| "within_struct L slotN (k1 # ks) =
     bindE (lib_bn_from L k1) (\<lambda>kn.
       if kn \<le> slotN \<and> slotN < kn + 128 then Inr True else within_struct L slotN ks)"

definition associatedWith :: "ethers_lib \<Rightarrow> string \<Rightarrow> string \<Rightarrow> string list obj \<Rightarrow> bool res" where
  "associatedWith L slot a entitySlots =
     bindE (lib_hexZeroPad32 L a) (\<lambda>padded.
       if slot = toLowerCase padded then Inr True
       else (case obj_get entitySlots a of
               None \<Rightarrow> Inr False
             | Some k \<Rightarrow> bindE (lib_bn_from L slot) (\<lambda>slotN. within_struct L slotN k)))"

definition tryGetAddressName :: "operation \<Rightarrow> string \<Rightarrow> parser \<Rightarrow> string" where
  "tryGetAddressName op address s =
     (let lowerAddress = toLowerCase address in
      if lowerAddress = toLowerCase (sender op) then entity_name Ent_account
      else if lower_opt (factory op) = Some lowerAddress then entity_name Ent_factory
      else if lower_opt (paymaster op) = Some lowerAddress then entity_name Ent_paymaster
      else if entryPointAddress s = lowerAddress then entity_name Ent_entryPoint
      else if senderCreatorAddress s = lowerAddress then entity_name Ent_senderCreator
      else address)"

text \<open>One hash input and one entity; \<open>Set.add\<close> keeps the first position of a member.\<close>

definition add_entity_slot :: "ethers_lib \<Rightarrow> string \<Rightarrow> string option \<Rightarrow> string list obj \<Rightarrow> string list obj res" where
  "add_entity_slot L keccakInput entityAddress slots =
     (case entityAddress of
        None \<Rightarrow> Inr slots
      | Some a \<Rightarrow>
          bindE (toBytes32 L a) (\<lambda>addrPadded.
          if startsWith keccakInput addrPadded
          then bindE (lib_keccak256 L keccakInput) (\<lambda>h.
            (let old = or_else (obj_get slots a) [] in
             Inr (AList.update a (if h \<in> set old then old else old @ [h]) slots)))
          else Inr slots))"

fun foldE :: "('x \<Rightarrow> 'a \<Rightarrow> 'a res) \<Rightarrow> 'x list \<Rightarrow> 'a \<Rightarrow> 'a res" where
  "foldE f [] a = Inr a"
| "foldE f (x # xs) a = bindE (f x a) (foldE f xs)"

definition parseEntitySlots :: "operation \<Rightarrow> parser \<Rightarrow> string list obj res" where
  "parseEntitySlots op s =
     (let entityAddresses = [Some (toLowerCase (sender op)), lower_opt (paymaster op), lower_opt (factory op)] in
      foldE (\<lambda>keccakInput. foldE (add_entity_slot (p_lib s) keccakInput) entityAddresses) (keccak s) [])"

definition isPrecompiled :: "string \<Rightarrow> bool" where
  "isPrecompiled address =
     (case parseInt (Some 16) address of None \<Rightarrow> False | Some n \<Rightarrow> n < 1000 \<and> n \<ge> 1)"

definition isForbiddenPrecompiled :: "string \<Rightarrow> bool" where
  "isForbiddenPrecompiled address \<longleftrightarrow>
     isPrecompiled address \<and> (case parseInt (Some 16) address of None \<Rightarrow> False | Some n \<Rightarrow> n > 9)"

section \<open>Violations and the current entity\<close>

definition violationDetected :: "erc7562_violation \<Rightarrow> (parser, unit) act" where
  "violationDetected violation s =
     (let s' = s\<lparr>ruleViolations := ruleViolations s @ [violation]\<rparr> in
      if bailOnViolation s' then (Inl (toError violation), s') else (Inr (), s'))"

text \<open>The fields every check fills the same way.\<close>

definition new_violation ::
  "erc7562_rule \<Rightarrow> nat \<Rightarrow> string \<Rightarrow> string \<Rightarrow> erc7562_call \<Rightarrow> string option \<Rightarrow> string option \<Rightarrow> string \<Rightarrow> parser \<Rightarrow> erc7562_violation" where
  "new_violation rule d ctx address c opcode val description s = \<lparr>
     v_rule = rule, v_depth = d, v_entity = currentEntity s, v_address = address,
     v_delegatecallStorageAddress = ctx, v_errorCode = OpcodeValidation, v_description = description,
     v_callFrameType = call_type c, v_conflict = None, v_opcode = opcode, v_value = val, v_slot = None\<rparr>"

definition entity_of_call :: "operation \<Rightarrow> erc7562_call \<Rightarrow> parser \<Rightarrow> (aa_entity \<times> string) res" where
  "entity_of_call op c s =
     (let target = toLowerCase (call_to c) in
      if toLowerCase (sender op) = target then Inr (Ent_account, sender op)
      else if toLowerCase (call_from c) = senderCreatorAddress s \<and> lower_opt (factory op) = Some target
        then Inr (Ent_factory, the (factory op))
      else if lower_opt (paymaster op) = Some target then Inr (Ent_paymaster, the (paymaster op))
      else if entryPointAddress s = target then Inr (Ent_entryPoint, entryPointAddress s)
      else if senderCreatorAddress s = target then Inr (Ent_senderCreator, senderCreatorAddress s)
      else if lower_opt (nonceManagerAddress s) = Some target
        then Inr (Ent_nativeNonceManager, the (nonceManagerAddress s))
      else Inl (RpcError (''could not find entity name for address '' @ call_to c @
             ''. This should not happen. This is a bug.'') 0 []))"

definition detectEntityChange :: "operation \<Rightarrow> erc7562_call \<Rightarrow> (parser, unit) act" where
  "detectEntityChange op c = lookM (\<lambda>s.
     if toLowerCase (call_from c) \<noteq> AddressZero \<and>
        toLowerCase (call_from c) \<noteq> entryPointAddress s \<and>
        toLowerCase (call_from c) \<noteq> senderCreatorAddress s then retM ()
     else bindM (liftE (entity_of_call op c s)) (\<lambda>(ent, a).
            modifyM (\<lambda>t. t\<lparr>currentEntity := ent, currentEntityAddress := a\<rparr>)))"

section \<open>The opcode rules\<close>

text \<open>The names of the used opcodes, an unknown one being the empty string.\<close>

definition used_opcode_names :: "erc7562_call \<Rightarrow> string list" where
  "used_opcode_names c =
     map (\<lambda>opcode. or_else (Option.bind (parseInt None opcode) getOpcodeName) []) (obj_keys (usedOpcodes c))"

definition checkOp011 :: "erc7562_call \<Rightarrow> nat \<Rightarrow> string \<Rightarrow> (parser, unit) act" where
  "checkOp011 c d ctx = lookM (\<lambda>s.
     if toLowerCase (call_to c) = entryPointAddress s then retM ()
     else forM (filter (\<lambda>opcode. opcode \<in> set bannedOpCodes) (used_opcode_names c)) (\<lambda>opcode.
            violationDetected (new_violation op011 d ctx (call_to c) c (Some opcode) (Some ''0'')
              (entity_name (currentEntity s) @ '' uses banned opcode: '' @ opcode) s)))"

definition checkOp020 :: "erc7562_call \<Rightarrow> nat \<Rightarrow> string \<Rightarrow> (parser, unit) act" where
  "checkOp020 c d ctx = lookM (\<lambda>s.
     if outOfGas c
     then violationDetected (new_violation op020 d ctx (call_from c) c (Some (call_type c)) (Some ''0'')
            (entity_name (currentEntity s) @ '' internally reverts on oog'') s)
     else retM ())"

definition create_allowed :: "operation \<Rightarrow> erc7562_call \<Rightarrow> parser \<Rightarrow> bool" where
  "create_allowed op c s \<longleftrightarrow>
     (let isFactoryStaked = isEntityStaked (Some Ent_factory) s;
          isAllowedCreateByOP032 =
            factory op \<noteq> None \<and> call_type c = ''CREATE'' \<and>
            (currentEntity s = Ent_account \<or> currentEntity s = Ent_factory) \<and>
            toLowerCase (call_from c) = toLowerCase (sender op);
          isAllowedCreateByEREP060 =
            (toLowerCase (call_from c) = toLowerCase (sender op) \<or>
             lower_opt (factory op) = Some (toLowerCase (call_from c))) \<and> isFactoryStaked;
          isAllowedCreateSenderByFactory =
            currentEntity s = Ent_factory \<and> toLowerCase (call_to c) = toLowerCase (sender op)
      in isAllowedCreateByOP032 \<or> isAllowedCreateByEREP060 \<or> isAllowedCreateSenderByFactory)"

definition checkOp031 :: "operation \<Rightarrow> erc7562_call \<Rightarrow> nat \<Rightarrow> string \<Rightarrow> (parser, unit) act" where
  "checkOp031 op c d ctx = lookM (\<lambda>s.
     if call_type c \<noteq> ''CREATE'' \<and> call_type c \<noteq> ''CREATE2'' then retM ()
     else if \<not> create_allowed op c s
     then violationDetected (new_violation op011 d ctx (call_from c) c (Some ''CREATE2'') (Some ''0'')
            (entity_name (currentEntity s) @ '' uses banned opcode: CREATE2'') s)
     else retM ())"

definition illegal_zero_code :: "operation \<Rightarrow> parser \<Rightarrow> string \<times> contract_size \<Rightarrow> bool" where
  "illegal_zero_code op s = (\<lambda>(address, cs).
     \<not> isPrecompiled address \<and>
     toLowerCase address \<noteq> toLowerCase (sender op) \<and>
     toLowerCase address \<noteq> entryPointAddress s \<and>
     cs_contractSize cs \<le> 2)"

definition checkOp041 :: "operation \<Rightarrow> erc7562_call \<Rightarrow> nat \<Rightarrow> string \<Rightarrow> (parser, unit) act" where
  "checkOp041 op c d ctx = lookM (\<lambda>s.
     forM (contractSize c) (\<lambda>(address, cs).
       if illegal_zero_code op s (address, cs)
       then violationDetected (new_violation op041 d ctx address c None None
              (entity_name (currentEntity s) @ '' accesses un-deployed contract address '' @ address @
               '' with opcode '' @ show_int (cs_opcode cs)) s)
       else retM ()))"

definition entryPointMethods :: "string list" where
  "entryPointMethods = [''depositTo'', ''0x'', ''acceptAccount'', ''acceptPaymaster'', ''sigFailAccount'', ''sigFailPaymaster'']"

definition checkOp054 :: "erc7562_call \<Rightarrow> nat \<Rightarrow> string \<Rightarrow> (parser, unit) act" where
  "checkOp054 c d ctx = lookM (\<lambda>s.
     let knownMethod = tryDetectKnownMethod (p_lib s) c in
     if isCallToEntryPoint c s \<and> knownMethod \<notin> set entryPointMethods
     then violationDetected (new_violation op054 d ctx (call_from c) c (Some (call_type c)) (call_value c)
            (''illegal call into EntryPoint during validation '' @ knownMethod) s)
     else retM ())"

definition checkOp054ExtCode :: "erc7562_call \<Rightarrow> string \<Rightarrow> nat \<Rightarrow> string \<Rightarrow> (parser, unit) act" where
  "checkOp054ExtCode c address d ctx = lookM (\<lambda>s.
     forM (extCodeAccessInfo c) (\<lambda>a.
       if toLowerCase a = entryPointAddress s
       then violationDetected (new_violation op054 d ctx address c None None
              (entity_name (currentEntity s) @ '' accesses EntryPoint contract address '' @
               entryPointAddress s @ '' with EXTCODE* opcode'') s)
       else retM ()))"

text \<open>\<^verbatim>\<open>BigNumber.from(value ?? 0)\<close>, evaluated only when the frame is no call to the entry point.\<close>

definition call_value_of :: "ethers_lib \<Rightarrow> erc7562_call \<Rightarrow> int res" where
  "call_value_of L c = (case call_value c of None \<Rightarrow> Inr 0 | Some v \<Rightarrow> lib_bn_from L v)"

definition checkOp061 :: "erc7562_call \<Rightarrow> nat \<Rightarrow> string \<Rightarrow> (parser, unit) act" where
  "checkOp061 c d ctx = lookM (\<lambda>s.
     if isCallToEntryPoint c s then retM ()
     else bindM (liftE (call_value_of (p_lib s) c)) (\<lambda>v.
       if v \<noteq> 0
       then violationDetected (new_violation op061 d ctx (call_from c) c (Some (call_type c)) (call_value c)
              ''May not make a CALL with value'' s)
       else retM ()))"

definition checkOp062AllowedPrecompiles :: "erc7562_call \<Rightarrow> nat \<Rightarrow> string \<Rightarrow> (parser, unit) act" where
  "checkOp062AllowedPrecompiles c d ctx = lookM (\<lambda>s.
     forM (obj_keys (contractSize c)) (\<lambda>address.
       if isForbiddenPrecompiled address
       then violationDetected (new_violation op062 d ctx (call_from c) c (Some (call_type c)) (call_value c)
              (''Illegal call to forbidden precompile '' @ address) s)
       else retM ()))"

definition checkOp080 :: "erc7562_call \<Rightarrow> nat \<Rightarrow> string \<Rightarrow> (parser, unit) act" where
  "checkOp080 c d ctx = lookM (\<lambda>s.
     let staked = isEntityStaked None s in
     forM (filter (\<lambda>opcode. opcode \<in> set opcodesOnlyInStakedEntities \<and> \<not> staked) (used_opcode_names c)) (\<lambda>opcode.
       violationDetected (new_violation op011 d ctx (call_from c) c (Some opcode) (Some ''0'')
         (''unstaked '' @ entity_name (currentEntity s) @ '' uses banned opcode: '' @ opcode) s)))"

definition context_returned :: "parser \<Rightarrow> bool" where
  "context_returned s =
     (case Option.bind (Option.bind (stakeValidationResult s) paymasterInfo) pm_context of
        None \<Rightarrow> False | Some ctxt \<Rightarrow> ctxt \<noteq> ''0x'')"

definition checkErep050 :: "erc7562_call \<Rightarrow> nat \<Rightarrow> string \<Rightarrow> (parser, unit) act" where
  "checkErep050 c d ctx = lookM (\<lambda>s.
     if currentEntity s = Ent_paymaster \<and> \<not> isEntityStaked None s \<and> context_returned s
     then violationDetected (new_violation erep050 d ctx (call_from c) c None (Some ''0'')
            ''unstaked paymaster returned a context'' s)
     else retM ())"

section \<open>The storage rules\<close>

definition slot_keys :: "'v obj option \<Rightarrow> string list" where
  "slot_keys m = obj_keys (or_else m [])"

definition all_slots :: "erc7562_call \<Rightarrow> string list" where
  "all_slots c = slot_keys (as_writes (accessedSlots c)) @ slot_keys (as_reads (accessedSlots c)) @
     slot_keys (as_transientWrites (accessedSlots c)) @ slot_keys (as_transientReads (accessedSlots c))"

definition touch_slot :: "string \<Rightarrow> string \<Rightarrow> string obj obj \<Rightarrow> string obj obj" where
  "touch_slot address slot m = AList.update address (AList.update slot [] (or_else (obj_get m address) [])) m"

definition read_only_access :: "erc7562_call \<Rightarrow> string \<Rightarrow> bool" where
  "read_only_access c slot \<longleftrightarrow>
     Option.bind (as_writes (accessedSlots c)) (\<lambda>w. obj_get w slot) = None \<and>
     (case Option.bind (as_transientWrites (accessedSlots c)) (\<lambda>w. obj_get w slot) of
        None \<Rightarrow> True | Some v \<Rightarrow> v = None)"

record slot_policy =
  sp_allowed :: bool
  sp_needs_stake :: bool
    \<comment> \<open>the access is forbidden only because an entity is not staked\<close>

definition slot_access :: "operation \<Rightarrow> erc7562_call \<Rightarrow> bool \<Rightarrow> bool \<Rightarrow> string \<Rightarrow> parser \<Rightarrow> slot_policy" where
  "slot_access op c isSenderAssociated isEntityAssociatedSTO032 slot s =
     (let isEntStaked = isEntityStaked None s;
          isFactoryStaked = isEntityStaked (Some Ent_factory) s;
          isSenderCreation = factory op \<noteq> None;
          isSenderInternalSTO010 = toLowerCase (call_to c) = toLowerCase (sender op);
          isEntityInternalSTO031 = toLowerCase (call_to c) = toLowerCase (currentEntityAddress s);
          isReadOnlyAccessSTO033 = read_only_access c slot;
          isAllowedIfEntityStaked = isEntityInternalSTO031 \<or> isEntityAssociatedSTO032 \<or> isReadOnlyAccessSTO033;
          isAllowedST031ST032ST033 = isAllowedIfEntityStaked \<and> isEntStaked;
          isAllowedSTO021 = isSenderAssociated \<and> \<not> isSenderCreation;
          isAllowedIfFactoryStaked = isSenderAssociated \<and> isSenderCreation;
          isAllowedSTO022 = isAllowedIfFactoryStaked \<and> isFactoryStaked
      in \<lparr>sp_allowed = isSenderInternalSTO010 \<or> isAllowedSTO021 \<or> isAllowedSTO022 \<or> isAllowedST031ST032ST033,
          sp_needs_stake = (isAllowedIfEntityStaked \<and> \<not> isEntStaked) \<or> (isAllowedIfFactoryStaked \<and> \<not> isFactoryStaked)\<rparr>)"

definition slot_description :: "operation \<Rightarrow> erc7562_call \<Rightarrow> bool \<Rightarrow> string \<Rightarrow> parser \<Rightarrow> string" where
  "slot_description op c needs_stake slot s =
     (let addressName = tryGetAddressName op (call_to c) s; ent = entity_name (currentEntity s) in
      if needs_stake then ''unstaked '' @ ent @ '' accessed '' @ addressName @ '' slot '' @ slot
      else
       (let isWrite = slot \<in> set (slot_keys (as_writes (accessedSlots c))) \<or>
                      slot \<in> set (slot_keys (as_transientWrites (accessedSlots c)));
            isTransient = slot \<in> set (slot_keys (as_transientReads (accessedSlots c))) \<or>
                      slot \<in> set (slot_keys (as_transientWrites (accessedSlots c)))
        in ent @ '' has forbidden '' @ (if isWrite then ''write to'' else ''read from'') @ '' '' @
           (if isTransient then ''transient '' else []) @ addressName @ '' slot '' @ slot))"

definition checkSlot :: "operation \<Rightarrow> erc7562_call \<Rightarrow> nat \<Rightarrow> string \<Rightarrow> string list obj \<Rightarrow> string \<Rightarrow> (parser, unit) act" where
  "checkSlot op c d ctx entitySlots slot =
     thenM (modifyM (\<lambda>t. t\<lparr>p_storageMap := touch_slot (call_to c) slot (p_storageMap t)\<rparr>)) (lookM (\<lambda>s.
       bindM (liftE (associatedWith (p_lib s) slot (toLowerCase (sender op)) entitySlots)) (\<lambda>isSenderAssociated.
       bindM (liftE (associatedWith (p_lib s) slot (toLowerCase (currentEntityAddress s)) entitySlots)) (\<lambda>isEntityAssociated.
         let p = slot_access op c isSenderAssociated isEntityAssociated slot s in
         if sp_allowed p then retM ()
         else violationDetected (new_violation sto010 d ctx (call_to c) c None None
                (slot_description op c (sp_needs_stake p) slot s) s)))))"

definition checkStorage :: "operation \<Rightarrow> erc7562_call \<Rightarrow> nat \<Rightarrow> string \<Rightarrow> (parser, unit) act" where
  "checkStorage op c d ctx = lookM (\<lambda>s.
     if toLowerCase (call_to c) = entryPointAddress s \<or> nonceManagerAddress s = Some (toLowerCase (call_to c))
     then retM ()
     else bindM (liftE (parseEntitySlots op s)) (\<lambda>entitySlots.
            forM (all_slots c) (checkSlot op c d ctx entitySlots)))"

section \<open>The walk\<close>

definition push_address :: "string \<Rightarrow> parser \<Rightarrow> parser" where
  "push_address a s = s\<lparr>p_contractAddresses := p_contractAddresses s @ [a]\<rparr>"

definition checkFrame :: "operation \<Rightarrow> erc7562_call \<Rightarrow> nat \<Rightarrow> string \<Rightarrow> (parser, unit) act" where
  "checkFrame op c d ctx = seqM [
     modifyM (push_address (call_to c)),
     detectEntityChange op c,
     checkOp011 c d ctx,
     checkOp020 c d ctx,
     checkOp031 op c d ctx,
     checkOp041 op c d ctx,
     checkOp054 c d ctx,
     checkOp054ExtCode c (call_to c) d ctx,
     checkOp061 c d ctx,
     checkOp062AllowedPrecompiles c d ctx,
     checkOp080 c d ctx,
     checkErep050 c d ctx,
     checkStorage op c d ctx]"

text \<open>A self-call of the entry point: an inner \<^verbatim>\<open>handleOp\<close> that slipped into the trace.\<close>

definition skipped_frame :: "parser \<Rightarrow> erc7562_call \<Rightarrow> bool" where
  "skipped_frame s c \<longleftrightarrow> call_to c = entryPointAddress s \<and> call_from c = entryPointAddress s"

definition new_context :: "string \<Rightarrow> erc7562_call \<Rightarrow> string" where
  "new_context ctx c = (if call_type c = ''DELEGATECALL'' then ctx else call_to c)"

function (sequential) innerStepRecursive :: "operation \<Rightarrow> erc7562_call \<Rightarrow> nat \<Rightarrow> string \<Rightarrow> (parser, unit) act"
  and innerStepCalls :: "operation \<Rightarrow> erc7562_call list \<Rightarrow> nat \<Rightarrow> string \<Rightarrow> (parser, unit) act" where
  "innerStepRecursive op c d ctx s =
     (if skipped_frame s c then (Inr (), s)
      else (case checkFrame op c d ctx s of
              (Inl e, s') \<Rightarrow> (Inl e, s')
            | (Inr u, s') \<Rightarrow> innerStepCalls op (inner_calls c) (d + 1) ctx s'))"
| "innerStepCalls op [] d ctx s = (Inr (), s)"
| "innerStepCalls op (c # cs) d ctx s =
     (case innerStepRecursive op c d (new_context ctx c) s of
        (Inl e, s') \<Rightarrow> (Inl e, s')
      | (Inr u, s') \<Rightarrow> innerStepCalls op cs d ctx s')"
  by pat_completeness auto

termination
  by (relation "measure (case_sum (\<lambda>(op, c, d, ctx, s). 2 * size c + 1) (\<lambda>(op, cs, d, ctx, s). 2 * size_list size cs))")
     (use size_inner_calls in \<open>auto simp: less_Suc_eq\<close>)

definition parse_output :: "parser \<Rightarrow> erc7562_results" where
  "parse_output s = \<lparr>res_storageMap = map (\<lambda>(a, m). (a, Slots m)) (p_storageMap s),
     res_ruleViolations = ruleViolations s, res_contractAddresses = p_contractAddresses s\<rparr>"

definition parseResults :: "operation \<Rightarrow> erc7562_call \<Rightarrow> validation_result \<Rightarrow> (parser, erc7562_results) act" where
  "parseResults op c vr s =
     (let s1 = init_parse c s in
      if inner_calls c = []
      then (Inl (JsError ''Unexpected traceCall result: no calls from entrypoint.'' None), s1)
      else bindM (innerStepRecursive op c 0 (call_to c)) (\<lambda>_. getM parse_output)
             (s1\<lparr>stakeValidationResult := Some vr\<rparr>))"

definition requireCompliance :: "operation \<Rightarrow> erc7562_call \<Rightarrow> validation_result \<Rightarrow> (parser, erc7562_results) act" where
  "requireCompliance op c vr =
     bindM (modifyM (\<lambda>s. s\<lparr>bailOnViolation := True\<rparr>)) (\<lambda>_.
     bindM (parseResults op c vr) (\<lambda>results.
     bindM (modifyM (\<lambda>s. s\<lparr>bailOnViolation := False\<rparr>)) (\<lambda>_. retM results)))"

section \<open>Bailing out and collecting\<close>

text \<open>
  The contract between a sink for violations and the checks that report to it: in one mode a
  report is logged, in the other it is logged and thrown. What follows holds for every action
  built from reports and steps that do not look at the mode: run in the throwing mode it stops
  at the first violation the collecting mode logs, and behaves the same when there is none.
\<close>

locale violation_sink =
  fixes report :: "'v \<Rightarrow> ('s, unit) act"
    and log :: "'s \<Rightarrow> 'v list"
    and bail :: "'s \<Rightarrow> bool"
    and set_bail :: "'s \<Rightarrow> 's"
    and fail :: "'v \<Rightarrow> js_error"
  assumes report_collects: "\<not> bail s \<Longrightarrow>
      fst (report v s) = Inr () \<and> log (snd (report v s)) = log s @ [v] \<and> \<not> bail (snd (report v s))"
    and report_bails: "\<not> bail s \<Longrightarrow>
      report v (set_bail s) = (Inl (fail v), set_bail (snd (report v s)))"
    and log_set_bail: "log (set_bail s) = log s"
begin

definition faithful_at :: "('s, 'a) act \<Rightarrow> 's \<Rightarrow> 'v list \<Rightarrow> bool" where
  "faithful_at f s vs \<longleftrightarrow> \<not> bail (snd (f s)) \<and> log (snd (f s)) = log s @ vs \<and>
     (case vs of
        [] \<Rightarrow> f (set_bail s) = (fst (f s), set_bail (snd (f s)))
      | v # _ \<Rightarrow> fst (f (set_bail s)) = Inl (fail v) \<and> log (snd (f (set_bail s))) = log s @ [v])"

definition faithful :: "('s, 'a) act \<Rightarrow> bool" where
  "faithful f \<longleftrightarrow> (\<forall>s. \<not> bail s \<longrightarrow> (\<exists>vs. faithful_at f s vs))"

lemma faithfulI: "(\<And>s. \<not> bail s \<Longrightarrow> \<exists>vs. faithful_at f s vs) \<Longrightarrow> faithful f"
  by (simp add: faithful_def)

lemma faithfulE:
  assumes "faithful f" and "\<not> bail s"
  obtains vs where "faithful_at f s vs"
  using assms by (auto simp: faithful_def)

lemma faithful_silent:
  assumes "\<And>s. \<not> bail s \<Longrightarrow> \<not> bail (snd (f s))"
    and "\<And>s. \<not> bail s \<Longrightarrow> log (snd (f s)) = log s"
    and "\<And>s. \<not> bail s \<Longrightarrow> f (set_bail s) = (fst (f s), set_bail (snd (f s)))"
  shows "faithful f"
  by (rule faithfulI, rule exI [of _ "[]"]) (simp add: faithful_at_def assms)

lemma faithful_report: "faithful (report v)"
  by (rule faithfulI, rule exI [of _ "[v]"])
     (simp add: faithful_at_def report_collects report_bails log_set_bail)

lemma faithful_ret: "faithful (retM a)"
  by (rule faithful_silent) (simp_all add: retM_def)

lemma faithful_lift: "faithful (liftE r)"
  by (rule faithful_silent) (simp_all add: liftE_def)

lemma faithful_query:
  assumes "\<And>s. g (set_bail s) = g s"
  shows "faithful (getM g)"
  by (rule faithful_silent) (simp_all add: getM_def assms)

lemma faithful_modify:
  assumes "\<And>s. bail (g s) = bail s" and "\<And>s. log (g s) = log s"
    and "\<And>s. g (set_bail s) = set_bail (g s)"
  shows "faithful (modifyM g)"
  by (rule faithful_silent) (simp_all add: modifyM_def assms)

lemma faithful_bind:
  assumes f: "faithful f" and g: "\<And>a. faithful (g a)"
  shows "faithful (bindM f g)"
proof (rule faithfulI)
  fix s assume s: "\<not> bail s"
  from f s obtain vs where vs: "faithful_at f s vs" by (rule faithfulE)
  show "\<exists>vs. faithful_at (bindM f g) s vs"
  proof (cases "fst (f s)")
    case (Inl e)
    with vs have "faithful_at (bindM f g) s vs"
      by (cases "f s"; cases "f (set_bail s)"; cases vs) (auto simp: faithful_at_def bindM_def)
    then show ?thesis by blast
  next
    case (Inr a)
    have "\<not> bail (snd (f s))" using vs by (simp add: faithful_at_def)
    then obtain ws where "faithful_at (g a) (snd (f s)) ws" by (rule faithfulE [OF g])
    with vs Inr have "faithful_at (bindM f g) s (vs @ ws)"
      by (cases "f s"; cases "f (set_bail s)"; cases vs; cases ws) (auto simp: faithful_at_def bindM_def)
    then show ?thesis by blast
  qed
qed

lemma faithful_then: "faithful f \<Longrightarrow> faithful g \<Longrightarrow> faithful (thenM f g)"
  by (simp add: thenM_def faithful_bind)

lemma faithful_if: "faithful f \<Longrightarrow> faithful g \<Longrightarrow> faithful (if b then f else g)"
  by simp

lemma faithful_forM: "(\<And>x. faithful (f x)) \<Longrightarrow> faithful (forM xs f)"
  by (induction xs) (simp_all add: faithful_ret faithful_then)

lemma faithful_seqM: "(\<And>m. m \<in> set ms \<Longrightarrow> faithful m) \<Longrightarrow> faithful (seqM ms)"
  by (induction ms) (simp_all add: faithful_ret faithful_then)

text \<open>An action chosen by looking at parts of the state other than the mode.\<close>

lemma faithful_look:
  assumes "\<And>a. faithful (F a)" and "\<And>s. F (set_bail s) = F s"
  shows "faithful (lookM F)"
proof (rule faithfulI)
  fix s assume "\<not> bail s"
  with assms(1) obtain vs where "faithful_at (F s) s vs" by (rule faithfulE)
  then have "faithful_at (lookM F) s vs" by (cases vs) (simp_all add: faithful_at_def lookM_def assms(2))
  then show "\<exists>vs. faithful_at (lookM F) s vs" by blast
qed

lemmas faithful_intros = faithful_report faithful_ret faithful_lift faithful_bind faithful_then
  faithful_if faithful_forM faithful_seqM

text \<open>The two modes compared on a whole run that starts with an empty log.\<close>

lemma first_violation_thrown:
  assumes "faithful f" and "\<not> bail s" and "log s = []"
  shows "fst (f (set_bail s)) =
    (case log (snd (f s)) of [] \<Rightarrow> fst (f s) | v # _ \<Rightarrow> Inl (fail v))"
proof -
  from assms(1,2) obtain vs where "faithful_at f s vs" by (rule faithfulE)
  then show ?thesis using assms(3) by (cases vs) (simp_all add: faithful_at_def)
qed

end

definition set_bailing :: "parser \<Rightarrow> parser" where
  "set_bailing s = s\<lparr>bailOnViolation := True\<rparr>"

interpretation sink: violation_sink violationDetected ruleViolations bailOnViolation set_bailing toError
  by unfold_locales (simp_all add: violationDetected_def set_bailing_def)

end
