(* ===== verification/ERC7562Compliance.thy ===== *)
theory ERC7562Compliance
  imports ERC7562Parser
begin

text \<open>
  What the walk of \<^verbatim>\<open>ERC7562Parser.ts\<close> establishes: the throwing entry point
  \<open>requireCompliance\<close> against the collecting one \<open>parseResults\<close>, and the rules every frame
  of a compliant trace satisfies, stated as predicates of the frame.
\<close>

section \<open>Every check behaves the same in both modes\<close>

lemma bailing_parts [simp]:
  "p_lib (set_bailing s) = p_lib s" "keccak (set_bailing s) = keccak s"
  "currentEntity (set_bailing s) = currentEntity s"
  "currentEntityAddress (set_bailing s) = currentEntityAddress s"
  "stakeValidationResult (set_bailing s) = stakeValidationResult s"
  "entryPointAddress (set_bailing s) = entryPointAddress s"
  "senderCreatorAddress (set_bailing s) = senderCreatorAddress s"
  "nonceManagerAddress (set_bailing s) = nonceManagerAddress s"
  by (simp_all add: set_bailing_def)

lemma bailing_reads [simp]:
  "isCallToEntryPoint c (set_bailing s) = isCallToEntryPoint c s"
  "isEntityStaked e (set_bailing s) = isEntityStaked e s"
  "tryGetAddressName op a (set_bailing s) = tryGetAddressName op a s"
  "parseEntitySlots op (set_bailing s) = parseEntitySlots op s"
  "new_violation r d ctx a c oc v desc (set_bailing s) = new_violation r d ctx a c oc v desc s"
  "entity_of_call op c (set_bailing s) = entity_of_call op c s"
  "create_allowed op c (set_bailing s) = create_allowed op c s"
  "illegal_zero_code op (set_bailing s) = illegal_zero_code op s"
  "context_returned (set_bailing s) = context_returned s"
  "slot_access op c sa ea slot (set_bailing s) = slot_access op c sa ea slot s"
  "slot_description op c ns slot (set_bailing s) = slot_description op c ns slot s"
  "skipped_frame (set_bailing s) c = skipped_frame s c"
  by (simp_all add: isCallToEntryPoint_def isEntityStaked_def tryGetAddressName_def parseEntitySlots_def
      new_violation_def entity_of_call_def create_allowed_def illegal_zero_code_def context_returned_def
      slot_access_def slot_description_def skipped_frame_def Let_def fun_eq_iff)

lemma faithful_set_field:
  "sink.faithful (modifyM (\<lambda>t. t\<lparr>p_storageMap := f (p_storageMap t)\<rparr>))"
  "sink.faithful (modifyM (\<lambda>t. t\<lparr>currentEntity := ent, currentEntityAddress := a\<rparr>))"
  "sink.faithful (modifyM (push_address b))"
  by (rule sink.faithful_modify; simp add: set_bailing_def push_address_def)+

lemma faithful_Let: "sink.faithful (f a) \<Longrightarrow> sink.faithful (let x = a in f x)"
  by simp

lemma faithful_prod: "(\<And>x y. sink.faithful (f x y)) \<Longrightarrow> sink.faithful (case p of (x, y) \<Rightarrow> f x y)"
  by (cases p) simp

lemmas faithful_checks_defs = detectEntityChange_def checkOp011_def checkOp020_def checkOp031_def
  checkOp041_def checkOp054_def checkOp054ExtCode_def checkOp061_def checkOp062AllowedPrecompiles_def
  checkOp080_def checkErep050_def

lemma faithful_checks:
  "sink.faithful (detectEntityChange op c)"
  "sink.faithful (checkOp011 c d ctx)"
  "sink.faithful (checkOp020 c d ctx)"
  "sink.faithful (checkOp031 op c d ctx)"
  "sink.faithful (checkOp041 op c d ctx)"
  "sink.faithful (checkOp054 c d ctx)"
  "sink.faithful (checkOp054ExtCode c b d ctx)"
  "sink.faithful (checkOp061 c d ctx)"
  "sink.faithful (checkOp062AllowedPrecompiles c d ctx)"
  "sink.faithful (checkOp080 c d ctx)"
  "sink.faithful (checkErep050 c d ctx)"
  unfolding faithful_checks_defs
  by (rule sink.faithful_look; (intro sink.faithful_intros faithful_set_field faithful_Let faithful_prod)?;
      simp cong: if_cong)+

lemma faithful_checkSlot: "sink.faithful (checkSlot op c d ctx es slot)"
  unfolding checkSlot_def
  by (intro sink.faithful_then faithful_set_field sink.faithful_look)
     (intro sink.faithful_intros faithful_Let, simp cong: if_cong)

lemma faithful_checkStorage: "sink.faithful (checkStorage op c d ctx)"
  unfolding checkStorage_def
  by (rule sink.faithful_look) (intro sink.faithful_intros faithful_checkSlot, simp)

lemma faithful_checkFrame: "sink.faithful (checkFrame op c d ctx)"
  unfolding checkFrame_def
  by (rule sink.faithful_seqM) (auto intro: faithful_checks faithful_checkStorage faithful_set_field)

lemma innerStep_eqs:
  "innerStepRecursive op c d ctx = lookM (\<lambda>s. if skipped_frame s c then retM ()
     else thenM (checkFrame op c d ctx) (innerStepCalls op (inner_calls c) (d + 1) ctx))"
  "innerStepCalls op [] d ctx = retM ()"
  "innerStepCalls op (c # cs) d ctx =
     thenM (innerStepRecursive op c d (new_context ctx c)) (innerStepCalls op cs d ctx)"
  by (simp_all add: fun_eq_iff monad_simps split: prod.splits sum.splits)

declare innerStepRecursive.simps [simp del] innerStepCalls.simps [simp del]

text \<open>Induction over the call tree alone.\<close>

lemma call_tree_induct:
  assumes "\<And>c. Q (inner_calls c) \<Longrightarrow> P c" and "Q []"
    and "\<And>c cs. P c \<Longrightarrow> Q cs \<Longrightarrow> Q (c # cs)"
  shows "P c" and "Q cs"
  by (induction c and cs rule: frames_frames_list.induct) (use assms in auto)

lemma faithful_innerStep:
  "\<forall>d ctx. sink.faithful (innerStepRecursive op c d ctx)"
  "\<forall>d ctx. sink.faithful (innerStepCalls op cs d ctx)"
proof (induction c and cs rule: call_tree_induct)
  case (1 c)
  show ?case unfolding innerStep_eqs(1)
    by (intro allI sink.faithful_look sink.faithful_if sink.faithful_ret sink.faithful_then
        faithful_checkFrame spec [OF spec [OF 1]]) simp
next
  case 2
  show ?case by (simp add: innerStep_eqs sink.faithful_ret)
next
  case (3 c cs)
  then show ?case unfolding innerStep_eqs(3) by (blast intro: sink.faithful_then)
qed

section \<open>The two entry points\<close>

lemma parse_walk:
  assumes "inner_calls c \<noteq> []"
  shows "parseResults op c vr s =
    bindM (innerStepRecursive op c 0 (call_to c)) (\<lambda>_. getM parse_output)
      ((init_parse c s)\<lparr>stakeValidationResult := Some vr\<rparr>)"
  using assms by (simp add: parseResults_def Let_def)

lemma init_parse_parts [simp]:
  "ruleViolations (init_parse c s) = []" "bailOnViolation (init_parse c s) = bailOnViolation s"
  by (simp_all add: init_parse_def)

lemma fst_requireCompliance:
  "fst (requireCompliance op c vr s) = fst (parseResults op c vr (set_bailing s))"
  by (cases "parseResults op c vr (set_bailing s)")
     (auto simp: requireCompliance_def monad_simps set_bailing_def split: sum.splits)

lemma init_parse_bailing: "(init_parse c (set_bailing s))\<lparr>stakeValidationResult := v\<rparr> =
    set_bailing ((init_parse c s)\<lparr>stakeValidationResult := v\<rparr>)"
  by (simp add: init_parse_def set_bailing_def)

lemma faithful_parse_output:
  "sink.faithful (bindM (innerStepRecursive op c d ctx) (\<lambda>_. getM parse_output))"
proof (intro sink.faithful_bind sink.faithful_query)
  show "sink.faithful (innerStepRecursive op c d ctx)" using faithful_innerStep(1) by blast
  show "\<And>s. parse_output (set_bailing s) = parse_output s"
    by (simp add: parse_output_def set_bailing_def)
qed

text \<open>C19: \<^verbatim>\<open>requireCompliance\<close> is \<^verbatim>\<open>parseResults\<close> made strict: on any trace it throws exactly
  the first violation that \<^verbatim>\<open>parseResults\<close> collects, and when none is collected it has the
  same outcome, be it the results or an error of another kind.\<close>

theorem requireCompliance_throws_first_violation:
  assumes "\<not> bailOnViolation s"
  shows "fst (requireCompliance op c vr s) =
    (case ruleViolations (snd (parseResults op c vr s)) of
       [] \<Rightarrow> fst (parseResults op c vr s)
     | v # _ \<Rightarrow> Inl (toError v))"
proof (cases "inner_calls c = []")
  case True
  then show ?thesis by (simp add: fst_requireCompliance) (simp add: parseResults_def)
next
  case False
  let ?s = "(init_parse c s)\<lparr>stakeValidationResult := Some vr\<rparr>"
  let ?f = "bindM (innerStepRecursive op c 0 (call_to c)) (\<lambda>_. getM parse_output)"
  have "fst (?f (set_bailing ?s)) =
      (case ruleViolations (snd (?f ?s)) of [] \<Rightarrow> fst (?f ?s) | v # _ \<Rightarrow> Inl (toError v))"
    by (rule sink.first_violation_thrown [OF faithful_parse_output]) (simp_all add: assms)
  then show ?thesis
    by (simp only: fst_requireCompliance parse_walk [OF False] init_parse_bailing)
qed

section \<open>The rules as predicates of a frame\<close>

text \<open>
  Each rule as the ERC states it, for a frame \<open>c\<close> that runs while the parser is in the state
  \<open>s\<close>: only the constants of the parser, the stakes, the hash inputs and the current entity
  of \<open>s\<close> matter.
\<close>

definition rule_opcodes :: "erc7562_call \<Rightarrow> parser \<Rightarrow> bool" where
  "rule_opcodes c s \<longleftrightarrow>
     toLowerCase (call_to c) = entryPointAddress s \<or> (\<forall>o' \<in> set (used_opcode_names c). o' \<notin> set bannedOpCodes)"

definition rule_create :: "operation \<Rightarrow> erc7562_call \<Rightarrow> parser \<Rightarrow> bool" where
  "rule_create op c s \<longleftrightarrow> call_type c \<in> {''CREATE'', ''CREATE2''} \<longrightarrow> create_allowed op c s"

definition rule_deployed_code :: "operation \<Rightarrow> erc7562_call \<Rightarrow> parser \<Rightarrow> bool" where
  "rule_deployed_code op c s \<longleftrightarrow> (\<forall>x \<in> set (contractSize c). \<not> illegal_zero_code op s x)"

definition rule_entry_point :: "erc7562_call \<Rightarrow> parser \<Rightarrow> bool" where
  "rule_entry_point c s \<longleftrightarrow>
     (isCallToEntryPoint c s \<longrightarrow> tryDetectKnownMethod (p_lib s) c \<in> set entryPointMethods) \<and>
     (\<forall>a \<in> set (extCodeAccessInfo c). toLowerCase a \<noteq> entryPointAddress s)"

definition rule_value :: "erc7562_call \<Rightarrow> parser \<Rightarrow> bool" where
  "rule_value c s \<longleftrightarrow> isCallToEntryPoint c s \<or> call_value_of (p_lib s) c = Inr 0"

definition rule_precompiles :: "erc7562_call \<Rightarrow> bool" where
  "rule_precompiles c \<longleftrightarrow> (\<forall>a \<in> set (obj_keys (contractSize c)). \<not> isForbiddenPrecompiled a)"

definition rule_staked_opcodes :: "erc7562_call \<Rightarrow> parser \<Rightarrow> bool" where
  "rule_staked_opcodes c s \<longleftrightarrow>
     isEntityStaked None s \<or> (\<forall>o' \<in> set (used_opcode_names c). o' \<notin> set opcodesOnlyInStakedEntities)"

definition rule_context :: "parser \<Rightarrow> bool" where
  "rule_context s \<longleftrightarrow> \<not> (currentEntity s = Ent_paymaster \<and> \<not> isEntityStaked None s \<and> context_returned s)"

definition system_frame :: "erc7562_call \<Rightarrow> parser \<Rightarrow> bool" where
  "system_frame c s \<longleftrightarrow>
     toLowerCase (call_to c) = entryPointAddress s \<or> nonceManagerAddress s = Some (toLowerCase (call_to c))"

definition slot_ok :: "operation \<Rightarrow> erc7562_call \<Rightarrow> string list obj \<Rightarrow> string \<Rightarrow> parser \<Rightarrow> bool" where
  "slot_ok op c es slot s \<longleftrightarrow>
     (\<exists>sa ea. associatedWith (p_lib s) slot (toLowerCase (sender op)) es = Inr sa \<and>
        associatedWith (p_lib s) slot (toLowerCase (currentEntityAddress s)) es = Inr ea \<and>
        sp_allowed (slot_access op c sa ea slot s))"

definition rule_storage :: "operation \<Rightarrow> erc7562_call \<Rightarrow> parser \<Rightarrow> bool" where
  "rule_storage op c s \<longleftrightarrow> system_frame c s \<or>
     (\<exists>es. parseEntitySlots op s = Inr es \<and> (\<forall>slot \<in> set (all_slots c). slot_ok op c es slot s))"

definition frame_ok :: "operation \<Rightarrow> erc7562_call \<Rightarrow> parser \<Rightarrow> bool" where
  "frame_ok op c s \<longleftrightarrow>
     rule_opcodes c s \<and> \<not> outOfGas c \<and> rule_create op c s \<and> rule_deployed_code op c s \<and>
     rule_entry_point c s \<and> rule_value c s \<and> rule_precompiles c \<and> rule_staked_opcodes c s \<and>
     rule_context s \<and> rule_storage op c s"

section \<open>A strict check returns exactly when its rule holds\<close>

lemmas strict_iffs = returns_iffs

lemma strict_violation [simp]: "bailOnViolation s \<Longrightarrow> violationDetected v s \<noteq> (Inr u, t)"
  by (simp add: violationDetected_def)

lemma strict_forM_if:
  assumes "bailOnViolation s"
  shows "forM xs (\<lambda>x. if P x then violationDetected (V x) else retM ()) s = (Inr (), t) \<longleftrightarrow>
    t = s \<and> (\<forall>x \<in> set xs. \<not> P x)"
  by (induction xs) (auto simp: strict_iffs assms)

lemma strict_forM:
  assumes "bailOnViolation s"
  shows "forM xs (\<lambda>x. violationDetected (V x)) s = (Inr (), t) \<longleftrightarrow> t = s \<and> xs = []"
  using assms by (cases xs) (auto simp: strict_iffs)

lemma strict_checkOp011: "bailOnViolation s \<Longrightarrow> checkOp011 c d ctx s = (Inr (), t) \<longleftrightarrow> t = s \<and> rule_opcodes c s"
  by (auto simp: checkOp011_def strict_iffs strict_forM  rule_opcodes_def filter_empty_conv)

lemma strict_checkOp020: "bailOnViolation s \<Longrightarrow> checkOp020 c d ctx s = (Inr (), t) \<longleftrightarrow> t = s \<and> \<not> outOfGas c"
  by (simp add: checkOp020_def strict_iffs )

lemma strict_checkOp031: "bailOnViolation s \<Longrightarrow> checkOp031 op c d ctx s = (Inr (), t) \<longleftrightarrow> t = s \<and> rule_create op c s"
  by (auto simp: checkOp031_def strict_iffs  rule_create_def)

lemma strict_checkOp041: "bailOnViolation s \<Longrightarrow> checkOp041 op c d ctx s = (Inr (), t) \<longleftrightarrow> t = s \<and> rule_deployed_code op c s"
  by (simp add: checkOp041_def lookM_def strict_forM_if  rule_deployed_code_def case_prod_unfold)

lemma strict_checkOp054:
  "bailOnViolation s \<Longrightarrow> checkOp054 c d ctx s = (Inr (), t) \<longleftrightarrow>
     t = s \<and> (isCallToEntryPoint c s \<longrightarrow> tryDetectKnownMethod (p_lib s) c \<in> set entryPointMethods)"
  by (auto simp: checkOp054_def strict_iffs  Let_def)

lemma strict_checkOp054ExtCode:
  "bailOnViolation s \<Longrightarrow> checkOp054ExtCode c a d ctx s = (Inr (), t) \<longleftrightarrow>
     t = s \<and> (\<forall>a \<in> set (extCodeAccessInfo c). toLowerCase a \<noteq> entryPointAddress s)"
  by (simp add: checkOp054ExtCode_def lookM_def strict_forM_if )

lemma strict_checkOp061: "bailOnViolation s \<Longrightarrow> checkOp061 c d ctx s = (Inr (), t) \<longleftrightarrow> t = s \<and> rule_value c s"
  by (auto simp: checkOp061_def strict_iffs  rule_value_def)

lemma strict_checkOp062:
  "bailOnViolation s \<Longrightarrow> checkOp062AllowedPrecompiles c d ctx s = (Inr (), t) \<longleftrightarrow> t = s \<and> rule_precompiles c"
  by (simp add: checkOp062AllowedPrecompiles_def lookM_def strict_forM_if  rule_precompiles_def)

lemma strict_checkOp080: "bailOnViolation s \<Longrightarrow> checkOp080 c d ctx s = (Inr (), t) \<longleftrightarrow> t = s \<and> rule_staked_opcodes c s"
  by (auto simp: checkOp080_def lookM_def Let_def strict_forM  rule_staked_opcodes_def filter_empty_conv)

lemma strict_checkErep050: "bailOnViolation s \<Longrightarrow> checkErep050 c d ctx s = (Inr (), t) \<longleftrightarrow> t = s \<and> rule_context s"
  by (auto simp: checkErep050_def strict_iffs  rule_context_def)

text \<open>What the walk has put out so far: the addresses called and the slots touched.\<close>

definition put_out :: "string list \<Rightarrow> string obj obj \<Rightarrow> parser \<Rightarrow> parser" where
  "put_out as m s = s\<lparr>p_contractAddresses := as, p_storageMap := m\<rparr>"

definition with_entity :: "aa_entity \<times> string \<Rightarrow> parser \<Rightarrow> parser" where
  "with_entity e s = s\<lparr>currentEntity := fst e, currentEntityAddress := snd e\<rparr>"

lemma put_out_parts [simp]:
  "p_contractAddresses (put_out as m s) = as" "p_storageMap (put_out as m s) = m"
  "p_lib (put_out as m s) = p_lib s" "currentEntity (put_out as m s) = currentEntity s"
  "currentEntityAddress (put_out as m s) = currentEntityAddress s"
  "entryPointAddress (put_out as m s) = entryPointAddress s"
  "senderCreatorAddress (put_out as m s) = senderCreatorAddress s"
  "bailOnViolation (put_out as m s) = bailOnViolation s"
  "ruleViolations (put_out as m s) = ruleViolations s"
  by (simp_all add: put_out_def)

lemma with_entity_parts [simp]:
  "bailOnViolation (with_entity e s) = bailOnViolation s"
  "ruleViolations (with_entity e s) = ruleViolations s"
  "with_entity e (put_out as m s) = put_out as m (with_entity e s)"
  "put_out as m (put_out as' m' s) = put_out as m s"
  by (simp_all add: with_entity_def put_out_def)

lemma put_out_same: "put_out (p_contractAddresses s) (p_storageMap s) s = s"
  by (simp add: put_out_def)

lemma put_out_updates [simp]:
  "push_address a (put_out as m s) = put_out (as @ [a]) m s"
  "(put_out as m s)\<lparr>p_storageMap := m'\<rparr> = put_out as m' s"
  "(put_out as m s)\<lparr>currentEntity := x, currentEntityAddress := y\<rparr> = put_out as m (with_entity (x, y) s)"
  by (simp_all add: put_out_def push_address_def with_entity_def)

lemma put_out_reads [simp]:
  "isCallToEntryPoint c (put_out as m s) = isCallToEntryPoint c s"
  "isEntityStaked e (put_out as m s) = isEntityStaked e s"
  "parseEntitySlots op (put_out as m s) = parseEntitySlots op s"
  "entity_of_call op c (put_out as m s) = entity_of_call op c s"
  "slot_access op c sa ea slot (put_out as m s) = slot_access op c sa ea slot s"
  "skipped_frame (put_out as m s) c = skipped_frame s c"
  "system_frame c (put_out as m s) = system_frame c s"
  by (simp_all add: isCallToEntryPoint_def isEntityStaked_def parseEntitySlots_def entity_of_call_def
      slot_access_def skipped_frame_def system_frame_def put_out_def Let_def)

lemma put_out_rules [simp]:
  "rule_opcodes c (put_out as m s) = rule_opcodes c s"
  "rule_create op c (put_out as m s) = rule_create op c s"
  "rule_deployed_code op c (put_out as m s) = rule_deployed_code op c s"
  "rule_entry_point c (put_out as m s) = rule_entry_point c s"
  "rule_value c (put_out as m s) = rule_value c s"
  "rule_staked_opcodes c (put_out as m s) = rule_staked_opcodes c s"
  "rule_context (put_out as m s) = rule_context s"
  "slot_ok op c es slot (put_out as m s) = slot_ok op c es slot s"
  "rule_storage op c (put_out as m s) = rule_storage op c s"
  by (simp_all add: rule_opcodes_def rule_create_def create_allowed_def rule_deployed_code_def
      illegal_zero_code_def rule_entry_point_def rule_value_def rule_staked_opcodes_def rule_context_def
      context_returned_def slot_ok_def rule_storage_def Let_def) (simp_all add: put_out_def)

definition touch_slots :: "string \<Rightarrow> string list \<Rightarrow> string obj obj \<Rightarrow> string obj obj" where
  "touch_slots a slots m = foldl (\<lambda>m slot. touch_slot a slot m) m slots"

lemma strict_checkSlot:
  "bailOnViolation s \<Longrightarrow> checkSlot op c d ctx es slot (put_out as m s) = (Inr (), t) \<longleftrightarrow>
     slot_ok op c es slot s \<and> t = put_out as (touch_slot (call_to c) slot m) s"
  by (auto simp: checkSlot_def strict_iffs modifyM_def slot_ok_def Let_def)

lemma strict_checkSlots:
  "bailOnViolation s \<Longrightarrow> forM slots (checkSlot op c d ctx es) (put_out as m s) = (Inr (), t) \<longleftrightarrow>
     (\<forall>slot \<in> set slots. slot_ok op c es slot s) \<and> t = put_out as (touch_slots (call_to c) slots m) s"
  by (induction slots arbitrary: m) (auto simp: strict_iffs strict_checkSlot touch_slots_def)

definition frame_touches :: "erc7562_call \<Rightarrow> parser \<Rightarrow> string obj obj \<Rightarrow> string obj obj" where
  "frame_touches c s m = (if system_frame c s then m else touch_slots (call_to c) (all_slots c) m)"

lemma strict_checkStorage:
  "bailOnViolation s \<Longrightarrow> checkStorage op c d ctx (put_out as m s) = (Inr (), t) \<longleftrightarrow>
     rule_storage op c s \<and> t = put_out as (frame_touches c s m) s"
  by (auto simp: checkStorage_def strict_iffs strict_checkSlots rule_storage_def frame_touches_def)
     (auto simp: system_frame_def put_out_def)

text \<open>The entity in charge of a frame.\<close>

definition entity_after :: "operation \<Rightarrow> erc7562_call \<Rightarrow> parser \<Rightarrow> (aa_entity \<times> string) res" where
  "entity_after op c s =
     (if toLowerCase (call_from c) \<in> {AddressZero, entryPointAddress s, senderCreatorAddress s}
      then entity_of_call op c s else Inr (currentEntity s, currentEntityAddress s))"

lemma entity_after_put_out [simp]: "entity_after op c (put_out as m s) = entity_after op c s"
  by (simp add: entity_after_def)

lemma strict_detectEntityChange:
  "detectEntityChange op c (put_out as m s) = (Inr (), t) \<longleftrightarrow>
     (\<exists>e. entity_after op c s = Inr e \<and> t = put_out as m (with_entity e s))"
  by (auto simp: detectEntityChange_def strict_iffs modifyM_def entity_after_def with_entity_def)

text \<open>A strict check of a frame returns exactly when the frame obeys every rule.\<close>

definition rule_checks :: "operation \<Rightarrow> erc7562_call \<Rightarrow> nat \<Rightarrow> string \<Rightarrow> (parser, unit) act" where
  "rule_checks op c d ctx = seqM [checkOp011 c d ctx, checkOp020 c d ctx, checkOp031 op c d ctx,
     checkOp041 op c d ctx, checkOp054 c d ctx, checkOp054ExtCode c (call_to c) d ctx,
     checkOp061 c d ctx, checkOp062AllowedPrecompiles c d ctx, checkOp080 c d ctx,
     checkErep050 c d ctx, checkStorage op c d ctx]"

lemma checkFrame_split: "checkFrame op c d ctx =
    thenM (modifyM (push_address (call_to c))) (thenM (detectEntityChange op c) (rule_checks op c d ctx))"
  by (simp add: checkFrame_def rule_checks_def)

lemma strict_rule_checks:
  assumes "bailOnViolation s"
  shows "rule_checks op c d ctx (put_out as m s) = (Inr (), t) \<longleftrightarrow>
    frame_ok op c s \<and> t = put_out as (frame_touches c s m) s"
proof -
  have strict: "bailOnViolation (put_out as m s)" using assms by simp
  show ?thesis
    by (simp add: rule_checks_def thenM_Inr_iff retM_Inr_iff
        strict_checkOp011 [OF strict] strict_checkOp020 [OF strict] strict_checkOp031 [OF strict]
        strict_checkOp041 [OF strict] strict_checkOp054 [OF strict] strict_checkOp054ExtCode [OF strict]
        strict_checkOp061 [OF strict] strict_checkOp062 [OF strict] strict_checkOp080 [OF strict]
        strict_checkErep050 [OF strict] strict_checkStorage assms frame_ok_def rule_entry_point_def)
qed

lemma strict_checkFrame:
  assumes "bailOnViolation s"
  shows "checkFrame op c d ctx (put_out as m s) = (Inr (), t) \<longleftrightarrow>
    (\<exists>e. entity_after op c s = Inr e \<and> frame_ok op c (with_entity e s) \<and>
         t = put_out (as @ [call_to c]) (frame_touches c (with_entity e s) m) (with_entity e s))"
  using assms
  by (auto simp: checkFrame_split thenM_Inr_iff modifyM_def strict_detectEntityChange strict_rule_checks)

section \<open>The frames of a walk\<close>

text \<open>
  The frames the walk visits, each with the state its rules are to be read in. The entity
  changes from frame to frame and is not restored when a call returns.
\<close>

function (sequential) visited :: "operation \<Rightarrow> erc7562_call \<Rightarrow> parser \<Rightarrow> ((parser \<times> erc7562_call) list \<times> parser) res"
  and visited_calls :: "operation \<Rightarrow> erc7562_call list \<Rightarrow> parser \<Rightarrow> ((parser \<times> erc7562_call) list \<times> parser) res" where
  "visited op c s =
     (if skipped_frame s c then Inr ([], s)
      else bindE (entity_after op c s) (\<lambda>e.
           bindE (visited_calls op (inner_calls c) (with_entity e s)) (\<lambda>(fs, s').
             Inr ((with_entity e s, c) # fs, s'))))"
| "visited_calls op [] s = Inr ([], s)"
| "visited_calls op (c # cs) s =
     bindE (visited op c s) (\<lambda>(fs, s1). bindE (visited_calls op cs s1) (\<lambda>(gs, s2). Inr (fs @ gs, s2)))"
  by pat_completeness auto

termination
  by (relation "measure (case_sum (\<lambda>(op, c, s). 2 * size c + 1) (\<lambda>(op, cs, s). 2 * size_list size cs))")
     (use size_inner_calls in \<open>auto simp: less_Suc_eq\<close>)

declare visited.simps [simp del]

definition all_ok :: "operation \<Rightarrow> (parser \<times> erc7562_call) list \<Rightarrow> bool" where
  "all_ok op fs \<longleftrightarrow> (\<forall>(e, c) \<in> set fs. frame_ok op c e)"

definition touched :: "(parser \<times> erc7562_call) list \<Rightarrow> string obj obj \<Rightarrow> string obj obj" where
  "touched fs m = foldl (\<lambda>m (e, c). frame_touches c e m) m fs"

lemma all_ok_simps [simp]:
  "all_ok op []" "all_ok op ((e, c) # fs) \<longleftrightarrow> frame_ok op c e \<and> all_ok op fs"
  "all_ok op (fs @ gs) \<longleftrightarrow> all_ok op fs \<and> all_ok op gs"
  by (auto simp: all_ok_def)

lemma touched_simps [simp]:
  "touched [] m = m" "touched ((e, c) # fs) m = touched fs (frame_touches c e m)"
  "touched (fs @ gs) m = touched gs (touched fs m)"
  by (simp_all add: touched_def)

definition walk_result ::
  "string list \<Rightarrow> string obj obj \<Rightarrow> operation \<Rightarrow> ((parser \<times> erc7562_call) list \<times> parser) res \<Rightarrow> unit res \<times> parser \<Rightarrow> bool" where
  "walk_result as m op v r \<longleftrightarrow>
     (\<forall>t. r = (Inr (), t) \<longleftrightarrow>
        (\<exists>fs s'. v = Inr (fs, s') \<and> all_ok op fs \<and>
           t = put_out (as @ map (\<lambda>(e, c). call_to c) fs) (touched fs m) s'))"

lemma visited_bail:
  "\<forall>s fs s'. visited op c s = Inr (fs, s') \<longrightarrow> bailOnViolation s' = bailOnViolation s"
  "\<forall>s fs s'. visited_calls op cs s = Inr (fs, s') \<longrightarrow> bailOnViolation s' = bailOnViolation s"
proof (induction c and cs rule: call_tree_induct)
  case (1 c)
  then show ?case by (auto simp: visited.simps bindE_Inr_iff split: if_splits)
next
  case (3 c cs)
  then show ?case by (fastforce simp: bindE_Inr_iff)
qed simp

lemma strict_walk:
  "\<forall>s d ctx as m. bailOnViolation s \<longrightarrow>
     walk_result as m op (visited op c s) (innerStepRecursive op c d ctx (put_out as m s))"
  "\<forall>s d ctx as m. bailOnViolation s \<longrightarrow>
     walk_result as m op (visited_calls op cs s) (innerStepCalls op cs d ctx (put_out as m s))"
proof (induction c and cs rule: call_tree_induct)
  case (1 c)
  show ?case
  proof (intro allI impI)
    fix s :: parser and d ctx as m
    assume "bailOnViolation s"
    then show "walk_result as m op (visited op c s) (innerStepRecursive op c d ctx (put_out as m s))"
      using 1
      by (auto simp: walk_result_def innerStep_eqs(1) lookM_def visited.simps retM_Inr_iff thenM_Inr_iff
          strict_checkFrame bindE_Inr_iff put_out_same)
  qed
next
  case 2
  show ?case by (auto simp: walk_result_def innerStep_eqs retM_Inr_iff)
next
  case (3 c cs)
  show ?case
  proof (intro allI impI)
    fix s :: parser and d ctx as m
    assume "bailOnViolation s"
    then show "walk_result as m op (visited_calls op (c # cs) s) (innerStepCalls op (c # cs) d ctx (put_out as m s))"
      using 3 visited_bail(1) [of op c]
      by (auto simp: walk_result_def innerStep_eqs(3) thenM_Inr_iff bindE_Inr_iff)
  qed
qed

section \<open>What a compliant trace guarantees\<close>

definition start_state :: "erc7562_call \<Rightarrow> validation_result \<Rightarrow> parser \<Rightarrow> parser" where
  "start_state c vr s = set_bailing ((init_parse c s)\<lparr>stakeValidationResult := Some vr\<rparr>)"

lemma start_state_parts [simp]:
  "bailOnViolation (start_state c vr s)" "ruleViolations (start_state c vr s) = []"
  "put_out [] [] (start_state c vr s) = start_state c vr s"
  by (simp_all add: start_state_def set_bailing_def init_parse_def put_out_def)

lemma visited_violations:
  "\<forall>s fs s'. visited op c s = Inr (fs, s') \<longrightarrow> ruleViolations s' = ruleViolations s"
  "\<forall>s fs s'. visited_calls op cs s = Inr (fs, s') \<longrightarrow> ruleViolations s' = ruleViolations s"
proof (induction c and cs rule: call_tree_induct)
  case (1 c)
  then show ?case by (auto simp: visited.simps bindE_Inr_iff split: if_splits)
next
  case (3 c cs)
  then show ?case by (fastforce simp: bindE_Inr_iff)
qed simp

definition compliant :: "operation \<Rightarrow> erc7562_call \<Rightarrow> validation_result \<Rightarrow> parser \<Rightarrow> (parser \<times> erc7562_call) list \<Rightarrow> bool" where
  "compliant op c vr s fs \<longleftrightarrow> inner_calls c \<noteq> [] \<and>
     (\<exists>s'. visited op c (start_state c vr s) = Inr (fs, s')) \<and> all_ok op fs"

definition results_of :: "(parser \<times> erc7562_call) list \<Rightarrow> erc7562_results" where
  "results_of fs = \<lparr>res_storageMap = map (\<lambda>(a, m). (a, Slots m)) (touched fs []),
     res_ruleViolations = [], res_contractAddresses = map (\<lambda>(e, f). call_to f) fs\<rparr>"

lemma requireCompliance_Inr_iff:
  "fst (requireCompliance op c vr s) = Inr r \<longleftrightarrow> (\<exists>fs. compliant op c vr s fs \<and> r = results_of fs)"
proof (cases "inner_calls c = []")
  case True
  then show ?thesis by (simp add: fst_requireCompliance parseResults_def compliant_def)
next
  case False
  let ?s = "start_state c vr s"
  have walk: "walk_result [] [] op (visited op c ?s) (innerStepRecursive op c 0 (call_to c) ?s)"
    using strict_walk(1) [rule_format, of ?s "[]" "[]" op c 0 "call_to c"] by simp
  have out: "parse_output (put_out (map (\<lambda>(e, f). call_to f) fs) (touched fs []) s') = results_of fs"
    if "visited op c ?s = Inr (fs, s')" for fs s'
    using visited_violations(1) [rule_format, OF that] by (simp add: parse_output_def results_of_def)
  have "fst (requireCompliance op c vr s) = fst (bindM (innerStepRecursive op c 0 (call_to c)) (\<lambda>_. getM parse_output) ?s)"
    by (simp add: fst_requireCompliance parse_walk [OF False] start_state_def init_parse_bailing)
  also have "\<dots> = Inr r \<longleftrightarrow> (\<exists>t. innerStepRecursive op c 0 (call_to c) ?s = (Inr (), t) \<and> parse_output t = r)"
    by (auto simp: bindM_def getM_def split: prod.splits sum.splits)
  also have "\<dots> \<longleftrightarrow> (\<exists>fs s'. visited op c ?s = Inr (fs, s') \<and> all_ok op fs \<and>
      parse_output (put_out (map (\<lambda>(e, f). call_to f) fs) (touched fs []) s') = r)"
    by (simp only: walk [unfolded walk_result_def, rule_format] append.simps) blast
  also have "\<dots> \<longleftrightarrow> (\<exists>fs. compliant op c vr s fs \<and> r = results_of fs)"
    using False out by (auto simp: compliant_def)
  finally show ?thesis .
qed

text \<open>C4: \<^verbatim>\<open>requireCompliance\<close> returns exactly for the compliant traces: those with at least one
  inner call in which every frame the walk visits obeys every rule (opcodes, out-of-gas, creation,
  deployed code, entry point, value, precompiles, staked opcodes, paymaster context, storage). The
  results are then the touched slots and called addresses of the visited frames.\<close>

theorem requireCompliance_exact:
  "fst (requireCompliance op c vr s) = Inr r \<longleftrightarrow> (\<exists>fs. compliant op c vr s fs \<and> r = results_of fs)"
  by (rule requireCompliance_Inr_iff)

lemma compliant_frame:
  assumes "compliant op c vr s fs" and "(e, f) \<in> set fs"
  shows "frame_ok op f e"
  using assms by (auto simp: compliant_def all_ok_def)

text \<open>What a trace says about slots, read off its four objects: the slots a frame accesses, and those
  it writes, permanently or transiently. The tracer counts the accesses of each slot, so the objects
  of writes hold no \<^verbatim>\<open>null\<close>.\<close>

definition recorded :: "'v obj option \<Rightarrow> string set" where
  "recorded m = (case m of None \<Rightarrow> {} | Some fs \<Rightarrow> fst ` set fs)"

definition writes_to :: "erc7562_call \<Rightarrow> string \<Rightarrow> bool" where
  "writes_to c slot \<longleftrightarrow>
     slot \<in> recorded (as_writes (accessedSlots c)) \<union> recorded (as_transientWrites (accessedSlots c))"

definition reads_from :: "erc7562_call \<Rightarrow> string \<Rightarrow> bool" where
  "reads_from c slot \<longleftrightarrow>
     slot \<in> recorded (as_reads (accessedSlots c)) \<union> recorded (as_transientReads (accessedSlots c))"

definition counted_writes :: "erc7562_call \<Rightarrow> bool" where
  "counted_writes c \<longleftrightarrow> (\<forall>fs k v. as_transientWrites (accessedSlots c) = Some fs \<and> (k, v) \<in> set fs \<longrightarrow> v \<noteq> None)"

lemma slot_keys_recorded: "set (slot_keys m) = recorded m"
  by (cases m) (simp_all add: slot_keys_def recorded_def)

lemma all_slots_iff: "slot \<in> set (all_slots c) \<longleftrightarrow> writes_to c slot \<or> reads_from c slot"
  by (auto simp: all_slots_def slot_keys_recorded writes_to_def reads_from_def)

lemma recorded_get: "slot \<in> recorded m \<Longrightarrow> \<exists>v. Option.bind m (\<lambda>w. obj_get w slot) = Some v"
  by (cases m) (auto simp: recorded_def map_of_eq_None_iff simp flip: not_None_eq)

lemma written_not_read_only:
  assumes "writes_to c slot" and "counted_writes c" shows "\<not> read_only_access c slot"
proof
  assume r: "read_only_access c slot"
  then have "slot \<notin> recorded (as_writes (accessedSlots c))" using recorded_get by (fastforce simp: read_only_access_def)
  then have "slot \<in> recorded (as_transientWrites (accessedSlots c))" using assms(1) by (simp add: writes_to_def)
  then obtain fs v where "as_transientWrites (accessedSlots c) = Some fs" "obj_get fs slot = Some v"
    using recorded_get by (fastforce simp: bind_eq_Some_conv)
  moreover from this have "v \<noteq> None" using assms(2) map_of_SomeD by (fastforce simp: counted_writes_def)
  ultimately show False using r by (auto simp: read_only_access_def)
qed

lemma returned_compliant:
  assumes "fst (requireCompliance op c vr s) = Inr r" and "visited op c (start_state c vr s) = Inr (fs, s')"
  shows "compliant op c vr s fs \<and> r = results_of fs"
  using assms by (auto simp: requireCompliance_Inr_iff compliant_def)

text \<open>C8: in a compliant trace whose transient writes are counted, a frame called at an address other
  than the entry point and the nonce manager writes a slot, permanently or transiently, only if it is
  called at the sender, or the slot is associated with the sender (and then, if the operation deploys
  the sender, only with a staked factory), or the entity in charge is staked and the frame is called
  at that entity or the slot is associated with it. The address called is the account that owns the
  storage, except for a \<^verbatim>\<open>DELEGATECALL\<close> or \<^verbatim>\<open>CALLCODE\<close> frame, where the code, and so this property,
  goes by the address of the code that runs.\<close>

theorem compliant_writes_confined:
  assumes "fst (requireCompliance op c vr s) = Inr r"
    and "visited op c (start_state c vr s) = Inr (fs, s')" and "(e, f) \<in> set fs"
    and "\<not> system_frame f e" and "writes_to f slot" and "counted_writes f"
  shows "\<exists>es sa ea. parseEntitySlots op e = Inr es \<and>
    associatedWith (p_lib e) slot (toLowerCase (sender op)) es = Inr sa \<and>
    associatedWith (p_lib e) slot (toLowerCase (currentEntityAddress e)) es = Inr ea \<and>
    (toLowerCase (call_to f) = toLowerCase (sender op) \<or>
     sa \<and> (factory op = None \<or> isEntityStaked (Some Ent_factory) e) \<or>
     isEntityStaked None e \<and> (ea \<or> toLowerCase (call_to f) = toLowerCase (currentEntityAddress e)))"
proof -
  have "rule_storage op f e"
    using compliant_frame assms(3) returned_compliant [OF assms(1,2)] by (auto simp: frame_ok_def)
  then obtain es where es: "parseEntitySlots op e = Inr es" "slot_ok op f es slot e"
    using assms(4,5) by (auto simp: rule_storage_def all_slots_iff)
  from es(2) obtain sa ea where
    "associatedWith (p_lib e) slot (toLowerCase (sender op)) es = Inr sa"
    "associatedWith (p_lib e) slot (toLowerCase (currentEntityAddress e)) es = Inr ea"
    "sp_allowed (slot_access op f sa ea slot e)"
    by (auto simp: slot_ok_def)
  with es(1) written_not_read_only [OF assms(5,6)] show ?thesis by (auto simp: slot_access_def Let_def)
qed

definition slot_recorded :: "string obj obj \<Rightarrow> string \<Rightarrow> string \<Rightarrow> bool" where
  "slot_recorded sm a slot \<longleftrightarrow> (\<exists>m. obj_get sm a = Some m \<and> obj_get m slot \<noteq> None)"

lemma touch_slot_recorded:
  "slot_recorded (touch_slot b sl' sm) a sl \<longleftrightarrow> slot_recorded sm a sl \<or> (a = b \<and> sl = sl')"
  by (auto simp: slot_recorded_def touch_slot_def or_else_def split: option.splits if_splits)

lemma touch_slots_recorded:
  "slot_recorded (touch_slots b slots sm) a sl \<longleftrightarrow> slot_recorded sm a sl \<or> (a = b \<and> sl \<in> set slots)"
  by (induction slots arbitrary: sm) (auto simp: touch_slots_def touch_slot_recorded)

lemma frame_touches_recorded:
  "slot_recorded (frame_touches f e sm) a sl \<longleftrightarrow> slot_recorded sm a sl \<or>
     (\<not> system_frame f e \<and> call_to f = a \<and> sl \<in> set (all_slots f))"
  by (auto simp: frame_touches_def touch_slots_recorded)

lemma touched_recorded:
  "slot_recorded (touched fs sm) a sl \<longleftrightarrow> slot_recorded sm a sl \<or>
     (\<exists>(e, f) \<in> set fs. \<not> system_frame f e \<and> call_to f = a \<and> sl \<in> set (all_slots f))"
  by (induction fs arbitrary: sm) (simp, fastforce simp: frame_touches_recorded)

text \<open>C21: the storage map returned for a compliant trace is exact: it records a slot of an address
  if and only if some visited frame called at that address, outside the entry point and the nonce
  manager, reads or writes the slot, permanently or transiently.\<close>

theorem storage_map_exact:
  assumes "fst (requireCompliance op c vr s) = Inr r"
    and "visited op c (start_state c vr s) = Inr (fs, s')"
  shows "(\<exists>m. obj_get (res_storageMap r) a = Some (Slots m) \<and> obj_get m slot \<noteq> None) \<longleftrightarrow>
    (\<exists>(e, f) \<in> set fs. \<not> system_frame f e \<and> call_to f = a \<and> (reads_from f slot \<or> writes_to f slot))"
proof -
  have "obj_get (map (\<lambda>(a, m). (a, Slots m)) sm) a = map_option Slots (obj_get sm a)" for sm
    by (induction sm) auto
  then have "(\<exists>m. obj_get (res_storageMap r) a = Some (Slots m) \<and> obj_get m slot \<noteq> None) \<longleftrightarrow>
      slot_recorded (touched fs []) a slot"
    using returned_compliant [OF assms] by (auto simp: results_of_def slot_recorded_def)
  then show ?thesis by (simp add: touched_recorded all_slots_iff disj_commute) (simp add: slot_recorded_def)
qed

section \<open>One parser for many operations\<close>

definition parser_setup :: "parser \<Rightarrow> ethers_lib \<times> string \<times> string \<times> string option" where
  "parser_setup s = (p_lib s, entryPointAddress s, senderCreatorAddress s, nonceManagerAddress s)"

definition same_mode :: "parser \<Rightarrow> parser \<Rightarrow> bool" where
  "same_mode s t \<longleftrightarrow> parser_setup t = parser_setup s \<and> bailOnViolation t = bailOnViolation s"

lemma same_mode_refl [simp]: "same_mode s s"
  by (simp add: same_mode_def)

lemma keeps_mode_basic:
  "keeps (same_mode s0) (violationDetected v)"
  "keeps (same_mode s0) (modifyM (\<lambda>t. t\<lparr>p_storageMap := f (p_storageMap t)\<rparr>))"
  "keeps (same_mode s0) (modifyM (\<lambda>t. t\<lparr>currentEntity := ent, currentEntityAddress := a\<rparr>))"
  "keeps (same_mode s0) (modifyM (push_address b))"
  by (simp_all add: keeps_def violationDetected_def modifyM_def push_address_def same_mode_def parser_setup_def Let_def)

lemma keeps_Let: "keeps I (f a) \<Longrightarrow> keeps I (let x = a in f x)"
  by simp

lemma keeps_prod: "(\<And>x y. keeps I (f x y)) \<Longrightarrow> keeps I (case p of (x, y) \<Rightarrow> f x y)"
  by (cases p) simp

lemma keeps_mode_checks:
  "keeps (same_mode s0) (detectEntityChange op c)"
  "keeps (same_mode s0) (checkOp011 c d ctx)"
  "keeps (same_mode s0) (checkOp020 c d ctx)"
  "keeps (same_mode s0) (checkOp031 op c d ctx)"
  "keeps (same_mode s0) (checkOp041 op c d ctx)"
  "keeps (same_mode s0) (checkOp054 c d ctx)"
  "keeps (same_mode s0) (checkOp054ExtCode c b d ctx)"
  "keeps (same_mode s0) (checkOp061 c d ctx)"
  "keeps (same_mode s0) (checkOp062AllowedPrecompiles c d ctx)"
  "keeps (same_mode s0) (checkOp080 c d ctx)"
  "keeps (same_mode s0) (checkErep050 c d ctx)"
  unfolding faithful_checks_defs by (intro keeps_intros keeps_mode_basic keeps_Let keeps_prod)+

lemma keeps_mode_checkStorage: "keeps (same_mode s0) (checkStorage op c d ctx)"
  unfolding checkStorage_def checkSlot_def by (intro keeps_intros keeps_mode_basic keeps_Let)

lemma keeps_mode_checkFrame: "keeps (same_mode s0) (checkFrame op c d ctx)"
  unfolding checkFrame_def
  by (rule keeps_seqM) (auto intro: keeps_mode_checks keeps_mode_checkStorage keeps_mode_basic)

lemma keeps_mode_innerStep:
  "\<forall>d ctx. keeps (same_mode s0) (innerStepRecursive op c d ctx)"
  "\<forall>d ctx. keeps (same_mode s0) (innerStepCalls op cs d ctx)"
proof (induction c and cs rule: call_tree_induct)
  case (1 c)
  then show ?case unfolding innerStep_eqs(1) by (blast intro: keeps_intros keeps_mode_checkFrame)
next
  case (3 c cs)
  then show ?case unfolding innerStep_eqs(3) by (blast intro: keeps_intros)
qed (simp add: innerStep_eqs keeps_intros)

lemma parseResults_mode: "same_mode s (snd (parseResults op c vr s))"
proof (cases "inner_calls c = []")
  case True
  then show ?thesis by (simp add: parseResults_def init_parse_def same_mode_def parser_setup_def)
next
  case False
  have "keeps (same_mode s) (bindM (innerStepRecursive op c 0 (call_to c)) (\<lambda>_. getM parse_output))"
    using keeps_mode_innerStep(1) by (blast intro: keeps_intros)
  moreover have "same_mode s ((init_parse c s)\<lparr>stakeValidationResult := Some vr\<rparr>)"
    by (simp add: init_parse_def same_mode_def parser_setup_def)
  ultimately show ?thesis unfolding parse_walk [OF False] by (rule keepsD)
qed

lemma set_bailing_mode [simp]: "parser_setup (set_bailing s) = parser_setup s" "bailOnViolation (set_bailing s)"
  by (simp_all add: parser_setup_def set_bailing_def)

lemma parse_strict_determined:
  assumes "parser_setup s = parser_setup s'" and "bailOnViolation s" and "bailOnViolation s'"
  shows "fst (parseResults op c vr s) = fst (parseResults op c vr s')"
proof (cases "inner_calls c = []")
  case False
  have "(init_parse c s)\<lparr>stakeValidationResult := Some vr\<rparr> = (init_parse c s')\<lparr>stakeValidationResult := Some vr\<rparr>"
    using assms by (simp add: init_parse_def parser_setup_def)
  then show ?thesis by (simp only: parse_walk [OF False])
qed (simp add: parseResults_def)

text \<open>the verdict on an operation does not depend on what the parser was used for before: two
  parsers built with the same addresses give the same outcome, whatever they have collected and
  whether or not an earlier check threw.\<close>

theorem verdict_history_independent:
  assumes "parser_setup s = parser_setup s'"
  shows "fst (requireCompliance op c vr s) = fst (requireCompliance op c vr s')"
  unfolding fst_requireCompliance by (rule parse_strict_determined) (simp_all add: assms)

text \<open>after \<^verbatim>\<open>requireCompliance\<close> has thrown the flag \<^verbatim>\<open>bailOnViolation\<close> stays set, so a later
  \<^verbatim>\<open>parseResults\<close> no longer collects violations: it behaves as \<^verbatim>\<open>requireCompliance\<close>.\<close>

theorem thrown_check_leaves_strict_mode:
  assumes "fst (requireCompliance op c vr s) = Inl err"
  shows "fst (parseResults op' c' vr' (snd (requireCompliance op c vr s))) =
    fst (requireCompliance op' c' vr' s)"
proof -
  have "snd (requireCompliance op c vr s) = snd (parseResults op c vr (set_bailing s))"
    using assms by (cases "parseResults op c vr (set_bailing s)")
      (auto simp: requireCompliance_def monad_simps set_bailing_def split: sum.splits)
  then have "same_mode (set_bailing s) (snd (requireCompliance op c vr s))"
    by (simp add: parseResults_mode)
  then show ?thesis unfolding fst_requireCompliance
    by (intro parse_strict_determined) (simp_all add: same_mode_def)
qed

section \<open>Example traces\<close>

definition no_slots :: accessed_slots where
  "no_slots = \<lparr>as_reads = Some [], as_transientReads = Some [], as_transientWrites = Some [], as_writes = Some []\<rparr>"

definition frame_to :: "string \<Rightarrow> string \<Rightarrow> accessed_slots \<Rightarrow> int obj \<Rightarrow> erc7562_call list \<Rightarrow> erc7562_call" where
  "frame_to src dst slots opcodes cs =
     ERC7562Call slots [] None [] src ''0x0'' ''0x0'' (Some ''0x'') False None dst ''CALL'' opcodes None (Some cs) (Some [])"

definition parser_example :: parser where
  "parser_example = new_parser base_lib ''0xe'' ''0xc'' None"

definition writes_slot :: "string \<Rightarrow> accessed_slots" where
  "writes_slot k = no_slots\<lparr>as_writes := Some [(k, 1)]\<rparr>"

text \<open>The sender writes a slot of its own; and the same with \<^verbatim>\<open>TIMESTAMP\<close> used in the frame.\<close>

definition good_trace :: erc7562_call where
  "good_trace = frame_to AddressZero ''0xe'' no_slots [] [frame_to ''0xe'' ''0xa'' (writes_slot ''0x1'') [] []]"

definition bad_trace :: erc7562_call where
  "bad_trace = frame_to AddressZero ''0xe'' no_slots []
     [frame_to ''0xe'' ''0xa'' (writes_slot ''0x1'') [(''0x42'', 1)] []]"

definition inner_a :: erc7562_call where
  "inner_a = frame_to ''0xe'' ''0xa'' (writes_slot ''0x1'') [] []"

definition vr_example :: validation_result where
  "vr_example = \<lparr>preOpGas = None, prefund = None, sigFailed = False, validAfter = 0, validUntil = 0,
     senderInfo = \<lparr>addr = ''0xa'', stake = 0, unstakeDelaySec = 0, pm_context = None\<rparr>,
     factoryInfo = None, paymasterInfo = None, aggregatorInfo = None\<rparr>"

abbreviation op_a :: operation where "op_a \<equiv> base_op ''0xa'' 0"

text \<open>The storage rules go by the address called even when the frame runs in the storage of its caller:
  an account that delegates to a library is refused for writing a slot of its own, and an unstaked
  paymaster that delegates to the code of the sender may write any slot of its own.\<close>

definition delegating :: "string \<Rightarrow> string \<Rightarrow> erc7562_call" where
  "delegating src code = frame_to AddressZero ''0xe'' no_slots [] [frame_to ''0xe'' src no_slots []
     [ERC7562Call (writes_slot ''0x1'') [] None [] src ''0x0'' ''0x0'' (Some ''0x'') False None code ''DELEGATECALL'' [] None (Some []) (Some [])]]"

lemma delegatecall_by_code:
  "map v_rule (ruleViolations (snd (parseResults op_a (delegating ''0xa'' ''0xd'') vr_example parser_example))) = [sto010]"
  "ruleViolations (snd (parseResults (op_a\<lparr>paymaster := Some ''0xb''\<rparr>) (delegating ''0xb'' ''0xa'')
     (vr_example\<lparr>paymasterInfo := Some \<lparr>addr = ''0xb'', stake = 0, unstakeDelaySec = 0, pm_context = None\<rparr>\<rparr>) parser_example)) = []"
  by code_simp+

lemma bad_trace_violations:
  "map toError (ruleViolations (snd (parseResults op_a bad_trace vr_example parser_example))) =
     [RpcError ''account uses banned opcode: TIMESTAMP'' (-32502) []]"
  by code_simp

lemma parser_example_collects: "\<not> bailOnViolation parser_example"
  by (simp add: parser_example_def new_parser_def)

definition good_results :: erc7562_results where
  "good_results = \<lparr>res_storageMap = [(''0xa'', Slots [(''0x1'', [])])], res_ruleViolations = [],
     res_contractAddresses = [''0xe'', ''0xa'']\<rparr>"

lemma good_trace_returns: "fst (requireCompliance op_a good_trace vr_example parser_example) = Inr good_results"
  by code_simp

lemma example_addresses: "toLowerCase ''0xe'' = ''0xe''" "toLowerCase ''0xa'' = ''0xa''" "toLowerCase ''0xc'' = ''0xc''"
  by code_simp+

lemma good_visited:
  "\<exists>e0 e s'. visited op_a good_trace (start_state good_trace vr_example parser_example) =
       Inr ([(e0, good_trace), (e, inner_a)], s') \<and> \<not> system_frame inner_a e"
  by (simp add: visited.simps good_trace_def frame_to_def inner_a_def inner_calls_def skipped_frame_def
      start_state_def set_bailing_def init_parse_def parser_example_def new_parser_def entity_after_def
      entity_of_call_def example_addresses with_entity_def base_op_def Let_def)
     (simp add: AddressZero_def system_frame_def example_addresses lower_opt_def)

lemma inner_a_slots: "writes_to inner_a ''0x1''" "counted_writes inner_a" "set (all_slots inner_a) = {''0x1''}"
  by (simp_all add: writes_to_def counted_writes_def recorded_def all_slots_def slot_keys_def inner_a_def
      frame_to_def writes_slot_def no_slots_def)

lemma requireCompliance_throws_first_violation_witness:
  "\<not> bailOnViolation parser_example \<and>
   fst (requireCompliance op_a bad_trace vr_example parser_example) =
     Inl (RpcError ''account uses banned opcode: TIMESTAMP'' (-32502) [])"
proof -
  obtain v where "ruleViolations (snd (parseResults op_a bad_trace vr_example parser_example)) = [v]"
    and "toError v = RpcError ''account uses banned opcode: TIMESTAMP'' (-32502) []"
    using bad_trace_violations by auto
  then show ?thesis
    using requireCompliance_throws_first_violation [of parser_example op_a bad_trace vr_example]
    by (simp add: parser_example_collects)
qed

lemma compliant_writes_confined_witness:
  "\<exists>e s' e0 es sa ea.
     fst (requireCompliance op_a good_trace vr_example parser_example) = Inr good_results \<and>
     visited op_a good_trace (start_state good_trace vr_example parser_example) =
       Inr ([(e0, good_trace), (e, inner_a)], s') \<and>
     \<not> system_frame inner_a e \<and> writes_to inner_a ''0x1'' \<and> counted_writes inner_a \<and>
     parseEntitySlots op_a e = Inr es \<and>
     associatedWith (p_lib e) ''0x1'' (toLowerCase (sender op_a)) es = Inr sa \<and>
     associatedWith (p_lib e) ''0x1'' (toLowerCase (currentEntityAddress e)) es = Inr ea"
proof -
  obtain e0 e s' where v: "visited op_a good_trace (start_state good_trace vr_example parser_example) =
       Inr ([(e0, good_trace), (e, inner_a)], s')" "\<not> system_frame inner_a e"
    using good_visited by blast
  show ?thesis
    using compliant_writes_confined [OF good_trace_returns v(1) _ v(2) inner_a_slots(1,2)]
      v good_trace_returns inner_a_slots by auto
qed

lemma storage_map_exact_witness:
  "\<exists>e0 e s'. fst (requireCompliance op_a good_trace vr_example parser_example) = Inr good_results \<and>
     visited op_a good_trace (start_state good_trace vr_example parser_example) =
       Inr ([(e0, good_trace), (e, inner_a)], s') \<and>
     (\<exists>m. obj_get (res_storageMap good_results) ''0xa'' = Some (Slots m) \<and> obj_get m ''0x1'' \<noteq> None)"
proof -
  obtain e0 e s' where v: "visited op_a good_trace (start_state good_trace vr_example parser_example) =
       Inr ([(e0, good_trace), (e, inner_a)], s')" "\<not> system_frame inner_a e"
    using good_visited by blast
  have "call_to inner_a = ''0xa''" by (simp add: inner_a_def frame_to_def)
  then show ?thesis
    using storage_map_exact [OF good_trace_returns v(1), of "''0xa''" "''0x1''"] v
      good_trace_returns inner_a_slots(1) by auto
qed

lemma verdict_history_independent_witness:
  "parser_setup parser_example = parser_setup (set_bailing parser_example) \<and>
   fst (requireCompliance op_a good_trace vr_example (set_bailing parser_example)) = Inr good_results"
  using verdict_history_independent [of parser_example "set_bailing parser_example" op_a good_trace vr_example]
  by (simp add: good_trace_returns)

lemma thrown_check_leaves_strict_mode_witness:
  "\<exists>err. fst (requireCompliance op_a bad_trace vr_example parser_example) = Inl err \<and>
     fst (parseResults op_a bad_trace vr_example
       (snd (requireCompliance op_a bad_trace vr_example parser_example))) = Inl err"
proof -
  have "fst (requireCompliance op_a bad_trace vr_example parser_example) =
      Inl (RpcError ''account uses banned opcode: TIMESTAMP'' (-32502) [])"
    by code_simp
  then show ?thesis using thrown_check_leaves_strict_mode by metis
qed

end
