(* ===== verification/HexData.thy ===== *)
theory HexData
  imports Utils
begin

text \<open>
  The hex-string functions of the ethers library that \<^verbatim>\<open>packages/utils/src/ERC4337Utils.ts\<close>
  and the gas calculator call, as a record of parameters, with the documented behaviour they
  are relied on for as the predicate \<open>hex_laws\<close>: on a hex string of \<open>k\<close> bytes that denotes
  \<open>n\<close> (written \<open>hex_of k n\<close>), slicing, concatenating, padding and reading back do what their
  names say.
\<close>

section \<open>Hex strings\<close>

definition hex_digit :: "int \<Rightarrow> char" where
  "hex_digit d = (if d < 10 then char_of (48 + d) else char_of (87 + d))"

fun hex_digits :: "nat \<Rightarrow> int \<Rightarrow> string" where
  "hex_digits 0 n = []"
| "hex_digits (Suc k) n = hex_digits k (n div 16) @ [hex_digit (n mod 16)]"

definition hex_of :: "nat \<Rightarrow> int \<Rightarrow> string" where
  "hex_of k n = ''0x'' @ hex_digits (2 * k) n"

lemma length_hex_digits [simp]: "length (hex_digits k n) = k"
  by (induction k arbitrary: n) auto

lemma length_hex_of [simp]: "length (hex_of k n) = 2 + 2 * k"
  by (simp add: hex_of_def)

lemma hex_of_0 [simp]: "hex_of 0 n = ''0x''"
  by (simp add: hex_of_def)

lemma digit_value_hex_digit:
  assumes "0 \<le> d" "d < 16"
  shows "digit_value (hex_digit d) = d"
proof -
  have "(of_char (char_of (48 + d)) :: int) = 48 + d" if "d < 10" using assms that by simp
  moreover have "(of_char (char_of (87 + d)) :: int) = 87 + d" using assms by simp
  ultimately show ?thesis using assms by (simp add: digit_value_def hex_digit_def Let_def)
qed

lemma hex_digits_append:
  assumes "0 \<le> y" "y < 16 ^ j"
  shows "hex_digits i x @ hex_digits j y = hex_digits (i + j) (x * 16 ^ j + y)"
  using assms
proof (induction j arbitrary: y)
  case 0
  then have "y = 0" by simp
  then show ?case by simp
next
  case (Suc j)
  have y: "y div 16 < 16 ^ j" "0 \<le> y div 16" using Suc.prems by auto
  have shape: "x * 16 ^ Suc j + y = y + (x * 16 ^ j) * 16" by simp
  have "(x * 16 ^ Suc j + y) div 16 = x * 16 ^ j + y div 16"
    unfolding shape by (subst div_mult_self1) simp_all
  moreover have "(x * 16 ^ Suc j + y) mod 16 = y mod 16"
    unfolding shape by (rule mod_mult_self1)
  ultimately show ?case using Suc.IH [OF y(2,1)] by simp
qed

lemma hex_digits_split:
  "hex_digits (i + j) n = hex_digits i (n div 16 ^ j) @ hex_digits j n"
proof (induction j arbitrary: n)
  case (Suc j)
  have "n div 16 div 16 ^ j = n div 16 ^ Suc j" by (simp add: zdiv_zmult2_eq)
  then show ?case using Suc [of "n div 16"] by simp
qed simp

lemma hex_digits_mod: "hex_digits j (n mod 16 ^ j) = hex_digits j n"
proof (induction j arbitrary: n)
  case (Suc j)
  have "n mod 16 ^ Suc j div 16 = n div 16 mod 16 ^ j"
    by (simp add: zmod_zmult2_eq)
  moreover have "n mod 16 ^ Suc j mod 16 = n mod 16" by (simp add: mod_mod_cancel)
  ultimately show ?case using Suc [of "n div 16"] by simp
qed simp

lemma hex_of_mod [simp]: "hex_of k (n mod 256 ^ k) = hex_of k n"
  using hex_digits_mod [of "2 * k" n] by (simp add: hex_of_def power_mult)

lemma radix_value_hex_digits:
  assumes "0 \<le> n" "n < 16 ^ j"
  shows "radix_value 16 (hex_digits j n) = n"
  using assms
proof (induction j arbitrary: n)
  case (Suc j)
  have "radix_value 16 (hex_digits j (n div 16)) = n div 16" by (rule Suc.IH) (use Suc.prems in auto)
  then show ?case
    by (simp add: radix_value_def digit_value_hex_digit)
qed (simp add: radix_value_def)

lemma hex_digits_are_digits: "list_all (\<lambda>c. digit_value c < 16) (hex_digits j n)"
  by (induction j arbitrary: n) (auto simp: digit_value_hex_digit)

lemma takeWhile_id: "list_all P xs \<Longrightarrow> takeWhile P xs = xs"
  by (induction xs) auto

lemma parseInt_hex_of:
  assumes "0 < k" "0 \<le> n" "n < 256 ^ k"
  shows "parseInt None (hex_of k n) = Some n"
proof -
  have "n < 16 ^ (2 * k)" using assms(3) by (simp add: power_mult)
  moreover have "hex_digits (2 * k) n \<noteq> []"
    using assms(1) by (metis length_hex_digits list.size(3) mult_eq_0_iff nat_less_le zero_neq_numeral)
  ultimately show ?thesis using assms(2)
    by (simp add: parseInt_def hex_of_def Let_def radix_value_hex_digits takeWhile_id [OF hex_digits_are_digits])
       (simp add: toLowerCase_def lower_char_def)
qed

section \<open>The library functions\<close>

datatype abi_value = AbiStr string | AbiInt int

record hex_lib =
  hx_toHexString :: "int \<Rightarrow> string"
    \<comment> \<open>\<^verbatim>\<open>BigNumber.toHexString\<close>\<close>
  hx_bn :: "string \<Rightarrow> int res"
    \<comment> \<open>\<^verbatim>\<open>BigNumber.from\<close> of a hex string\<close>
  hx_zeroPad :: "string \<Rightarrow> nat \<Rightarrow> string res"
  hx_dataSlice :: "string \<Rightarrow> nat \<Rightarrow> nat option \<Rightarrow> string res"
  hx_dataLength :: "string \<Rightarrow> nat option"
  hx_concat :: "string list \<Rightarrow> string res"
  hx_keccak :: "string \<Rightarrow> string res"
  hx_keccak_text :: "string \<Rightarrow> string"
    \<comment> \<open>\<^verbatim>\<open>keccak256(Buffer.from(text))\<close>\<close>
  hx_abi_encode :: "string list \<Rightarrow> abi_value list \<Rightarrow> string res"
  hx_abi_decode :: "string list \<Rightarrow> string \<Rightarrow> abi_value list res"
  hx_arrayify :: "string \<Rightarrow> int list res"
  hx_bytesToHex :: "int list \<Rightarrow> string"
    \<comment> \<open>\<^verbatim>\<open>bytesToHex\<close>, and \<^verbatim>\<open>hexlify\<close> of a byte array\<close>
  hx_hexlify_int :: "int \<Rightarrow> string res"
    \<comment> \<open>\<^verbatim>\<open>hexlify\<close> of a number or a BigNumber\<close>
  hx_hexValue :: "string \<Rightarrow> string res"
    \<comment> \<open>\<^verbatim>\<open>hexValue\<close>, which strips leading zeros\<close>

text \<open>What \<^verbatim>\<open>ethers\<close> documents of these functions on data of a given number of bytes. Padding to no
  bytes at all throws, even for 0, whose shortest form is \<^verbatim>\<open>0x00\<close>, and so does reading \<^verbatim>\<open>0x\<close> as a number.\<close>

definition hex_laws :: "hex_lib \<Rightarrow> bool" where
  "hex_laws H \<longleftrightarrow>
     (\<forall>n k. 0 < k \<and> 0 \<le> n \<and> n < 256 ^ k \<longrightarrow> hx_zeroPad H (hx_toHexString H n) k = Inr (hex_of k n)) \<and>
     (\<forall>n. 0 \<le> n \<longrightarrow> hx_bn H (hx_toHexString H n) = Inr n) \<and>
     (\<forall>n k. 0 < k \<and> 0 \<le> n \<and> n < 256 ^ k \<longrightarrow> hx_bn H (hex_of k n) = Inr n) \<and>
     (\<forall>n k a b. a \<le> b \<and> b \<le> k \<longrightarrow>
        hx_dataSlice H (hex_of k n) a (Some b) = Inr (hex_of (b - a) (n div 256 ^ (k - b)))) \<and>
     (\<forall>n k a. a \<le> k \<longrightarrow> hx_dataSlice H (hex_of k n) a None = Inr (hex_of (k - a) n)) \<and>
     (\<forall>n k. hx_dataLength H (hex_of k n) = Some k) \<and>
     (\<forall>ps. hx_concat H (map (\<lambda>(k, n). hex_of k n) ps) =
        Inr (''0x'' @ concat (map (\<lambda>(k, n). hex_digits (2 * k) n) ps)))"

lemma hex_lawsD:
  assumes "hex_laws H"
  shows "0 < k \<Longrightarrow> 0 \<le> n \<Longrightarrow> n < 256 ^ k \<Longrightarrow> hx_zeroPad H (hx_toHexString H n) k = Inr (hex_of k n)"
    and "0 \<le> n \<Longrightarrow> hx_bn H (hx_toHexString H n) = Inr n"
    and "0 < k \<Longrightarrow> 0 \<le> n \<Longrightarrow> n < 256 ^ k \<Longrightarrow> hx_bn H (hex_of k n) = Inr n"
    and "a \<le> b \<Longrightarrow> b \<le> k \<Longrightarrow> hx_dataSlice H (hex_of k n) a (Some b) = Inr (hex_of (b - a) (n div 256 ^ (k - b)))"
    and "a \<le> k \<Longrightarrow> hx_dataSlice H (hex_of k n) a None = Inr (hex_of (k - a) n)"
    and "hx_dataLength H (hex_of k n) = Some k"
    and "hx_concat H (map (\<lambda>(k, n). hex_of k n) ps) =
        Inr (''0x'' @ concat (map (\<lambda>(k, n). hex_digits (2 * k) n) ps))"
  using assms unfolding hex_laws_def by simp_all

text \<open>Joining two hex strings is shifting and adding.\<close>

lemma hex_join:
  assumes "0 \<le> y" "y < 256 ^ j"
  shows "hex_digits (2 * i) x @ hex_digits (2 * j) y = hex_digits (2 * (i + j)) (x * 256 ^ j + y)"
  using hex_digits_append [of y "2 * j" "2 * i" x] assms by (simp add: power_mult distrib_left)

lemma hex_concat2:
  assumes "hex_laws H" and "0 \<le> y" "y < 256 ^ j"
  shows "hx_concat H [hex_of i x, hex_of j y] = Inr (hex_of (i + j) (x * 256 ^ j + y))"
  using hex_lawsD(7) [OF assms(1), of "[(i, x), (j, y)]"] hex_join [OF assms(2,3), of i x]
  by (simp add: hex_of_def)

section \<open>An instance\<close>

text \<open>The laws are consistent: functions on the text itself satisfy them.\<close>

function byte_len :: "int \<Rightarrow> nat" where
  "byte_len n = (if n < 256 then 1 else Suc (byte_len (n div 256)))"
  by pat_completeness auto

termination byte_len
  by (relation "measure nat") auto

declare byte_len.simps [simp del]

lemma byte_len_pos [simp]: "0 < byte_len n"
  by (simp add: byte_len.simps [of n])

definition plain_hex :: hex_lib where
  "plain_hex = \<lparr>
     hx_toHexString = (\<lambda>n. hex_of (byte_len n) n),
     hx_bn = (\<lambda>s. if startsWith s ''0x'' \<and> length s > 2 then Inr (radix_value 16 (drop 2 s)) else Inl (JsError ''invalid BigNumber string'' None)),
     hx_zeroPad = (\<lambda>s k. if k = 0 then Inl (JsError ''value out of range'' None) else Inr (hex_of k (radix_value 16 (drop 2 s)))),
     hx_dataSlice = (\<lambda>s a b. Inr (''0x'' @ drop (2 * a) (case b of None \<Rightarrow> drop 2 s | Some b' \<Rightarrow> take (2 * b') (drop 2 s)))),
     hx_dataLength = (\<lambda>s. Some ((length s - 2) div 2)),
     hx_concat = (\<lambda>ss. Inr (''0x'' @ concat (map (drop 2) ss))),
     hx_keccak = (\<lambda>s. Inr s),
     hx_keccak_text = (\<lambda>s. s),
     hx_abi_encode = (\<lambda>ts vs. Inr ''0x''),
     hx_abi_decode = (\<lambda>ts s. Inr []),
     hx_arrayify = (\<lambda>s. Inr (map digit_value (drop 2 s))),
     hx_bytesToHex = (\<lambda>bs. ''0x'' @ concat (map (hex_digits 2) bs)),
     hx_hexlify_int = (\<lambda>n. Inr (hex_of 1 n)),
     hx_hexValue = (\<lambda>s. let ds = dropWhile (\<lambda>c. c = CHR ''0'') (drop 2 s) in Inr (if ds = [] then ''0x0'' else ''0x'' @ ds))\<rparr>"

lemma n_less_256_power: "0 \<le> n \<Longrightarrow> n < 256 ^ byte_len n"
proof (induction n rule: byte_len.induct)
  case (1 n)
  show ?case
  proof (cases "n < 256")
    case False
    then have "n div 256 < 256 ^ byte_len (n div 256)" using 1 by simp
    then have "n < 256 * 256 ^ byte_len (n div 256)" by simp
    then show ?thesis using False by (simp add: byte_len.simps [of n])
  qed (simp add: byte_len.simps [of n])
qed

lemma plain_hex_value: "0 \<le> n \<Longrightarrow> n < 256 ^ k \<Longrightarrow> radix_value 16 (drop 2 (hex_of k n)) = n"
  by (simp add: hex_of_def radix_value_hex_digits power_mult)

lemma plain_hex_slice:
  assumes "a \<le> b" "b \<le> k"
  shows "drop (2 * a) (take (2 * b) (hex_digits (2 * k) n)) = hex_digits (2 * (b - a)) (n div 256 ^ (k - b))"
proof -
  have "hex_digits (2 * k) n = hex_digits (2 * b) (n div 256 ^ (k - b)) @ hex_digits (2 * (k - b)) n"
  proof -
    have eq: "2 * b + 2 * (k - b) = 2 * k" using assms(2) by simp
    show ?thesis using hex_digits_split [of "2 * b" "2 * (k - b)" n] unfolding eq power_mult by simp
  qed
  moreover have "hex_digits (2 * b) m = hex_digits (2 * a) (m div 16 ^ (2 * (b - a))) @ hex_digits (2 * (b - a)) m" for m
  proof -
    have eq: "2 * a + 2 * (b - a) = 2 * b" using assms(1) by simp
    show ?thesis using hex_digits_split [of "2 * a" "2 * (b - a)" m] unfolding eq by simp
  qed
  moreover have "min (2 * a) (2 * b) = 2 * a" using assms(1) by simp
  ultimately show ?thesis by simp
qed

lemma plain_hex_laws: "hex_laws plain_hex"
  unfolding hex_laws_def
proof (intro conjI allI impI)
  fix n :: int and k a b :: nat
  show "hx_zeroPad plain_hex (hx_toHexString plain_hex n) k = Inr (hex_of k n)" if "0 < k \<and> 0 \<le> n \<and> n < 256 ^ k"
    using that plain_hex_value [OF _ n_less_256_power] by (simp add: plain_hex_def)
  show "hx_bn plain_hex (hx_toHexString plain_hex n) = Inr n" if "0 \<le> n"
    using that plain_hex_value [OF that n_less_256_power]
    by (simp add: plain_hex_def startsWith_def) (simp add: hex_of_def)
  show "hx_bn plain_hex (hex_of k n) = Inr n" if "0 < k \<and> 0 \<le> n \<and> n < 256 ^ k"
    using that plain_hex_value by (simp add: plain_hex_def startsWith_def) (simp add: hex_of_def)
  show "hx_dataSlice plain_hex (hex_of k n) a (Some b) = Inr (hex_of (b - a) (n div 256 ^ (k - b)))"
    if "a \<le> b \<and> b \<le> k"
    using that plain_hex_slice by (simp add: plain_hex_def hex_of_def)
  show "hx_dataSlice plain_hex (hex_of k n) a None = Inr (hex_of (k - a) n)" if "a \<le> k"
    using that plain_hex_slice [of a k k n] by (simp add: plain_hex_def hex_of_def)
  show "hx_dataLength plain_hex (hex_of k n) = Some k"
    by (simp add: plain_hex_def)
next
  fix ps :: "(nat \<times> int) list"
  have "map (drop 2) (map (\<lambda>(k, n). hex_of k n) ps) = map (\<lambda>(k, n). hex_digits (2 * k) n) ps"
    by (induction ps) (auto simp: hex_of_def)
  then show "hx_concat plain_hex (map (\<lambda>(k, n). hex_of k n) ps) =
      Inr (''0x'' @ concat (map (\<lambda>(k, n). hex_digits (2 * k) n) ps))"
    by (simp add: plain_hex_def del: map_map)
qed

end
