(* ===== verification/ERC4337Utils.thy ===== *)
theory ERC4337Utils
  imports HexData "HOL-Library.Word"
begin

text \<open>
  \<^verbatim>\<open>packages/utils/src/ERC4337Utils.ts\<close>: packing of operations and of validation data into
  the words the entry point uses, the operation hash, and the decoding of revert errors. The
  hex and ABI functions are the parameter \<open>hex_lib\<close> of \<open>HexData\<close>.
\<close>

unbundle bit_operations_syntax

section \<open>Packing two 128-bit halves\<close>

definition packUint :: "hex_lib \<Rightarrow> int \<Rightarrow> int \<Rightarrow> string res" where
  "packUint H high128 low128 = hx_zeroPad H (hx_toHexString H (push_bit 128 high128 + low128)) 32"

definition unpackUint :: "hex_lib \<Rightarrow> string \<Rightarrow> (int \<times> int) res" where
  "unpackUint H packed =
     bindE (hx_bn H packed) (\<lambda>packedNumber.
       Inr (drop_bit 128 packedNumber, packedNumber AND (push_bit 128 1 - 1)))"

definition packAccountGasLimits :: "hex_lib \<Rightarrow> int \<Rightarrow> int \<Rightarrow> string res" where
  "packAccountGasLimits H validationGasLimit callGasLimit' = packUint H validationGasLimit callGasLimit'"

definition unpackAccountGasLimits :: "hex_lib \<Rightarrow> string \<Rightarrow> (int \<times> int) res" where
  "unpackAccountGasLimits H accountGasLimits = unpackUint H accountGasLimits"

definition packPaymasterData :: "hex_lib \<Rightarrow> string \<Rightarrow> int \<Rightarrow> int \<Rightarrow> string option \<Rightarrow> string res" where
  "packPaymasterData H pm pmVerificationGasLimit postOpGasLimit pmData =
     bindE (packUint H pmVerificationGasLimit postOpGasLimit) (\<lambda>limits.
       hx_concat H [pm, limits, or_else pmData ''0x''])"

section \<open>Validation data\<close>

record validation_data =
  vd_aggregator :: string
  vd_validAfter :: int
  vd_validUntil :: int

definition maxUint48 :: int where
  "maxUint48 = 2 ^ 48 - 1"

definition SIG_VALIDATION_FAILED :: "hex_lib \<Rightarrow> string res" where
  "SIG_VALIDATION_FAILED H = hx_zeroPad H ''0x01'' 20"

text \<open>The slices read by \<^verbatim>\<open>parseInt\<close> are six hex bytes, so \<^verbatim>\<open>NaN\<close> cannot come out.\<close>

definition parseValidationData :: "hex_lib \<Rightarrow> int \<Rightarrow> validation_data res" where
  "parseValidationData H validationData =
     bindE (hx_zeroPad H (hx_toHexString H validationData) 32) (\<lambda>data.
     bindE (hx_dataSlice H data (32 - 20) None) (\<lambda>aggregator.
     bindE (hx_dataSlice H data (32 - 26) (Some (32 - 20))) (\<lambda>until.
     bindE (hx_dataSlice H data 0 (Some 6)) (\<lambda>after.
       let validUntil' = the (parseInt None until) in
       Inr \<lparr>vd_aggregator = aggregator, vd_validAfter = the (parseInt None after),
            vd_validUntil = (if validUntil' = 0 then maxUint48 else validUntil')\<rparr>))))"

definition mergeValidationData :: "hex_lib \<Rightarrow> validation_data \<Rightarrow> validation_data \<Rightarrow> validation_data res" where
  "mergeValidationData H account pm =
     bindE (if vd_aggregator pm \<noteq> AddressZero then SIG_VALIDATION_FAILED H else Inr (vd_aggregator account)) (\<lambda>aggregator.
       Inr \<lparr>vd_aggregator = aggregator,
            vd_validAfter = max (vd_validAfter account) (vd_validAfter pm),
            vd_validUntil = min (vd_validUntil account) (vd_validUntil pm)\<rparr>)"

definition mergeValidationDataValues :: "hex_lib \<Rightarrow> int \<Rightarrow> int \<Rightarrow> validation_data res" where
  "mergeValidationDataValues H account pm =
     bindE (parseValidationData H account) (\<lambda>a.
     bindE (parseValidationData H pm) (\<lambda>p. mergeValidationData H a p))"

definition packValidationData :: "hex_lib \<Rightarrow> validation_data \<Rightarrow> int res" where
  "packValidationData H d =
     bindE (hx_bn H (vd_aggregator d)) (\<lambda>aggregator.
       Inr (push_bit 160 (push_bit 48 (vd_validAfter d) + vd_validUntil d) + aggregator))"

section \<open>Packing an operation\<close>

record packed_user_op =
  pk_sender :: string
  pk_nonce :: string
  pk_initCode :: string
  pk_callData :: "string option"
  pk_accountGasLimits :: string
  pk_preVerificationGas :: string
  pk_gasFees :: string
  pk_paymasterAndData :: string
  pk_signature :: "string option"

definition EIP_7702_MARKER_INIT_CODE :: string where
  "EIP_7702_MARKER_INIT_CODE = ''0x7702''"

definition padEnd0 :: "nat \<Rightarrow> string \<Rightarrow> string" where
  "padEnd0 n s = s @ replicate (n - length s) (CHR ''0'')"

definition pack_paymaster :: "hex_lib \<Rightarrow> operation \<Rightarrow> string res" where
  "pack_paymaster H op =
     (case paymaster op of
        None \<Rightarrow> Inr ''0x''
      | Some pm \<Rightarrow>
          (case (paymasterVerificationGasLimit op, paymasterPostOpGasLimit op) of
             (Some v, Some p) \<Rightarrow> packPaymasterData H pm v p (paymasterData op)
           | _ \<Rightarrow> Inl (JsError ''paymaster with no gas limits'' None)))"

definition pack_initCode :: "hex_lib \<Rightarrow> operation \<Rightarrow> string res" where
  "pack_initCode H op =
     bindE (case factory op of
              None \<Rightarrow> Inr ''0x''
            | Some f \<Rightarrow> hx_concat H [f, or_else (factoryData op) ''0x'']) (\<lambda>initCode.
       if factory op = Some EIP_7702_MARKER_INIT_CODE
       then hx_concat H [padEnd0 42 EIP_7702_MARKER_INIT_CODE, or_else (factoryData op) ''0x'']
       else Inr initCode)"

definition packUserOp :: "hex_lib \<Rightarrow> operation \<Rightarrow> packed_user_op res" where
  "packUserOp H op =
     bindE (pack_paymaster H op) (\<lambda>paymasterAndData.
     bindE (pack_initCode H op) (\<lambda>initCode.
     bindE (packUint H (verificationGasLimit op) (callGasLimit op)) (\<lambda>accountGasLimits.
     bindE (case preVerificationGas op of
              None \<Rightarrow> Inl (JsError ''invalid BigNumber value'' None)
            | Some g \<Rightarrow> Inr (hx_toHexString H g)) (\<lambda>pvg.
     bindE (packUint H (maxPriorityFeePerGas op) (maxFeePerGas op)) (\<lambda>gasFees.
       Inr \<lparr>pk_sender = sender op, pk_nonce = hx_toHexString H (nonce op), pk_initCode = initCode,
            pk_callData = callData op, pk_accountGasLimits = accountGasLimits,
            pk_preVerificationGas = pvg, pk_gasFees = gasFees,
            pk_paymasterAndData = paymasterAndData, pk_signature = signature op\<rparr>)))))"

record paymaster_fields =
  pf_paymaster :: string
  pf_paymasterVerificationGas :: int
  pf_postOpGasLimit :: int
  pf_paymasterData :: string

definition unpackPaymasterAndData :: "hex_lib \<Rightarrow> string \<Rightarrow> paymaster_fields option res" where
  "unpackPaymasterAndData H paymasterAndData =
     (if length paymasterAndData \<le> 2 then Inr None
      else if (case hx_dataLength H paymasterAndData of None \<Rightarrow> True | Some n \<Rightarrow> n < 52)
      then Inl (JsError (''invalid PaymasterAndData: '' @ paymasterAndData) None)
      else
        bindE (bindE (hx_dataSlice H paymasterAndData 20 (Some 52)) (unpackUint H)) (\<lambda>(vgas, postOp).
        bindE (hx_dataSlice H paymasterAndData 0 (Some 20)) (\<lambda>pm.
        bindE (hx_dataSlice H paymasterAndData 52 None) (\<lambda>data.
          Inr (Some \<lparr>pf_paymaster = pm, pf_paymasterVerificationGas = vgas,
                     pf_postOpGasLimit = postOp, pf_paymasterData = data\<rparr>)))))"

definition unpack_initCode :: "hex_lib \<Rightarrow> string \<Rightarrow> (string \<times> string) option res" where
  "unpack_initCode H initCode =
     (if length initCode > 2
      then bindE (hx_dataSlice H initCode 0 (Some 20)) (\<lambda>f.
           bindE (hx_dataSlice H initCode 20 None) (\<lambda>fd. Inr (Some (f, fd))))
      else Inr None)"

text \<open>The numeric fields of the record hold the numbers that the packed texts denote.\<close>

definition unpackUserOp :: "hex_lib \<Rightarrow> packed_user_op \<Rightarrow> operation res" where
  "unpackUserOp H packed =
     bindE (unpackUint H (pk_accountGasLimits packed)) (\<lambda>(verificationGasLimit', callGasLimit').
     bindE (unpackUint H (pk_gasFees packed)) (\<lambda>(maxPriorityFeePerGas', maxFeePerGas').
     bindE (hx_bn H (pk_nonce packed)) (\<lambda>nonce'.
     bindE (hx_bn H (pk_preVerificationGas packed)) (\<lambda>preVerificationGas'.
     bindE (unpack_initCode H (pk_initCode packed)) (\<lambda>init.
     bindE (unpackPaymasterAndData H (pk_paymasterAndData packed)) (\<lambda>pmData.
       Inr \<lparr>sender = pk_sender packed, nonce = nonce',
         factory = map_option fst init, factoryData = map_option snd init,
         paymaster = map_option pf_paymaster pmData, paymasterData = map_option pf_paymasterData pmData,
         maxFeePerGas = maxFeePerGas', maxPriorityFeePerGas = maxPriorityFeePerGas',
         callGasLimit = callGasLimit', verificationGasLimit = verificationGasLimit',
         paymasterVerificationGasLimit = map_option pf_paymasterVerificationGas pmData,
         paymasterPostOpGasLimit = map_option pf_postOpGasLimit pmData,
         callData = pk_callData packed, signature = pk_signature packed,
         preVerificationGas = Some preVerificationGas', eip7702Auth = None, op_chainId = None,
         builderFee = None, executionData = None, authorizationData = None, nonceKey = None,
         authorizationList = None\<rparr>))))))"

section \<open>The operation hash\<close>

definition PACKED_USEROP_TYPEHASH :: "hex_lib \<Rightarrow> string" where
  "PACKED_USEROP_TYPEHASH H = hx_keccak_text H
     ''PackedUserOperation(address sender,uint256 nonce,bytes initCode,bytes callData,bytes32 accountGasLimits,uint256 preVerificationGas,bytes32 gasFees,bytes paymasterAndData)''"

definition bytes_field :: "string option \<Rightarrow> string res" where
  "bytes_field b = (case b of None \<Rightarrow> Inl (JsError ''invalid arrayify value'' None) | Some s \<Rightarrow> Inr s)"

definition encodeUserOp :: "hex_lib \<Rightarrow> operation \<Rightarrow> bool \<Rightarrow> string res" where
  "encodeUserOp H op forSignature =
     bindE (packUserOp H op) (\<lambda>p.
     if forSignature then
       bindE (hx_keccak H (pk_initCode p)) (\<lambda>hashInitCode.
       bindE (bindE (bytes_field (pk_callData p)) (hx_keccak H)) (\<lambda>hashCallData.
       bindE (hx_keccak H (pk_paymasterAndData p)) (\<lambda>hashPaymaster.
         hx_abi_encode H
           [''bytes32'', ''address'', ''uint256'', ''bytes32'', ''bytes32'', ''bytes32'', ''uint256'', ''bytes32'', ''bytes32'']
           (map AbiStr [PACKED_USEROP_TYPEHASH H, pk_sender p, pk_nonce p, hashInitCode, hashCallData,
              pk_accountGasLimits p, pk_preVerificationGas p, pk_gasFees p, hashPaymaster]))))
     else
       bindE (bytes_field (pk_callData p)) (\<lambda>callData'.
       bindE (bytes_field (pk_signature p)) (\<lambda>signature'.
         hx_abi_encode H
           [''bytes32'', ''address'', ''uint256'', ''bytes'', ''bytes'', ''bytes32'', ''uint256'', ''bytes32'', ''bytes'', ''bytes'']
           (map AbiStr [PACKED_USEROP_TYPEHASH H, pk_sender p, pk_nonce p, pk_initCode p, callData',
              pk_accountGasLimits p, pk_preVerificationGas p, pk_gasFees p, pk_paymasterAndData p, signature']))))"

record typed_data_domain =
  dom_name :: string
  dom_version :: string
  dom_chainId :: int
  dom_verifyingContract :: string

definition getErc4337TypedDataDomain :: "string \<Rightarrow> int \<Rightarrow> typed_data_domain" where
  "getErc4337TypedDataDomain entryPoint chainId =
     \<lparr>dom_name = ''ERC4337'', dom_version = ''1'', dom_chainId = chainId, dom_verifyingContract = entryPoint\<rparr>"

definition getErc4337TypedDataTypes :: "(string \<times> (string \<times> string) list) list" where
  "getErc4337TypedDataTypes = [(''PackedUserOperation'', [
     (''sender'', ''address''), (''nonce'', ''uint256''), (''initCode'', ''bytes''), (''callData'', ''bytes''),
     (''accountGasLimits'', ''bytes32''), (''preVerificationGas'', ''uint256''), (''gasFees'', ''bytes32''),
     (''paymasterAndData'', ''bytes'')])]"

definition getDomainSeparator :: "hex_lib \<Rightarrow> string \<Rightarrow> int \<Rightarrow> string res" where
  "getDomainSeparator H entryPoint chainId =
     (let d = getErc4337TypedDataDomain entryPoint chainId in
      bindE (hx_abi_encode H [''bytes32'', ''bytes32'', ''bytes32'', ''uint256'', ''address'']
        [AbiStr (hx_keccak_text H ''EIP712Domain(string name,string version,uint256 chainId,address verifyingContract)''),
         AbiStr (hx_keccak_text H (dom_name d)), AbiStr (hx_keccak_text H (dom_version d)),
         AbiInt (dom_chainId d), AbiStr (dom_verifyingContract d)]) (hx_keccak H))"

definition getUserOpHash :: "hex_lib \<Rightarrow> operation \<Rightarrow> string \<Rightarrow> int \<Rightarrow> string res" where
  "getUserOpHash H op entryPoint chainId =
     bindE (encodeUserOp H op True) (\<lambda>packed.
     bindE (getDomainSeparator H entryPoint chainId) (\<lambda>separator.
     bindE (hx_keccak H packed) (\<lambda>hashPacked.
     bindE (hx_concat H [''0x1901'', separator, hashPacked]) (hx_keccak H))))"

section \<open>Revert errors\<close>

definition ErrorSig :: "hex_lib \<Rightarrow> string" where
  "ErrorSig H = take 10 (hx_keccak_text H ''Error(string)'')"

definition FailedOpSig :: "hex_lib \<Rightarrow> string" where
  "FailedOpSig H = take 10 (hx_keccak_text H ''FailedOp(uint256,string)'')"

record decoded_error =
  de_message :: string
  de_opIndex :: "int option"

text \<open>The error data is the text that \<^verbatim>\<open>data\<close>, \<^verbatim>\<open>error.data\<close> or \<^verbatim>\<open>message\<close> of an error object holds.\<close>

definition decodeErrorReason :: "hex_lib \<Rightarrow> string \<Rightarrow> decoded_error option res" where
  "decodeErrorReason H err =
     (if startsWith err (ErrorSig H) then
        bindE (hx_abi_decode H [''string''] (''0x'' @ drop 10 err)) (\<lambda>vs.
          case vs of [AbiStr message] \<Rightarrow> Inr (Some \<lparr>de_message = message, de_opIndex = None\<rparr>) | _ \<Rightarrow> Inr None)
      else if startsWith err (FailedOpSig H) then
        bindE (hx_abi_decode H [''uint256'', ''string''] (''0x'' @ drop 10 err)) (\<lambda>vs.
          case vs of
            [AbiInt opIndex, AbiStr message] \<Rightarrow>
              Inr (Some \<lparr>de_message = ''FailedOp: '' @ message, de_opIndex = Some opIndex\<rparr>)
          | _ \<Rightarrow> Inr None)
      else Inr None)"

section \<open>deepHexlify\<close>

text \<open>A JavaScript value as the function distinguishes them; numbers include BigNumbers.\<close>

datatype js_value =
  JsNull | JsStr string | JsBool bool | JsNum int | JsFun
| JsArr "js_value list" | JsObj "(string \<times> js_value) list"

text \<open>\<^verbatim>\<open>.replace(/^0x0/, '0x')\<close>\<close>

definition strip_zero :: "string \<Rightarrow> string" where
  "strip_zero s = (if startsWith s ''0x0'' then ''0x'' @ drop 3 s else s)"

text \<open>A function yields \<^verbatim>\<open>undefined\<close>, written \<open>JsNull\<close> here.\<close>

function (sequential) deepHexlify :: "hex_lib \<Rightarrow> js_value \<Rightarrow> js_value res"
  and deepHexlify_list :: "hex_lib \<Rightarrow> js_value list \<Rightarrow> js_value list res"
  and deepHexlify_fields :: "hex_lib \<Rightarrow> (string \<times> js_value) list \<Rightarrow> (string \<times> js_value) list res" where
  "deepHexlify H JsFun = Inr JsNull"
| "deepHexlify H JsNull = Inr JsNull"
| "deepHexlify H (JsStr s) = Inr (JsStr s)"
| "deepHexlify H (JsBool b) = Inr (JsBool b)"
| "deepHexlify H (JsNum n) = bindE (hx_hexlify_int H n) (\<lambda>s. Inr (JsStr (strip_zero s)))"
| "deepHexlify H (JsArr vs) = bindE (deepHexlify_list H vs) (\<lambda>ws. Inr (JsArr ws))"
| "deepHexlify H (JsObj fs) = bindE (deepHexlify_fields H fs) (\<lambda>gs. Inr (JsObj gs))"
| "deepHexlify_list H [] = Inr []"
| "deepHexlify_list H (v # vs) =
     bindE (deepHexlify H v) (\<lambda>w. bindE (deepHexlify_list H vs) (\<lambda>ws. Inr (w # ws)))"
| "deepHexlify_fields H [] = Inr []"
| "deepHexlify_fields H ((k, v) # fs) =
     bindE (deepHexlify H v) (\<lambda>w. bindE (deepHexlify_fields H fs) (\<lambda>gs. Inr ((k, w) # gs)))"
  by pat_completeness auto

termination
  by (relation "measure (case_sum (\<lambda>(H, v). size v) (case_sum (\<lambda>(H, vs). size_list size vs)
       (\<lambda>(H, fs). size_list (size_prod (\<lambda>_. 0) size) fs)))") auto

section \<open>Round trips\<close>

lemma halves_bound: "hi < m \<Longrightarrow> lo < m \<Longrightarrow> 0 \<le> m \<Longrightarrow> hi * m + lo < m * (m :: int)"
proof -
  assume "hi < m" "lo < m" "0 \<le> m"
  then have "(hi + 1) * m \<le> m * m" by (intro mult_right_mono) auto
  with \<open>lo < m\<close> show ?thesis by (simp add: distrib_right)
qed

lemma low_bits: "n AND (push_bit k 1 - 1) = n mod (2 ^ k :: int)"
proof -
  have "push_bit k 1 - 1 = (mask k :: int)" by (simp add: mask_eq_exp_minus_1 push_bit_eq_mult)
  then show ?thesis by (simp add: take_bit_eq_mask [symmetric] take_bit_eq_mod)
qed

definition half_word :: "int \<Rightarrow> bool" where
  "half_word n \<longleftrightarrow> 0 \<le> n \<and> n < 2 ^ 128"

definition join128 :: "int \<Rightarrow> int \<Rightarrow> int" where
  "join128 hi lo = hi * 2 ^ 128 + lo"

lemma join128_bounds: "half_word hi \<Longrightarrow> half_word lo \<Longrightarrow> 0 \<le> join128 hi lo \<and> join128 hi lo < 256 ^ 32"
  using halves_bound [of hi "2 ^ 128" lo] by (simp add: half_word_def join128_def)

lemma join128_parts:
  "half_word lo \<Longrightarrow> join128 hi lo div 2 ^ 128 = hi" "half_word lo \<Longrightarrow> join128 hi lo mod 2 ^ 128 = lo"
  by (simp_all add: half_word_def join128_def)

lemma packUint_hex:
  assumes "hex_laws H" and "half_word hi" and "half_word lo"
  shows "packUint H hi lo = Inr (hex_of 32 (join128 hi lo))"
  unfolding packUint_def push_bit_eq_mult join128_def [symmetric]
  using join128_bounds [OF assms(2,3)] by (intro hex_lawsD(1) [OF assms(1)]) simp_all

lemma unpackUint_hex:
  assumes "hex_laws H" and "0 \<le> n" "n < 256 ^ 32"
  shows "unpackUint H (hex_of 32 n) = Inr (n div 2 ^ 128, n mod 2 ^ 128)"
  using hex_lawsD(3) [OF assms(1) _ assms(2,3)]
  by (simp only: unpackUint_def bindE_simps low_bits drop_bit_eq_div)

lemma unpack_join:
  assumes "hex_laws H" and "half_word hi" and "half_word lo"
  shows "unpackUint H (hex_of 32 (join128 hi lo)) = Inr (hi, lo)"
  using unpackUint_hex [OF assms(1), of "join128 hi lo"] join128_bounds [OF assms(2,3)] join128_parts [OF assms(3)]
  by simp

lemma hex_concat3:
  assumes "hex_laws H" and "0 \<le> y" "y < 256 ^ j" and "0 \<le> z" "z < 256 ^ k"
  shows "hx_concat H [hex_of i x, hex_of j y, hex_of k z] = Inr (hex_of (i + j + k) ((x * 256 ^ j + y) * 256 ^ k + z))"
  using hex_lawsD(7) [OF assms(1), of "[(i, x), (j, y), (k, z)]"]
    hex_join [OF assms(2,3), of i x] hex_join [OF assms(4,5), of "i + j" "x * 256 ^ j + y"]
  by (simp add: hex_of_def append_assoc [symmetric] del: append_assoc)

lemma hex_of_low: "hex_of k (x * 256 ^ k + y) = hex_of k y"
proof -
  have "(x * 256 ^ k + y) mod 256 ^ k = y mod 256 ^ k" by simp
  then show ?thesis by (metis hex_of_mod)
qed

lemma high_part: "0 \<le> y \<Longrightarrow> y < 256 ^ k \<Longrightarrow> (x * 256 ^ k + y) div 256 ^ k = (x :: int)"
  by simp

definition is_data :: "nat \<Rightarrow> string \<Rightarrow> bool" where
  "is_data k s \<longleftrightarrow> (\<exists>n. 0 \<le> n \<and> n < 256 ^ k \<and> s = hex_of k n)"

text \<open>Slices of three joined pieces.\<close>

lemma unpack_paymaster_joined:
  assumes H: "hex_laws H" and y: "0 \<le> y" "y < 256 ^ 32" and z: "0 \<le> z" "z < 256 ^ k"
  shows "unpackPaymasterAndData H (hex_of (20 + 32 + k) ((x * 256 ^ 32 + y) * 256 ^ k + z)) =
    bindE (unpackUint H (hex_of 32 y)) (\<lambda>(v, p).
      Inr (Some \<lparr>pf_paymaster = hex_of 20 x, pf_paymasterVerificationGas = v, pf_postOpGasLimit = p,
                 pf_paymasterData = hex_of k z\<rparr>))"
proof -
  define m where "m = x * 256 ^ 32 + y"
  define n where "n = m * 256 ^ k + z"
  have n1: "n div 256 ^ k = m" unfolding n_def using z by (rule high_part)
  have "n div 256 ^ (32 + k) = n div 256 ^ k div 256 ^ 32"
    by (simp add: zdiv_zmult2_eq power_add mult.commute)
  then have n2: "n div 256 ^ (32 + k) = x" unfolding n1 m_def high_part [OF y] .
  have m: "hex_of 32 m = hex_of 32 y" unfolding m_def by (rule hex_of_low)
  have n3: "hex_of k n = hex_of k z" unfolding n_def by (rule hex_of_low)
  have "hx_dataSlice H (hex_of (20 + 32 + k) n) 20 (Some 52) = Inr (hex_of 32 y)"
    using hex_lawsD(4) [OF H, of 20 52 "20 + 32 + k" n] by (simp add: n1 m)
  moreover have "hx_dataSlice H (hex_of (20 + 32 + k) n) 0 (Some 20) = Inr (hex_of 20 x)"
    using hex_lawsD(4) [OF H, of 0 20 "20 + 32 + k" n] n2 by simp
  moreover have "hx_dataSlice H (hex_of (20 + 32 + k) n) 52 None = Inr (hex_of k z)"
    using hex_lawsD(5) [OF H, of 52 "20 + 32 + k" n] n3 by simp
  moreover have "hx_dataLength H (hex_of (20 + 32 + k) n) = Some (20 + 32 + k)" by (rule hex_lawsD(6) [OF H])
  ultimately show ?thesis
    unfolding m_def [symmetric] n_def [symmetric]
    by (cases "unpackUint H (hex_of 32 y)") (simp_all add: unpackPaymasterAndData_def)
qed

text \<open>The operations the entry point's packed form can hold.\<close>

definition init_fits :: "operation \<Rightarrow> bool" where
  "init_fits op \<longleftrightarrow>
     (case (factory op, factoryData op) of
        (None, None) \<Rightarrow> True
      | (Some f, Some fd) \<Rightarrow> is_data 20 f \<and> (\<exists>k. is_data k fd)
      | _ \<Rightarrow> False)"

definition paymaster_fits :: "operation \<Rightarrow> bool" where
  "paymaster_fits op \<longleftrightarrow>
     (case (paymaster op, paymasterVerificationGasLimit op, paymasterPostOpGasLimit op, paymasterData op) of
        (None, None, None, None) \<Rightarrow> True
      | (Some pm, Some v, Some p, Some pd) \<Rightarrow>
          is_data 20 pm \<and> half_word v \<and> half_word p \<and> (\<exists>k. is_data k pd)
      | _ \<Rightarrow> False)"

definition packable :: "operation \<Rightarrow> bool" where
  "packable op \<longleftrightarrow>
     0 \<le> nonce op \<and> (\<exists>g \<ge> 0. preVerificationGas op = Some g) \<and>
     half_word (verificationGasLimit op) \<and> half_word (callGasLimit op) \<and>
     half_word (maxPriorityFeePerGas op) \<and> half_word (maxFeePerGas op) \<and>
     init_fits op \<and> paymaster_fits op \<and>
     eip7702Auth op = None \<and> op_chainId op = None \<and> builderFee op = None \<and> executionData op = None \<and>
     authorizationData op = None \<and> nonceKey op = None \<and> authorizationList op = None"

lemma marker_is_no_address: "hex_of 20 n \<noteq> EIP_7702_MARKER_INIT_CODE"
proof
  assume "hex_of 20 n = EIP_7702_MARKER_INIT_CODE"
  then have "length (hex_of 20 n) = length EIP_7702_MARKER_INIT_CODE" by simp
  then show False by (simp add: EIP_7702_MARKER_INIT_CODE_def)
qed

lemma unpack_pack_init:
  assumes H: "hex_laws H" and "init_fits op"
  shows "bindE (pack_initCode H op) (unpack_initCode H) =
    Inr (case factory op of None \<Rightarrow> None | Some f \<Rightarrow> Some (f, the (factoryData op)))"
proof (cases "factory op")
  case None
  then show ?thesis by (simp add: pack_initCode_def unpack_initCode_def)
next
  case (Some f)
  with assms(2) obtain fd k x y where "factoryData op = Some fd"
    and x: "f = hex_of 20 x" and y: "0 \<le> y" "y < 256 ^ k" "fd = hex_of k y"
    by (auto simp: init_fits_def is_data_def split: option.splits)
  define n where "n = x * 256 ^ k + y"
  have "hx_concat H [f, fd] = Inr (hex_of (20 + k) n)"
    using hex_concat2 [OF H y(1,2), of 20 x] x y(3) by (simp add: n_def)
  moreover have "hx_dataSlice H (hex_of (20 + k) n) 0 (Some 20) = Inr f"
    using hex_lawsD(4) [OF H, of 0 20 "20 + k" n] high_part [OF y(1,2), of x] x by (simp add: n_def)
  moreover have "hx_dataSlice H (hex_of (20 + k) n) 20 None = Inr fd"
    using hex_lawsD(5) [OF H, of 20 "20 + k" n] hex_of_low [of k x y] y(3) by (simp add: n_def)
  ultimately show ?thesis
    using Some \<open>factoryData op = Some fd\<close> x marker_is_no_address
    by (simp add: pack_initCode_def unpack_initCode_def)
qed

lemma unpack_pack_paymaster:
  assumes H: "hex_laws H" and "paymaster_fits op"
  shows "bindE (pack_paymaster H op) (unpackPaymasterAndData H) =
    Inr (case paymaster op of None \<Rightarrow> None | Some pm \<Rightarrow>
      Some \<lparr>pf_paymaster = pm, pf_paymasterVerificationGas = the (paymasterVerificationGasLimit op),
            pf_postOpGasLimit = the (paymasterPostOpGasLimit op), pf_paymasterData = the (paymasterData op)\<rparr>)"
proof (cases "paymaster op")
  case None
  then show ?thesis by (simp add: pack_paymaster_def unpackPaymasterAndData_def)
next
  case (Some pm)
  with assms(2) obtain v p pd k x z where opt: "paymasterVerificationGasLimit op = Some v"
      "paymasterPostOpGasLimit op = Some p" "paymasterData op = Some pd"
    and vp: "half_word v" "half_word p" and x: "pm = hex_of 20 x"
    and z: "0 \<le> z" "z < 256 ^ k" "pd = hex_of k z"
    by (auto simp: paymaster_fits_def is_data_def split: option.splits)
  let ?y = "join128 v p"
  have y: "0 \<le> ?y" "?y < 256 ^ 32" using join128_bounds [OF vp] by simp_all
  have "pack_paymaster H op = Inr (hex_of (20 + 32 + k) ((x * 256 ^ 32 + ?y) * 256 ^ k + z))"
    using Some opt hex_concat3 [OF H y z(1,2), of 20 x] x z(3)
    by (simp add: pack_paymaster_def packPaymasterData_def packUint_hex [OF H vp])
  moreover have "unpackPaymasterAndData H (hex_of (20 + 32 + k) ((x * 256 ^ 32 + ?y) * 256 ^ k + z)) =
      Inr (Some \<lparr>pf_paymaster = pm, pf_paymasterVerificationGas = v, pf_postOpGasLimit = p, pf_paymasterData = pd\<rparr>)"
    unfolding unpack_paymaster_joined [OF H y z(1,2)] unpack_join [OF H vp] x z(3) by simp
  ultimately have "bindE (pack_paymaster H op) (unpackPaymasterAndData H) =
      Inr (Some \<lparr>pf_paymaster = pm, pf_paymasterVerificationGas = v, pf_postOpGasLimit = p, pf_paymasterData = pd\<rparr>)"
    by (simp only: bindE_simps)
  then show ?thesis using Some opt by simp
qed

lemma unpack_packed:
  assumes H: "hex_laws H" and op: "packable op"
  shows "bindE (packUserOp H op) (unpackUserOp H) = Inr op"
proof -
  obtain g where g: "0 \<le> g" "preVerificationGas op = Some g" using op by (auto simp: packable_def)
  have words: "half_word (verificationGasLimit op)" "half_word (callGasLimit op)"
      "half_word (maxPriorityFeePerGas op)" "half_word (maxFeePerGas op)" "0 \<le> nonce op"
    using op by (auto simp: packable_def)
  obtain pmd where pmd: "pack_paymaster H op = Inr pmd" "unpackPaymasterAndData H pmd =
      Inr (case paymaster op of None \<Rightarrow> None | Some pm \<Rightarrow>
      Some \<lparr>pf_paymaster = pm, pf_paymasterVerificationGas = the (paymasterVerificationGasLimit op),
            pf_postOpGasLimit = the (paymasterPostOpGasLimit op), pf_paymasterData = the (paymasterData op)\<rparr>)"
    using unpack_pack_paymaster [OF H, of op] op by (auto simp: packable_def bindE_Inr_iff)
  obtain ini where ini: "pack_initCode H op = Inr ini" "unpack_initCode H ini =
      Inr (case factory op of None \<Rightarrow> None | Some f \<Rightarrow> Some (f, the (factoryData op)))"
    using unpack_pack_init [OF H, of op] op by (auto simp: packable_def bindE_Inr_iff)
  note reads = packUint_hex [OF H words(1,2)] packUint_hex [OF H words(3,4)]
    unpack_join [OF H words(1,2)] unpack_join [OF H words(3,4)]
    hex_lawsD(2) [OF H words(5)] hex_lawsD(2) [OF H g(1)]
  have "bindE (packUserOp H op) (unpackUserOp H) = Inr (op\<lparr>
      factory := map_option fst (case factory op of None \<Rightarrow> None | Some f \<Rightarrow> Some (f, the (factoryData op))),
      factoryData := map_option snd (case factory op of None \<Rightarrow> None | Some f \<Rightarrow> Some (f, the (factoryData op))),
      paymasterData := (if paymaster op = None then None else Some (the (paymasterData op))),
      paymasterVerificationGasLimit := (if paymaster op = None then None else Some (the (paymasterVerificationGasLimit op))),
      paymasterPostOpGasLimit := (if paymaster op = None then None else Some (the (paymasterPostOpGasLimit op)))\<rparr>)"
    using op g pmd ini
    by (cases "paymaster op"; cases "factory op")
       (simp_all add: packUserOp_def unpackUserOp_def reads packable_def)
  also have "\<dots> = Inr op"
    using op by (auto simp: packable_def init_fits_def paymaster_fits_def split: option.splits)
  finally show ?thesis .
qed

text \<open>C30: packing and unpacking are inverse on every operation that fits the packed form: 20-byte
  factory and paymaster addresses, gas limits and fees of at most 128 bits, no EIP-7702 marker.\<close>

theorem unpack_packUserOp:
  assumes "hex_laws H" and "packable op"
  shows "bindE (packUserOp H op) (unpackUserOp H) = Inr op"
  using assms by (rule unpack_packed)

text \<open>nothing bounds the low half of a packed word, so it overflows into the high half: an
  operation whose call gas limit is 2^128 too high has the packed form, and so the hash, of the
  operation with one more unit of verification gas.\<close>

theorem packed_gas_overflow_collides:
  "packUserOp H (op\<lparr>callGasLimit := callGasLimit op + 2 ^ 128\<rparr>) =
     packUserOp H (op\<lparr>verificationGasLimit := verificationGasLimit op + 1\<rparr>) \<and>
   getUserOpHash H (op\<lparr>callGasLimit := callGasLimit op + 2 ^ 128\<rparr>) ep chainId =
     getUserOpHash H (op\<lparr>verificationGasLimit := verificationGasLimit op + 1\<rparr>) ep chainId"
proof -
  have "packUint H v (l + 2 ^ 128) = packUint H (v + 1) l" for v l
    by (simp add: packUint_def push_bit_eq_mult distrib_right ac_simps)
  moreover have "pack_paymaster H (op\<lparr>callGasLimit := x\<rparr>) = pack_paymaster H op"
      "pack_paymaster H (op\<lparr>verificationGasLimit := x\<rparr>) = pack_paymaster H op"
      "pack_initCode H (op\<lparr>callGasLimit := x\<rparr>) = pack_initCode H op"
      "pack_initCode H (op\<lparr>verificationGasLimit := x\<rparr>) = pack_initCode H op" for x
    by (simp_all add: pack_paymaster_def pack_initCode_def cong: option.case_cong if_cong)
  ultimately have "packUserOp H (op\<lparr>callGasLimit := callGasLimit op + 2 ^ 128\<rparr>) =
     packUserOp H (op\<lparr>verificationGasLimit := verificationGasLimit op + 1\<rparr>)"
    by (simp add: packUserOp_def)
  then show ?thesis by (simp only: getUserOpHash_def encodeUserOp_def)
qed

definition packable_example :: operation where
  "packable_example = (base_op ''0xa'' 3)\<lparr>factory := Some (hex_of 20 5), factoryData := Some (hex_of 2 7),
     paymaster := Some (hex_of 20 9), paymasterData := Some ''0x'', paymasterVerificationGasLimit := Some 100,
     paymasterPostOpGasLimit := Some 200, callGasLimit := 300, verificationGasLimit := 400,
     maxFeePerGas := 2, maxPriorityFeePerGas := 1\<rparr>"

lemma is_data_hex_of: "0 \<le> n \<Longrightarrow> n < 256 ^ k \<Longrightarrow> is_data k (hex_of k n)"
  by (auto simp: is_data_def)

lemma unpack_packUserOp_witness:
  "hex_laws plain_hex \<and> packable packable_example \<and>
   bindE (packUserOp plain_hex packable_example) (unpackUserOp plain_hex) = Inr packable_example"
proof -
  have data: "is_data 20 (hex_of 20 5)" "\<exists>k. is_data k (hex_of 2 7)" "is_data 20 (hex_of 20 9)"
    using is_data_hex_of [of 5 20] is_data_hex_of [of 7 2] is_data_hex_of [of 9 20] by auto
  moreover have "\<exists>k. is_data k ''0x''" using is_data_hex_of [of 0 0] by auto
  ultimately have "packable packable_example"
    by (simp add: packable_def packable_example_def base_op_def init_fits_def paymaster_fits_def half_word_def)
  then show ?thesis using unpack_packUserOp [OF plain_hex_laws] plain_hex_laws by blast
qed

section \<open>Validation data\<close>

definition valid_data :: "validation_data \<Rightarrow> bool" where
  "valid_data d \<longleftrightarrow> is_data 20 (vd_aggregator d) \<and>
     0 \<le> vd_validAfter d \<and> vd_validAfter d < 2 ^ 48 \<and> 0 \<le> vd_validUntil d \<and> vd_validUntil d < 2 ^ 48"

lemma parse_joined:
  assumes H: "hex_laws H" and g: "0 \<le> g" "g < 256 ^ 20" and u: "0 \<le> u" "u < 256 ^ 6"
    and a: "0 \<le> a" "a < 256 ^ 6"
  shows "parseValidationData H ((a * 256 ^ 6 + u) * 256 ^ 20 + g) =
    Inr \<lparr>vd_aggregator = hex_of 20 g, vd_validAfter = a, vd_validUntil = (if u = 0 then maxUint48 else u)\<rparr>"
proof -
  define t where "t = a * 256 ^ 6 + u"
  define n where "n = t * 256 ^ 20 + g"
  have t: "0 \<le> t" "t < 256 ^ 12"
    using a u by (auto simp: t_def)
  have n: "0 \<le> n" "n < 256 ^ 32"
    using t g by (auto simp: n_def)
  have n1: "n div 256 ^ 20 = t" unfolding n_def using g by (rule high_part)
  have "n div 256 ^ 26 = n div 256 ^ 20 div 256 ^ 6" by (simp add: div_mult2_eq [symmetric])
  then have n2: "n div 256 ^ 26 = a" unfolding n1 t_def high_part [OF u] .
  have data: "hx_zeroPad H (hx_toHexString H n) 32 = Inr (hex_of 32 n)"
    by (rule hex_lawsD(1) [OF H _ n]) simp
  have agg: "hx_dataSlice H (hex_of 32 n) 12 None = Inr (hex_of 20 g)"
    using hex_lawsD(5) [OF H, of 12 32 n] hex_of_low [of 20 t g] by (simp add: n_def)
  have until: "hx_dataSlice H (hex_of 32 n) 6 (Some 12) = Inr (hex_of 6 u)"
    using hex_lawsD(4) [OF H, of 6 12 32 n] hex_of_low [of 6 a u] n1 by (simp add: t_def)
  have after: "hx_dataSlice H (hex_of 32 n) 0 (Some 6) = Inr (hex_of 6 a)"
    using hex_lawsD(4) [OF H, of 0 6 32 n] n2 by simp
  show ?thesis
    unfolding t_def [symmetric] n_def [symmetric] parseValidationData_def
    using parseInt_hex_of [of 6 u] parseInt_hex_of [of 6 a] u a
    by (simp add: data agg until after Let_def)
qed

text \<open>parsing packed validation data gives the data back, except that an absent end (zero) is
  read as the largest 48-bit time.\<close>

theorem parse_packValidationData:
  assumes "hex_laws H" and "valid_data d"
  shows "bindE (packValidationData H d) (parseValidationData H) =
    Inr (d\<lparr>vd_validUntil := (if vd_validUntil d = 0 then maxUint48 else vd_validUntil d)\<rparr>)"
proof -
  obtain g where g: "0 \<le> g" "g < 256 ^ 20" "vd_aggregator d = hex_of 20 g"
    using assms(2) by (auto simp: valid_data_def is_data_def)
  have "packValidationData H d = Inr ((vd_validAfter d * 256 ^ 6 + vd_validUntil d) * 256 ^ 20 + g)"
    using hex_lawsD(3) [OF assms(1) _ g(1,2)] g(3) by (simp add: packValidationData_def push_bit_eq_mult)
  then show ?thesis
    using parse_joined [OF assms(1) g(1,2), of "vd_validUntil d" "vd_validAfter d"] assms(2) g(3)
    by (simp add: valid_data_def)
qed

lemma parse_packValidationData_witness:
  "hex_laws plain_hex \<and>
   valid_data \<lparr>vd_aggregator = hex_of 20 1, vd_validAfter = 10, vd_validUntil = 0\<rparr> \<and>
   bindE (packValidationData plain_hex \<lparr>vd_aggregator = hex_of 20 1, vd_validAfter = 10, vd_validUntil = 0\<rparr>)
     (parseValidationData plain_hex) =
   Inr \<lparr>vd_aggregator = hex_of 20 1, vd_validAfter = 10, vd_validUntil = maxUint48\<rparr>"
proof -
  have v: "valid_data \<lparr>vd_aggregator = hex_of 20 1, vd_validAfter = 10, vd_validUntil = 0\<rparr>"
    by (simp add: valid_data_def is_data_hex_of)
  show ?thesis using parse_packValidationData [OF plain_hex_laws v] v plain_hex_laws by simp
qed

lemma merge_window:
  assumes "mergeValidationData H a p = Inr m"
  shows "vd_validAfter m \<le> t \<and> t \<le> vd_validUntil m \<longleftrightarrow>
    (vd_validAfter a \<le> t \<and> t \<le> vd_validUntil a) \<and> (vd_validAfter p \<le> t \<and> t \<le> vd_validUntil p)"
  using assms by (auto simp: mergeValidationData_def bindE_Inr_iff)

section \<open>deepHexlify gives plain JSON\<close>

function (sequential) hexlified :: "js_value \<Rightarrow> bool"
  and hexlified_list :: "js_value list \<Rightarrow> bool"
  and hexlified_fields :: "(string \<times> js_value) list \<Rightarrow> bool" where
  "hexlified (JsNum n) = False"
| "hexlified JsFun = False"
| "hexlified (JsArr vs) = hexlified_list vs"
| "hexlified (JsObj fs) = hexlified_fields fs"
| "hexlified v = True"
| "hexlified_list [] = True"
| "hexlified_list (v # vs) = (hexlified v \<and> hexlified_list vs)"
| "hexlified_fields [] = True"
| "hexlified_fields ((k, v) # fs) = (hexlified v \<and> hexlified_fields fs)"
  by pat_completeness auto

termination
  by (relation "measure (case_sum size (case_sum (size_list size)
       (size_list (size_prod (\<lambda>_. 0) size))))") auto

lemma deepHexlify_result:
  "deepHexlify H v = Inr w \<Longrightarrow> hexlified w \<and> deepHexlify H w = Inr w"
  "deepHexlify_list H vs = Inr ws \<Longrightarrow> hexlified_list ws \<and> deepHexlify_list H ws = Inr ws"
  "deepHexlify_fields H fs = Inr gs \<Longrightarrow> hexlified_fields gs \<and> deepHexlify_fields H gs = Inr gs"
  by (induction H v and H vs and H fs arbitrary: w and ws and gs
      rule: deepHexlify_deepHexlify_list_deepHexlify_fields.induct)
     (auto simp: bindE_Inr_iff)

text \<open>what \<^verbatim>\<open>deepHexlify\<close> returns holds no number and no function at any depth, only strings,
  booleans, nulls, arrays and objects of them; and applying it again changes nothing.\<close>

theorem deepHexlify_plain:
  assumes "deepHexlify H v = Inr w"
  shows "hexlified w \<and> deepHexlify H w = Inr w"
  using assms by (rule deepHexlify_result(1))

lemma deepHexlify_plain_witness:
  "deepHexlify plain_hex (JsObj [(''fees'', JsArr [JsNum 5, JsBool True])]) =
     Inr (JsObj [(''fees'', JsArr [JsStr ''0x5'', JsBool True])]) \<and>
   hexlified (JsObj [(''fees'', JsArr [JsStr ''0x5'', JsBool True])])"
proof -
  have "deepHexlify plain_hex (JsObj [(''fees'', JsArr [JsNum 5, JsBool True])]) =
     Inr (JsObj [(''fees'', JsArr [JsStr ''0x5'', JsBool True])])"
    by code_simp
  then show ?thesis using deepHexlify_plain by blast
qed

end
