(* ===== verification/PreVerificationGas.thy ===== *)
theory PreVerificationGas
  imports Complex_Main ERC4337Utils "HOL-Library.Signed_Division"
begin

text \<open>
  \<^verbatim>\<open>packages/sdk/src/PreVerificationGasCalculator.ts\<close>: the gas an operation must pay for its
  share of the transaction, with the EIP-7623 floor price. Configuration values are numbers
  with fractions (9.5 gas per word), so the computation is over the rationals; JavaScript
  rounds each step to 53 bits, which the model leaves out. A bundle size of zero, for which
  JavaScript yields infinity, is outside the model.
\<close>

section \<open>Configuration\<close>

definition EXECUTE_USEROP_METHOD_SIG :: string where
  "EXECUTE_USEROP_METHOD_SIG = ''0x8dd7712f''"

record pvg_config =
  transactionGasStipend :: rat
  fixedGasOverhead :: rat
  perUserOpGasOverhead :: rat
  perUserOpWordGasOverhead :: rat
  executeUserOpGasOverhead :: rat
  executeUserOpPerWordGasOverhead :: rat
  standardTokenGasCost :: rat
  useEip7623 :: bool
  floorPerTokenGasCost :: rat
  tokensPerNonzeroByte :: int
  eip7702AuthGas :: rat
  expectedBundleSize :: rat
  estimationSignatureSize :: nat
  estimationPaymasterDataSize :: nat

record gas_options =
  verificationGasUsed :: "int option"
  totalGasUsed :: "int option"

definition MainnetConfig :: pvg_config where
  "MainnetConfig = \<lparr>transactionGasStipend = 21000, fixedGasOverhead = 9830, perUserOpGasOverhead = 7260,
     perUserOpWordGasOverhead = 19 / 2, executeUserOpGasOverhead = 1610,
     executeUserOpPerWordGasOverhead = 41 / 5, standardTokenGasCost = 4, useEip7623 = True,
     floorPerTokenGasCost = 10, tokensPerNonzeroByte = 4, eip7702AuthGas = 25000, expectedBundleSize = 1,
     estimationSignatureSize = 65, estimationPaymasterDataSize = 0\<rparr>"

definition ChainConfigs :: "int \<Rightarrow> pvg_config option" where
  "ChainConfigs chainId = (if chainId \<in> {1, 1337} then Some MainnetConfig else None)"

section \<open>The calculation\<close>

text \<open>
  \<^verbatim>\<open>Uint8Array.map\<close> stores each result in a byte again, so a price above 255 tokens would
  wrap; \<^verbatim>\<open>reduce\<close> without a start value throws on an empty array.
\<close>

definition token_byte :: "pvg_config \<Rightarrow> int \<Rightarrow> int" where
  "token_byte cfg x = (if x = 0 then 1 else tokensPerNonzeroByte cfg) mod 256"

definition countTokens :: "pvg_config \<Rightarrow> int list \<Rightarrow> int res" where
  "countTokens cfg bytes =
     (case bytes of
        [] \<Rightarrow> Inl (JsError ''Reduce of empty array with no initial value'' None)
      | b # bs \<Rightarrow> Inr (foldl (\<lambda>acc x. acc + token_byte cfg x) (token_byte cfg b) bs))"

definition js_round :: "rat \<Rightarrow> int" where
  "js_round x = \<lfloor>x + 1 / 2\<rfloor>"

definition eip7623transactionGasCost :: "pvg_config \<Rightarrow> rat \<Rightarrow> int \<Rightarrow> rat \<Rightarrow> int" where
  "eip7623transactionGasCost cfg stipendGasCost tokenGasCount executionGasCost =
     js_round (stipendGasCost +
       max (standardTokenGasCost cfg * of_int tokenGasCount + executionGasCost)
           (floorPerTokenGasCost cfg * of_int tokenGasCount))"

text \<open>\<^verbatim>\<open>BigNumber.div\<close> truncates.\<close>

definition getUserOpGasUsed :: "operation \<Rightarrow> gas_options \<Rightarrow> int res" where
  "getUserOpGasUsed op opts =
     (case totalGasUsed opts of
        Some g \<Rightarrow> Inr g
      | None \<Rightarrow> toNumber ((callGasLimit op + or_else (paymasterPostOpGasLimit op) 0) sdiv 10
                 + or_else (verificationGasUsed opts) 0))"

text \<open>Lines 153 to 170: the tokens of the encoded operation and the overhead of its own.\<close>

definition op_overhead :: "hex_lib \<Rightarrow> pvg_config \<Rightarrow> operation \<Rightarrow> (int \<times> rat) res" where
  "op_overhead H cfg op =
     bindE (bindE (encodeUserOp H op False) (hx_arrayify H)) (\<lambda>packed.
     bindE (countTokens cfg packed) (\<lambda>tokenCount.
     bindE (bytes_field (callData op)) (\<lambda>cd.
     bindE (hx_arrayify H cd) (\<lambda>bytes.
       let userOpWordsLength = (of_nat (length packed) + 31) / 32;
           perUserOp = perUserOpGasOverhead cfg + (if eip7702Auth op \<noteq> None then eip7702AuthGas cfg else 0)
       in if startsWith (hx_bytesToHex H bytes) EXECUTE_USEROP_METHOD_SIG
          then Inr (tokenCount, perUserOp + (executeUserOpGasOverhead cfg + executeUserOpPerWordGasOverhead cfg * userOpWordsLength))
          else Inr (tokenCount, perUserOp +
                 of_int \<lceil>of_nat (or_else (hx_dataLength H cd) 0) / (32 :: rat)\<rceil> * perUserOpWordGasOverhead cfg)))))"

definition calculate :: "hex_lib \<Rightarrow> pvg_config \<Rightarrow> operation \<Rightarrow> gas_options \<Rightarrow> rat res" where
  "calculate H cfg op opts =
     bindE (op_overhead H cfg op) (\<lambda>(tokenCount, userOpSpecificOverhead).
       let userOpShareOfBundleCost = fixedGasOverhead cfg / expectedBundleSize cfg;
           userOpShareOfStipend = transactionGasStipend cfg / expectedBundleSize cfg
       in if useEip7623 cfg then
            bindE (getUserOpGasUsed op opts) (\<lambda>calculatedGasUsed.
              Inr (of_int (eip7623transactionGasCost cfg userOpShareOfStipend tokenCount
                     (userOpShareOfBundleCost + userOpSpecificOverhead + of_int calculatedGasUsed))
                   - of_int calculatedGasUsed))
          else Inr (standardTokenGasCost cfg * of_int tokenCount + userOpShareOfStipend +
                    userOpShareOfBundleCost + userOpSpecificOverhead))"

definition validatePreVerificationGas :: "hex_lib \<Rightarrow> pvg_config \<Rightarrow> operation \<Rightarrow> gas_options \<Rightarrow> (bool \<times> rat) res" where
  "validatePreVerificationGas H cfg op opts =
     bindE (calculate H cfg op opts) (\<lambda>minRequired.
       case preVerificationGas op of
         None \<Rightarrow> Inl (JsError ''Cannot read properties of undefined'' None)
       | Some g \<Rightarrow> Inr (minRequired \<le> of_int g, minRequired))"

definition fillUserOpWithDummyData :: "hex_lib \<Rightarrow> pvg_config \<Rightarrow> operation \<Rightarrow> operation" where
  "fillUserOpWithDummyData H cfg op = op\<lparr>
     preVerificationGas := Some (or_else (preVerificationGas op) 21000),
     signature := Some (or_else (signature op) (hx_bytesToHex H (replicate (estimationSignatureSize cfg) 255))),
     paymasterData := Some (or_else (paymasterData op) (hx_bytesToHex H (replicate (estimationPaymasterDataSize cfg) 255)))\<rparr>"

definition estimatePreVerificationGas :: "hex_lib \<Rightarrow> pvg_config \<Rightarrow> operation \<Rightarrow> gas_options \<Rightarrow> rat res" where
  "estimatePreVerificationGas H cfg op opts = calculate H cfg (fillUserOpWithDummyData H cfg op) opts"

section \<open>Properties\<close>

lemma js_round_shift: "js_round (x + of_int n) = js_round x + n"
  unfolding js_round_def by linarith

lemma js_round_mono: "x \<le> y \<Longrightarrow> js_round x \<le> js_round y"
  by (simp add: js_round_def floor_mono)

lemma js_round_bounds: "x - 1 / 2 < of_int (js_round x)" "of_int (js_round x) \<le> x + 1 / 2"
  unfolding js_round_def by linarith+

text \<open>Subtracting the gas used again leaves a price that falls with it, but never below the standard one.\<close>

lemma eip7623_net:
  "eip7623transactionGasCost cfg s t (b + of_int g) - g =
     js_round (s + max (standardTokenGasCost cfg * of_int t + b) (floorPerTokenGasCost cfg * of_int t - of_int g))"
proof -
  have "s + max (standardTokenGasCost cfg * of_int t + (b + of_int g)) (floorPerTokenGasCost cfg * of_int t) =
     (s + max (standardTokenGasCost cfg * of_int t + b) (floorPerTokenGasCost cfg * of_int t - of_int g)) + of_int g"
    by (simp add: max_def)
  then show ?thesis by (simp only: eip7623transactionGasCost_def js_round_shift add_diff_cancel_right')
qed

definition standard_cost :: "pvg_config \<Rightarrow> int \<Rightarrow> rat \<Rightarrow> rat" where
  "standard_cost cfg tokens overhead = transactionGasStipend cfg / expectedBundleSize cfg +
     (standardTokenGasCost cfg * of_int tokens + (fixedGasOverhead cfg / expectedBundleSize cfg + overhead))"

definition floor_cost :: "pvg_config \<Rightarrow> int \<Rightarrow> rat" where
  "floor_cost cfg tokens = transactionGasStipend cfg / expectedBundleSize cfg + floorPerTokenGasCost cfg * of_int tokens"

lemma calculate_eip7623:
  assumes "useEip7623 cfg"
  shows "calculate H cfg op opts = bindE (op_overhead H cfg op) (\<lambda>(tokens, overhead).
     bindE (getUserOpGasUsed op opts) (\<lambda>g.
       Inr (of_int (js_round (max (standard_cost cfg tokens overhead) (floor_cost cfg tokens - of_int g))))))"
proof -
  have "(of_int (eip7623transactionGasCost cfg s t (b + o' + of_int g)) - of_int g :: rat) =
      of_int (js_round (max (s + (standardTokenGasCost cfg * of_int t + (b + o'))) (s + floorPerTokenGasCost cfg * of_int t - of_int g)))"
    for s t b o' g
    unfolding of_int_diff [symmetric] eip7623_net by (simp add: max_add_distrib_right diff_add_eq add_diff_eq)
  then show ?thesis
    using assms by (simp add: calculate_def Let_def standard_cost_def floor_cost_def)
qed

lemma getUserOpGasUsed_mono:
  assumes "getUserOpGasUsed op \<lparr>verificationGasUsed = Some v1, totalGasUsed = None\<rparr> = Inr g1"
    and "getUserOpGasUsed op \<lparr>verificationGasUsed = Some v2, totalGasUsed = None\<rparr> = Inr g2"
    and "v1 \<le> v2"
  shows "g1 \<le> g2"
  using assms by (simp add: getUserOpGasUsed_def toNumber_Inr_iff)

lemma calculate_antimono:
  assumes "calculate H cfg op \<lparr>verificationGasUsed = Some v1, totalGasUsed = None\<rparr> = Inr p1"
    and "calculate H cfg op \<lparr>verificationGasUsed = Some v2, totalGasUsed = None\<rparr> = Inr p2"
    and "v1 \<le> v2"
  shows "p2 \<le> p1"
proof (cases "useEip7623 cfg")
  case True
  from assms(1,2) obtain t w g1 g2 where
      "getUserOpGasUsed op \<lparr>verificationGasUsed = Some v1, totalGasUsed = None\<rparr> = Inr g1"
      "getUserOpGasUsed op \<lparr>verificationGasUsed = Some v2, totalGasUsed = None\<rparr> = Inr g2"
    and p: "p1 = of_int (js_round (max (standard_cost cfg t w) (floor_cost cfg t - of_int g1)))"
      "p2 = of_int (js_round (max (standard_cost cfg t w) (floor_cost cfg t - of_int g2)))"
    unfolding calculate_eip7623 [OF True] by (auto simp: bindE_Inr_iff)
  then have "g1 \<le> g2" using getUserOpGasUsed_mono assms(3) by blast
  then have "max (standard_cost cfg t w) (floor_cost cfg t - of_int g2) \<le>
      max (standard_cost cfg t w) (floor_cost cfg t - of_int g1)"
    by (intro max.mono) auto
  then show ?thesis unfolding p by (simp add: js_round_mono)
next
  case False
  then show ?thesis using assms(1,2) by (auto simp: calculate_def bindE_Inr_iff Let_def)
qed

text \<open>the check of \<^verbatim>\<open>preVerificationGas\<close> only gets easier as more verification gas is assumed
  used: an operation accepted for some amount is accepted for every larger one for which the
  check returns.\<close>

theorem pvg_check_monotone:
  assumes "validatePreVerificationGas H cfg op \<lparr>verificationGasUsed = Some v1, totalGasUsed = None\<rparr> = Inr (True, m1)"
    and "validatePreVerificationGas H cfg op \<lparr>verificationGasUsed = Some v2, totalGasUsed = None\<rparr> = Inr (ok, m2)"
    and "v1 \<le> v2"
  shows "ok \<and> m2 \<le> m1"
proof -
  from assms(1,2) have "calculate H cfg op \<lparr>verificationGasUsed = Some v1, totalGasUsed = None\<rparr> = Inr m1"
    "calculate H cfg op \<lparr>verificationGasUsed = Some v2, totalGasUsed = None\<rparr> = Inr m2"
    by (auto simp: validatePreVerificationGas_def bindE_Inr_iff split: option.splits)
  then have "m2 \<le> m1" using assms(3) by (rule calculate_antimono)
  then show ?thesis using assms(1,2)
    by (auto simp: validatePreVerificationGas_def bindE_Inr_iff split: option.splits)
qed

text \<open>C31: under EIP-7623 an accepted operation pays, to within half a unit of gas, both prices: its
  own share never below the standard cost of its tokens and overheads, and together with the gas it
  is known to use at least the floor price of its tokens and its share of the stipend.\<close>

theorem pvg_covers_both_prices:
  assumes "validatePreVerificationGas H cfg op opts = Inr (True, m)" and "useEip7623 cfg"
    and "op_overhead H cfg op = Inr (tokens, overhead)" and "getUserOpGasUsed op opts = Inr g"
    and "preVerificationGas op = Some p"
  shows "standard_cost cfg tokens overhead - 1 / 2 < of_int p \<and>
    floor_cost cfg tokens - 1 / 2 < of_int (p + g)"
proof -
  let ?x = "max (standard_cost cfg tokens overhead) (floor_cost cfg tokens - of_int g)"
  have "m = of_int (js_round ?x)" "m \<le> of_int p"
    using assms by (auto simp: validatePreVerificationGas_def bindE_Inr_iff calculate_eip7623)
  moreover have "?x - 1 / 2 < of_int (js_round ?x)" by (rule js_round_bounds)
  ultimately have "?x - 1 / 2 < of_int p" by simp
  then show ?thesis by auto
qed

lemma token_byte_bounds:
  assumes "1 \<le> tokensPerNonzeroByte cfg" "tokensPerNonzeroByte cfg < 256"
  shows "1 \<le> token_byte cfg x" "token_byte cfg x \<le> tokensPerNonzeroByte cfg"
  using assms by (auto simp: token_byte_def)

lemma countTokens_bounds:
  assumes cfg: "1 \<le> tokensPerNonzeroByte cfg" "tokensPerNonzeroByte cfg < 256"
    and n: "countTokens cfg bytes = Inr n"
  shows "int (length bytes) \<le> n \<and> n \<le> tokensPerNonzeroByte cfg * int (length bytes)"
proof -
  have fold: "a + int (length bs) \<le> foldl (\<lambda>acc x. acc + token_byte cfg x) a bs \<and>
      foldl (\<lambda>acc x. acc + token_byte cfg x) a bs \<le> a + tokensPerNonzeroByte cfg * int (length bs)" for a bs
  proof (induction bs arbitrary: a)
    case (Cons b bs)
    from Cons [of "a + token_byte cfg b"] token_byte_bounds [OF cfg, of b]
    show ?case by (simp add: distrib_left)
  qed simp
  obtain b bs where "bytes = b # bs" "n = foldl (\<lambda>acc x. acc + token_byte cfg x) (token_byte cfg b) bs"
    using n by (cases bytes) (auto simp: countTokens_def)
  with fold [of "token_byte cfg b" bs] token_byte_bounds [OF cfg, of b] show ?thesis
    by (simp add: distrib_left)
qed

section \<open>An example\<close>

definition gas_lib :: hex_lib where
  "gas_lib = plain_hex\<lparr>hx_abi_encode := (\<lambda>ts vs. Inr ''0x0102'')\<rparr>"

definition gas_op :: operation where
  "gas_op = (base_op ''0xa'' 3)\<lparr>preVerificationGas := Some 40000, callGasLimit := 1000\<rparr>"

lemma gas_op_accepted:
  "validatePreVerificationGas gas_lib MainnetConfig gas_op \<lparr>verificationGasUsed = Some 10, totalGasUsed = None\<rparr> = Inr (True, 38130)"
  "validatePreVerificationGas gas_lib MainnetConfig gas_op \<lparr>verificationGasUsed = Some 20, totalGasUsed = None\<rparr> = Inr (True, 38130)"
  by code_simp+

lemma pvg_check_monotone_witness:
  "validatePreVerificationGas gas_lib MainnetConfig gas_op \<lparr>verificationGasUsed = Some 10, totalGasUsed = None\<rparr> = Inr (True, 38130) \<and>
   (38130 :: rat) \<le> 38130"
  using pvg_check_monotone [OF gas_op_accepted] gas_op_accepted by simp

lemma gas_op_parts:
  "op_overhead gas_lib MainnetConfig gas_op = Inr (10, 7260)"
  "getUserOpGasUsed gas_op \<lparr>verificationGasUsed = Some 10, totalGasUsed = None\<rparr> = Inr 110"
  "useEip7623 MainnetConfig" "preVerificationGas gas_op = Some 40000"
  by code_simp+

lemma pvg_covers_both_prices_witness:
  "validatePreVerificationGas gas_lib MainnetConfig gas_op \<lparr>verificationGasUsed = Some 10, totalGasUsed = None\<rparr> = Inr (True, 38130) \<and>
   standard_cost MainnetConfig 10 7260 - 1 / 2 < of_int 40000 \<and>
   floor_cost MainnetConfig 10 - 1 / 2 < of_int (40000 + 110)"
  using pvg_covers_both_prices [OF gas_op_accepted(1) gas_op_parts(3,1,2,4)] gas_op_accepted(1) by simp

end
