(* ===== verification/RevertReason.thy ===== *)
theory RevertReason
  imports Prelude
begin

text \<open>
  \<^verbatim>\<open>packages/utils/src/decodeRevertReason.ts\<close>: revert data to text. The ABI decoder and the
  error fragments of the contracts are the parameter \<open>revert_lib\<close>; the data attached to an
  error object is looked up by the caller. The function calls itself on every \<^verbatim>\<open>bytes\<close>
  argument of a decoded error. That recursion ends because an argument is shorter than the
  data it was decoded from, a fact about the decoder; the model has a fuel argument, and
  \<open>decode_enough_fuel\<close> shows that the length of the data is enough.
\<close>

datatype abi_arg = BytesArg string | StringArg string | OtherArg string

record revert_lib =
  rv_decodeString :: "string \<Rightarrow> string option"
    \<comment> \<open>\<^verbatim>\<open>defaultAbiCoder.decode(['string'], data)\<close>, \<open>None\<close> when it throws\<close>
  rv_decodeUint :: "string \<Rightarrow> int option"
  rv_parseError :: "string \<Rightarrow> (string \<times> abi_arg list) option"
    \<comment> \<open>\<^verbatim>\<open>parseError(data)\<close>: name and arguments\<close>

definition panicCodes :: "int \<Rightarrow> string option" where
  "panicCodes n = map_of [
     (0x01, ''assert(false)''),
     (0x11, ''arithmetic overflow/underflow''),
     (0x12, ''divide by zero''),
     (0x21, ''invalid enum value''),
     (0x22, ''storage byte array that is incorrectly encoded''),
     (0x31, ''.pop() on an empty array.''),
     (0x32, ''array sout-of-bounds or negative index''),
     (0x41, ''memory overflow''),
     (0x51, ''zero-initialized variable of internal function type'')] n"

fun join_with :: "string \<Rightarrow> string list \<Rightarrow> string" where
  "join_with sep [] = []"
| "join_with sep [x] = x"
| "join_with sep (x # y # xs) = x @ sep @ join_with sep (y # xs)"

fun sequence :: "'a option list \<Rightarrow> 'a list option" where
  "sequence [] = Some []"
| "sequence (x # xs) = Option.bind x (\<lambda>y. Option.bind (sequence xs) (\<lambda>ys. Some (y # ys)))"

text \<open>One argument of a decoded error; \<open>rec\<close> decodes a nested revert.\<close>

definition render_arg :: "(string \<Rightarrow> string option option) \<Rightarrow> abi_arg \<Rightarrow> string option" where
  "render_arg rec arg =
     (case arg of
        BytesArg b \<Rightarrow> map_option (\<lambda>r. or_else r []) (rec b)
      | StringArg s \<Rightarrow> Some (dq @ s @ dq)
      | OtherArg s \<Rightarrow> Some s)"

lemma render_arg_None_iff: "render_arg rec arg = None \<longleftrightarrow> (\<exists>b. arg = BytesArg b \<and> rec b = None)"
  by (cases arg) (auto simp: render_arg_def)

text \<open>\<open>None\<close> is out of fuel, \<open>Some None\<close> is \<^verbatim>\<open>null\<close>. The stray text of the \<^verbatim>\<open>Panic\<close> line is the source's.\<close>

fun decodeRevertReason :: "revert_lib \<Rightarrow> nat \<Rightarrow> string \<Rightarrow> bool \<Rightarrow> string option option" where
  "decodeRevertReason R 0 data nullIfNoMatch = None"
| "decodeRevertReason R (Suc n) data nullIfNoMatch =
     (let methodSig = take 10 data; dataParams = ''0x'' @ drop 10 data;
          noMatch = Some (if \<not> nullIfNoMatch then Some data else None) in
      if methodSig = ''0x08c379a0'' then
        (case rv_decodeString R dataParams of
           None \<Rightarrow> noMatch | Some err \<Rightarrow> Some (Some (''Error('' @ err @ '')'')))
      else if methodSig = ''0x4e487b71'' then
        (case rv_decodeUint R dataParams of
           None \<Rightarrow> noMatch
         | Some code \<Rightarrow> Some (Some (''Panic('' @ or_else (panicCodes code) (show_int code) @ '' + '' @ [CHR 0x27] @ '')'')))
      else
        (case rv_parseError R data of
           None \<Rightarrow> noMatch
         | Some (name, args) \<Rightarrow>
             Option.bind (sequence (map (render_arg (\<lambda>b. decodeRevertReason R n b False)) args)) (\<lambda>texts.
               Some (Some (name @ ''('' @ join_with '','' texts @ '')'')))))"

lemma sequence_map_None_iff: "sequence (map f xs) = None \<longleftrightarrow> (\<exists>x \<in> set xs. f x = None)"
  by (induction xs) (auto simp: bind_eq_None_conv)

text \<open>The documented fact about the decoder: a \<^verbatim>\<open>bytes\<close> argument is part of the data.\<close>

definition args_shorter :: "revert_lib \<Rightarrow> bool" where
  "args_shorter R \<longleftrightarrow>
     (\<forall>d name args b. rv_parseError R d = Some (name, args) \<and> BytesArg b \<in> set args \<longrightarrow> length b < length d)"

lemma decode_enough_fuel:
  assumes "args_shorter R"
  shows "length data < n \<Longrightarrow> decodeRevertReason R n data b \<noteq> None"
proof (induction n arbitrary: data b)
  case (Suc n)
  have sub: "decodeRevertReason R n d False \<noteq> None"
    if "rv_parseError R data = Some (name, args)" "BytesArg d \<in> set args" for name args d
  proof -
    have "length d < length data"
      using assms that by (simp add: args_shorter_def)
    with Suc.prems have "length d < n" by simp
    then show ?thesis by (rule Suc.IH)
  qed
  have "sequence (map (render_arg (\<lambda>b. decodeRevertReason R n b False)) args) \<noteq> None"
    if "rv_parseError R data = Some (name, args)" for name args
    using sub [OF that] unfolding sequence_map_None_iff render_arg_None_iff by blast
  then show ?case
    by (auto simp: Let_def bind_eq_None_conv split: option.splits)
qed simp

text \<open>With \<^verbatim>\<open>nullIfNoMatch\<close> off the result is always a text.\<close>

lemma decode_never_null: "decodeRevertReason R n data False \<noteq> Some None"
  by (cases n) (auto simp: Let_def bind_eq_Some_conv split: option.splits)

end
