(* ===== verification/LegacyRules.thy ===== *)
theory LegacyRules
  imports ERC7562Parser
begin

text \<open>
  \<^verbatim>\<open>packages/validation-manager/src/TracerResultParser.ts\<close>: the check of what the JavaScript
  tracer collected. It throws on the first broken rule and otherwise returns the addresses of
  the contracts called and the storage map. The types of the tracer's result are those of
  \<^verbatim>\<open>BundlerCollectorTracer.ts\<close>. Its function \<^verbatim>\<open>associatedWith\<close> is the text of the method of
  \<^verbatim>\<open>ERC7562Parser\<close> and is not repeated.
\<close>

section \<open>Result of the tracer\<close>

record access_info =
  ai_reads :: "string obj"
  ai_writes :: "int obj"
  ai_transientReads :: "int obj"
  ai_transientWrites :: "int obj"

record size_info =
  si_opcode :: string
  si_contractSize :: nat

record level_info =
  li_target :: string
  li_opcodes :: "int obj"
  li_access :: "access_info obj"
  li_contractSize :: "size_info obj"
  li_extCode :: "string obj"
  li_oog :: bool

text \<open>A level with the fields that only frames inside a level have: type, sender, receiver, calls.\<close>

datatype call_info = CallInfo
  (ci_level: level_info)
  (ci_type: "string option")
  (ci_from: "string option")
  (ci_to: "string option")
  (ci_calls: "call_info list")

datatype trace_event =
  MethodInfo (ev_type: string) (me_from: string) (me_to: string) (me_method: string) (me_value: int) (me_gas: int)
| ExitInfo (ev_type: string) (ei_gasUsed: int) (ei_data: string)

record log_info =
  li_topics :: "string list"
  li_data :: string

record tracer_result =
  tr_callsFromEntryPoint :: "call_info list"
  tr_keccak :: "string list"
  tr_calls :: "trace_event list"
  tr_logs :: "log_info list"

section \<open>Entities\<close>

record legacy_env =
  le_lib :: ethers_lib
  le_entryPoint :: string
  le_json :: "access_info obj \<Rightarrow> string"
    \<comment> \<open>\<^verbatim>\<open>JSON.stringify\<close>\<close>

text \<open>An entity whose stake is not known has the value \<open>None\<close> under its address.\<close>

type_synonym entity_stakes = "stake_info option obj"

definition known_stake :: "entity_stakes \<Rightarrow> string \<Rightarrow> stake_info option" where
  "known_stake stakes a = or_else (obj_get stakes a) None"

definition stakeInfoEntities :: "operation \<Rightarrow> validation_result \<Rightarrow> entity_stakes" where
  "stakeInfoEntities op vr =
     (let s0 = [(toLowerCase (sender op), Some (senderInfo vr))];
          s1 = (case lower_opt (factory op) of None \<Rightarrow> s0 | Some f \<Rightarrow> AList.update f (factoryInfo vr) s0)
      in case lower_opt (paymaster op) of None \<Rightarrow> s1 | Some p \<Rightarrow> AList.update p (paymasterInfo vr) s1)"

text \<open>One hash input and one entity: the slots of the entity exist from then on.\<close>

definition legacy_add_slot :: "ethers_lib \<Rightarrow> string \<Rightarrow> stake_info option \<Rightarrow> string list obj \<Rightarrow> string list obj res" where
  "legacy_add_slot L k info slots =
     (case info of
        None \<Rightarrow> Inr slots
      | Some i \<Rightarrow>
          (let a = toLowerCase (addr i) in
           bindE (toBytes32 L a) (\<lambda>addrPadded.
             let old = or_else (obj_get slots a) [] in
             if startsWith k addrPadded
             then bindE (lib_keccak256 L k) (\<lambda>h. Inr (AList.update a (if h \<in> set old then old else old @ [h]) slots))
             else Inr (AList.update a old slots))))"

definition legacy_parseEntitySlots :: "ethers_lib \<Rightarrow> entity_stakes \<Rightarrow> string list \<Rightarrow> string list obj res" where
  "legacy_parseEntitySlots L stakes inputs =
     foldE (\<lambda>k. foldE (legacy_add_slot L k) (map snd stakes)) inputs []"

definition getEntityTitle :: "operation \<Rightarrow> string \<Rightarrow> string res" where
  "getEntityTitle op a =
     (if toLowerCase (sender op) = toLowerCase a then Inr ''account''
      else if lower_opt (factory op) = Some (toLowerCase a) then Inr ''factory''
      else if lower_opt (paymaster op) = Some (toLowerCase a) then Inr ''paymaster''
      else Inl (RpcError (''could not find entity name for address '' @ a @ ''. This should not happen. This is a bug.'') 0 []))"

definition legacy_bannedOpCodes :: "string list" where
  "legacy_bannedOpCodes = [''GASPRICE'', ''GASLIMIT'', ''DIFFICULTY'', ''TIMESTAMP'', ''BASEFEE'', ''BLOCKHASH'',
     ''NUMBER'', ''ORIGIN'', ''GAS'', ''COINBASE'', ''SELFDESTRUCT'', ''RANDOM'', ''PREVRANDAO'', ''INVALID'']"

definition legacy_stakedOpcodes :: "string list" where
  "legacy_stakedOpcodes = [''BALANCE'', ''SELFBALANCE'']"

definition legacy_isStaked :: "stake_info option \<Rightarrow> bool" where
  "legacy_isStaked entStake =
     (case entStake of None \<Rightarrow> False | Some i \<Rightarrow> 1 \<le> stake i \<and> 1 \<le> unstakeDelaySec i)"

definition nameAddr :: "string \<Rightarrow> entity_stakes \<Rightarrow> string" where
  "nameAddr a stakes =
     (case find (\<lambda>(title, info). map_option (\<lambda>i. toLowerCase (addr i)) info = Some (toLowerCase a)) stakes of
        Some (title, info) \<Rightarrow> title | None \<Rightarrow> a)"

definition requireCondAndStake ::
  "legacy_env \<Rightarrow> bool \<Rightarrow> stake_info option \<Rightarrow> string \<Rightarrow> string \<Rightarrow> access_info obj \<Rightarrow> unit res" where
  "requireCondAndStake E cond entStake failureMessage entityTitle access =
     (if \<not> cond then Inr ()
      else (case entStake of
        None \<Rightarrow> Inl (JsError (''internal: '' @ entityTitle @ '' not in userOp, but has storage accesses in '' @ le_json E access) None)
      | Some i \<Rightarrow> requireCond (legacy_isStaked entStake) failureMessage OpcodeValidation [(entityTitle, addr i)]))"

section \<open>The check of a call\<close>

text \<open>What the check of a call of one entity is given and passes down unchanged.\<close>

record legacy_ctx =
  lc_env :: legacy_env
  lc_op :: operation
  lc_entityAddress :: string
  lc_title :: string
  lc_stake :: "stake_info option"
  lc_slots :: "string list obj"
  lc_stakes :: entity_stakes

definition legacy_opcodes :: "legacy_ctx \<Rightarrow> level_info \<Rightarrow> unit res" where
  "legacy_opcodes X l =
     forE (obj_keys (li_opcodes l)) (\<lambda>opcode.
       bindE (requireCond (opcode \<notin> set legacy_bannedOpCodes)
         (lc_title X @ '' uses banned opcode: '' @ opcode) OpcodeValidation []) (\<lambda>_.
       requireCond (opcode \<notin> set legacy_stakedOpcodes \<or> legacy_isStaked (lc_stake X))
         (''unstaked '' @ lc_title X @ '' uses banned opcode: '' @ opcode) OpcodeValidation []))"

definition legacy_create :: "legacy_ctx \<Rightarrow> call_info \<Rightarrow> nat \<Rightarrow> unit res" where
  "legacy_create X c depth =
     (if ci_type c = Some ''CREATE'' then
        bindE (requireCond (depth = 1)
          (lc_title X @ '' uses banned opcode: CREATE from inner call depth='' @ show_int (int depth)) OpcodeValidation []) (\<lambda>_.
        requireCond ((lc_title X = ''account'' \<and> factory (lc_op X) \<noteq> None) \<or> (lc_title X = ''factory'' \<and> legacy_isStaked (lc_stake X)))
          (lc_title X @ '' uses banned opcode: CREATE'') OpcodeValidation [])
      else Inr ())"

definition legacy_create2 :: "legacy_ctx \<Rightarrow> call_info \<Rightarrow> unit res" where
  "legacy_create2 X c =
     (if ci_type c = Some ''CREATE2'' then
        (let op = lc_op X;
             factoryStaked = legacy_isStaked (known_stake (lc_stakes X) (or_else (lower_opt (factory op)) []))
         in requireCond
           ((lc_title X = ''account'' \<and> factoryStaked \<and> ci_from c = Some (toLowerCase (sender op))) \<or>
            (lc_title X = ''factory'' \<and>
              (ci_to c = Some (toLowerCase (sender op)) \<or> (ci_from c = factory op \<and> legacy_isStaked (lc_stake X)))))
           (lc_title X @ '' uses banned opcode: CREATE2'') OpcodeValidation [])
      else Inr ())"

text \<open>One slot of a contract that is neither the sender nor the entry point; the result is the slot that needs stake.\<close>

definition legacy_forbidden :: "legacy_ctx \<Rightarrow> string \<Rightarrow> access_info \<Rightarrow> string \<Rightarrow> string" where
  "legacy_forbidden X a acc slot =
     (let isWrite = slot \<in> set (obj_keys (ai_writes acc)) \<or> slot \<in> set (obj_keys (ai_transientWrites acc));
          isTransient = slot \<in> set (obj_keys (ai_transientReads acc)) \<or> slot \<in> set (obj_keys (ai_transientWrites acc))
      in lc_title X @ '' has forbidden '' @ (if isWrite then ''write to'' else ''read from'') @ '' '' @
         (if isTransient then ''transient '' else []) @ nameAddr a (lc_stakes X) @ '' slot '' @ slot)"

definition legacy_slot ::
  "legacy_ctx \<Rightarrow> string \<Rightarrow> access_info \<Rightarrow> string \<Rightarrow> string option \<Rightarrow> string option res" where
  "legacy_slot X a acc slot requireStakeSlot =
     (let op = lc_op X; L = le_lib (lc_env X) in
      bindE (associatedWith L slot (toLowerCase (sender op)) (lc_slots X)) (\<lambda>bySender.
      if bySender then
        (case factory op of
           None \<Rightarrow> Inr requireStakeSlot
         | Some f \<Rightarrow>
             if f = AddressZero then Inr requireStakeSlot
             else if toLowerCase (lc_entityAddress X) = toLowerCase (sender op) \<and>
                     legacy_isStaked (known_stake (lc_stakes X) (toLowerCase f))
             then Inr requireStakeSlot else Inr (Some slot))
      else bindE (associatedWith L slot (lc_entityAddress X) (lc_slots X)) (\<lambda>byEntity.
        if byEntity then Inr (Some slot)
        else if toLowerCase a = toLowerCase (lc_entityAddress X) then Inr (Some slot)
        else if obj_get (ai_writes acc) slot = None \<and> obj_get (ai_transientWrites acc) slot = None then Inr (Some slot)
        else Inl (RpcError (legacy_forbidden X a acc slot) (error_code OpcodeValidation)
               (case lc_stake X of None \<Rightarrow> [] | Some i \<Rightarrow> [(lc_title X, addr i)])))))"

definition accessed :: "access_info \<Rightarrow> string list" where
  "accessed acc = obj_keys (ai_writes acc) @ obj_keys (ai_reads acc) @
     obj_keys (ai_transientWrites acc) @ obj_keys (ai_transientReads acc)"

definition legacy_access :: "legacy_ctx \<Rightarrow> access_info obj \<Rightarrow> string \<times> access_info \<Rightarrow> unit res" where
  "legacy_access X access = (\<lambda>(a, acc).
     if toLowerCase a = toLowerCase (sender (lc_op X)) then Inr ()
     else if toLowerCase a = toLowerCase (le_entryPoint (lc_env X)) then Inr ()
     else bindE (foldE (legacy_slot X a acc) (accessed acc) None) (\<lambda>requireStakeSlot.
       requireCondAndStake (lc_env X) (requireStakeSlot \<noteq> None) (lc_stake X)
         (''unstaked '' @ lc_title X @ '' accessed '' @ nameAddr a (lc_stakes X) @ '' slot '' @ or_else requireStakeSlot ''undefined'')
         (lc_title X) access))"

text \<open>The code accesses of a call: undeployed contracts, and the entry point.\<close>

definition zero_code :: "legacy_ctx \<Rightarrow> string \<times> size_info \<Rightarrow> bool" where
  "zero_code X = (\<lambda>(a, i). toLowerCase a \<noteq> toLowerCase (sender (lc_op X)) \<and>
     toLowerCase a \<noteq> toLowerCase (le_entryPoint (lc_env X)) \<and> si_contractSize i \<le> 2)"

definition legacy_code :: "legacy_ctx \<Rightarrow> level_info \<Rightarrow> unit res" where
  "legacy_code X l =
     bindE (case find (zero_code X) (li_contractSize l) of
              None \<Rightarrow> Inr ()
            | Some (a, i) \<Rightarrow> requireCond False
                (lc_title X @ '' accesses un-deployed contract address '' @ a @ '' with opcode '' @ si_opcode i) OpcodeValidation []) (\<lambda>_.
     case find (\<lambda>(a, opcode). toLowerCase a = toLowerCase (le_entryPoint (lc_env X))) (li_extCode l) of
       None \<Rightarrow> Inr ()
     | Some (a, opcode) \<Rightarrow> requireCond False
         (lc_title X @ '' accesses EntryPoint contract address '' @ le_entryPoint (lc_env X) @ '' with opcode '' @ opcode) OpcodeValidation [])"

definition check_call :: "legacy_ctx \<Rightarrow> call_info \<Rightarrow> nat \<Rightarrow> unit res" where
  "check_call X c depth =
     (let l = ci_level c in
      bindE (requireCond (\<not> li_oog l) (lc_title X @ '' internally reverts on oog'') OpcodeValidation []) (\<lambda>_.
      bindE (legacy_opcodes X l) (\<lambda>_.
      bindE (legacy_create X c depth) (\<lambda>_.
      bindE (legacy_create2 X c) (\<lambda>_.
      bindE (forE (li_access l) (legacy_access X (li_access l))) (\<lambda>_.
      legacy_code X l))))))"

lemma size_ci_calls: "size_list size (ci_calls c) < size c"
  by (cases c) simp

function (sequential) processEntityCall :: "legacy_ctx \<Rightarrow> call_info \<Rightarrow> nat \<Rightarrow> unit res"
  and processEntityCalls :: "legacy_ctx \<Rightarrow> call_info list \<Rightarrow> nat \<Rightarrow> unit res" where
  "processEntityCall X c depth =
     bindE (check_call X c depth) (\<lambda>_. processEntityCalls X (ci_calls c) (depth + 1))"
| "processEntityCalls X [] depth = Inr ()"
| "processEntityCalls X (c # cs) depth =
     bindE (processEntityCall X c depth) (\<lambda>_. processEntityCalls X cs depth)"
  by pat_completeness auto

termination
  by (relation "measure (case_sum (\<lambda>(X, c, d). 2 * size c + 1) (\<lambda>(X, cs, d). 2 * size_list size cs))")
     (use size_ci_calls in \<open>auto simp: less_Suc_eq\<close>)

section \<open>The check of a result\<close>

definition event_to :: "trace_event \<Rightarrow> string option" where
  "event_to e = (case e of MethodInfo t f to m v g \<Rightarrow> Some to | ExitInfo t u d \<Rightarrow> None)"

definition event_from :: "trace_event \<Rightarrow> string option" where
  "event_from e = (case e of MethodInfo t f to m v g \<Rightarrow> Some f | ExitInfo t u d \<Rightarrow> None)"

definition event_method :: "trace_event \<Rightarrow> string option" where
  "event_method e = (case e of MethodInfo t f to m v g \<Rightarrow> Some m | ExitInfo t u d \<Rightarrow> None)"

definition event_value :: "trace_event \<Rightarrow> int" where
  "event_value e = (case e of MethodInfo t f to m v g \<Rightarrow> v | ExitInfo t u d \<Rightarrow> 0)"

definition into_entry_point :: "legacy_env \<Rightarrow> trace_event \<Rightarrow> bool" where
  "into_entry_point E call \<longleftrightarrow>
     lower_opt (event_to call) = Some (toLowerCase (le_entryPoint E)) \<and>
     lower_opt (event_from call) \<noteq> Some (toLowerCase (le_entryPoint E)) \<and>
     event_method call \<noteq> Some ''0x'' \<and> event_method call \<noteq> Some ''depositTo''"

definition carries_value :: "legacy_env \<Rightarrow> trace_event \<Rightarrow> bool" where
  "carries_value E call \<longleftrightarrow>
     lower_opt (event_to call) \<noteq> Some (toLowerCase (le_entryPoint E)) \<and> event_value call \<noteq> 0"

text \<open>None of the events of the tracer has a \<^verbatim>\<open>topLevelTargetAddress\<close>, so the filter on it keeps all.\<close>

definition check_events :: "legacy_env \<Rightarrow> trace_event list \<Rightarrow> unit res" where
  "check_events E callStack =
     bindE (case find (into_entry_point E) callStack of
              None \<Rightarrow> Inr ()
            | Some call \<Rightarrow> requireCond False
                (''illegal call into EntryPoint during validation '' @ or_else (event_method call) ''undefined'') OpcodeValidation []) (\<lambda>_.
     requireCond (find (carries_value E) callStack = None) ''May not may CALL with value'' OpcodeValidation [])"

definition check_entity ::
  "legacy_env \<Rightarrow> operation \<Rightarrow> entity_stakes \<Rightarrow> string list obj \<Rightarrow> tracer_result \<Rightarrow> string \<times> stake_info option \<Rightarrow> unit res" where
  "check_entity E op stakes slots tr = (\<lambda>(entityAddress, entStakes).
     bindE (getEntityTitle op entityAddress) (\<lambda>entityTitle.
       forE (filter (\<lambda>c. toLowerCase (li_target (ci_level c)) = toLowerCase entityAddress) (tr_callsFromEntryPoint tr)) (\<lambda>c.
         processEntityCall \<lparr>lc_env = E, lc_op = op, lc_entityAddress = entityAddress, lc_title = entityTitle,
           lc_stake = entStakes, lc_slots = slots, lc_stakes = stakes\<rparr> c 0)))"

definition add_reads :: "call_info \<Rightarrow> storage_map \<Rightarrow> storage_map" where
  "add_reads c m = foldl (\<lambda>m (a, acc). AList.update a (or_else (obj_get m a) (Slots (ai_reads acc))) m) m (li_access (ci_level c))"

definition tracerResultParser ::
  "legacy_env \<Rightarrow> operation \<Rightarrow> tracer_result \<Rightarrow> validation_result \<Rightarrow> (string list \<times> storage_map) res" where
  "tracerResultParser E op tr vr =
     (if length (tr_callsFromEntryPoint tr) < 1
      then Inl (JsError ''Unexpected traceCall result: no calls from entrypoint.'' None)
      else
        (let stakes = stakeInfoEntities op vr in
         bindE (check_events E (tr_calls tr)) (\<lambda>_.
         bindE (legacy_parseEntitySlots (le_lib E) stakes (tr_keccak tr)) (\<lambda>entitySlots.
         bindE (forE stakes (check_entity E op stakes entitySlots tr)) (\<lambda>_.
           Inr (concat (map (\<lambda>c. obj_keys (li_contractSize (ci_level c))) (tr_callsFromEntryPoint tr)),
                foldl (\<lambda>m c. add_reads c m) [] (tr_callsFromEntryPoint tr)))))))"

end
