(* ===== verification/ValidationManager.thy ===== *)
theory ValidationManager
  imports ERC7562Compliance PreVerificationGas RevertReason LegacyRules
begin

text \<open>
  \<^verbatim>\<open>packages/validation-manager/src/ValidationManager.ts\<close>: the static checks of an incoming
  operation, its simulation (plain or traced), the decoding of the trace into a validation
  result, and the conditions on that result. The node, the entry point and the ABI decoders
  are the record \<open>vm_env\<close>; the ERC-7562 parser is the state the actions run on. Both traced
  paths are modelled: the one with the native tracer of the node, whose result is a call tree,
  and the one with the JavaScript tracer, whose result is that of \<open>LegacyRules\<close>.
\<close>

section \<open>Environment\<close>

record vm_env =
  ve_lib :: ethers_lib
  ve_hex :: hex_lib
  ve_revert :: revert_lib
  ve_entryPoint :: string
  ve_unsafe :: bool
  ve_pvg :: pvg_config
  ve_native :: bool
    \<comment> \<open>\<^verbatim>\<open>providerForTracer == null\<close>\<close>
  ve_getDepositInfo :: "string \<Rightarrow> (int \<times> int) res"
  ve_codeHash :: "string list \<Rightarrow> string res"
    \<comment> \<open>the hash that the \<^verbatim>\<open>CodeHashGetter\<close> script returns\<close>
  ve_chainId :: "int res"
  ve_now :: int
    \<comment> \<open>\<^verbatim>\<open>Math.floor(Date.now() / 1000)\<close>\<close>
  ve_ethCall :: "packed_user_op \<Rightarrow> int \<Rightarrow> unit res"
    \<comment> \<open>\<^verbatim>\<open>eth_call\<close> of \<^verbatim>\<open>handleOps\<close> with a gas limit\<close>
  ve_errorData :: "js_error \<Rightarrow> string"
    \<comment> \<open>\<^verbatim>\<open>err.data?.data ?? err.data ?? err.error.data\<close>\<close>
  ve_errorText :: "js_error \<Rightarrow> string"
    \<comment> \<open>\<^verbatim>\<open>err.data ?? err.error?.data ?? err.message\<close>\<close>
  ve_traceCall :: "packed_user_op \<Rightarrow> int \<Rightarrow> erc7562_call res"
    \<comment> \<open>\<^verbatim>\<open>debug_traceCall\<close> of \<^verbatim>\<open>handleOps\<close> with the native tracer\<close>
  ve_traceCallJS :: "packed_user_op \<Rightarrow> int \<Rightarrow> tracer_result res"
    \<comment> \<open>the same with the JavaScript tracer\<close>
  ve_noAddress :: js_error
    \<comment> \<open>what \<^verbatim>\<open>connect\<close> throws for a missing address\<close>
  ve_jsonAccess :: "access_info obj \<Rightarrow> string"
  ve_sighash :: "string \<Rightarrow> string"
    \<comment> \<open>the selector of a method of the account, paymaster or entry point interface\<close>
  ve_decodePaymasterResult :: "string \<Rightarrow> (string \<times> int) res"
    \<comment> \<open>context and validation data\<close>
  ve_decodeOpInfo :: "string \<Rightarrow> (int \<times> int) res"
    \<comment> \<open>\<^verbatim>\<open>preOpGas\<close> and \<^verbatim>\<open>prefund\<close> in the input of \<^verbatim>\<open>innerHandleOp\<close>\<close>
  ve_json :: "string obj \<Rightarrow> string"
  ve_showNumber :: "rat \<Rightarrow> string"

definition VALID_UNTIL_FUTURE_SECONDS :: int where
  "VALID_UNTIL_FUTURE_SECONDS = 30"

definition MAX_VERIFICATION_GAS_USED :: int where
  "MAX_VERIFICATION_GAS_USED = 500000"

definition EXPECTED_INNER_HANDLE_OP_FAILURES :: "string list" where
  "EXPECTED_INNER_HANDLE_OP_FAILURES =
     [''FailedOp(0,'' @ dq @ ''AA95 out of gas'' @ dq @ '')'', ''Error(AA90 invalid beneficiary)'']"

definition usingErc7562NativeTracer :: "vm_env \<Rightarrow> bool" where
  "usingErc7562NativeTracer V \<longleftrightarrow> ve_native V"

definition undefined_property :: js_error where
  "undefined_property = JsError ''Cannot read properties of undefined'' None"

section \<open>Reading a trace\<close>

record stakes =
  st_sender :: stake_info
  st_paymaster :: "stake_info option"
  st_factory :: "stake_info option"

definition stake_of :: "vm_env \<Rightarrow> string \<Rightarrow> stake_info res" where
  "stake_of V a = bindE (ve_getDepositInfo V a) (\<lambda>(st, delay).
     Inr \<lparr>addr = a, stake = st, unstakeDelaySec = delay, pm_context = None\<rparr>)"

definition stake_of_opt :: "vm_env \<Rightarrow> string option \<Rightarrow> stake_info option res" where
  "stake_of_opt V a = (case a of None \<Rightarrow> Inr None | Some x \<Rightarrow> bindE (stake_of V x) (\<lambda>i. Inr (Some i)))"

definition getStakes :: "vm_env \<Rightarrow> string \<Rightarrow> string option \<Rightarrow> string option \<Rightarrow> stakes res" where
  "getStakes V sender' pm factory' =
     bindE (stake_of V sender') (\<lambda>s.
     bindE (stake_of_opt V pm) (\<lambda>p.
     bindE (stake_of_opt V (if factory' = Some EIP_7702_MARKER_INIT_CODE then None else factory')) (\<lambda>f.
       Inr \<lparr>st_sender = s, st_paymaster = p, st_factory = f\<rparr>)))"

text \<open>\<^verbatim>\<open>getValidationCalls\<close> only looks at the list of calls; it is handed both kinds of trace.\<close>

definition nth_call :: "'c list \<Rightarrow> nat \<Rightarrow> 'c option" where
  "nth_call cs i = (if i < length cs then Some (cs ! i) else None)"

record 'c validation_calls =
  vc_validation :: "'c option"
  vc_paymaster :: "'c option"
  vc_inner :: "'c option"

definition has_init_call :: "operation \<Rightarrow> bool" where
  "has_init_call op \<longleftrightarrow>
     (factory op \<noteq> None \<and> factory op \<noteq> Some EIP_7702_MARKER_INIT_CODE) \<or>
     (factory op = Some EIP_7702_MARKER_INIT_CODE \<and> (case factoryData op of None \<Rightarrow> False | Some d \<Rightarrow> length d > 0))"

definition getValidationCalls :: "operation \<Rightarrow> 'c list \<Rightarrow> 'c validation_calls" where
  "getValidationCalls op cs =
     (let i0 = (if has_init_call op then 1 else 0);
          i1 = i0 + 1;
          i2 = (if paymaster op \<noteq> None then i1 + 1 else i1)
      in \<lparr>vc_validation = nth_call cs i0,
          vc_paymaster = (if paymaster op \<noteq> None then nth_call cs i1 else None),
          vc_inner = nth_call cs i2\<rparr>)"

text \<open>The selector of a frame against the expected method; a missing frame is a type error.\<close>

definition require_method :: "vm_env \<Rightarrow> string \<Rightarrow> erc7562_call option \<Rightarrow> erc7562_call res" where
  "require_method V method call =
     (case call of
        None \<Rightarrow> Inl undefined_property
      | Some c \<Rightarrow>
          (case call_input c of
             None \<Rightarrow> Inl undefined_property
           | Some input \<Rightarrow>
               if get4bytes input \<noteq> ve_sighash V method
               then Inl (JsError (''Not a '' @ method) None) else Inr c))"

definition decodeValidateUserOp :: "vm_env \<Rightarrow> erc7562_call option \<Rightarrow> validation_data res" where
  "decodeValidateUserOp V call =
     bindE (require_method V ''validateUserOp'' call) (\<lambda>c.
       case call_output c of
         None \<Rightarrow> Inl (JsError ''validateUserOp: No output'' None)
       | Some out \<Rightarrow> bindE (hx_bn (ve_hex V) out) (parseValidationData (ve_hex V)))"

definition decodeValidatePaymasterUserOp :: "vm_env \<Rightarrow> erc7562_call \<Rightarrow> (string \<times> validation_data) res" where
  "decodeValidatePaymasterUserOp V call =
     bindE (require_method V ''validatePaymasterUserOp'' (Some call)) (\<lambda>c.
       case call_output c of
         None \<Rightarrow> Inl (JsError ''validatePaymasterUserOp: No output'' None)
       | Some out \<Rightarrow>
           bindE (ve_decodePaymasterResult V out) (\<lambda>(context, validationData).
           bindE (parseValidationData (ve_hex V) validationData) (\<lambda>d. Inr (context, d))))"

definition decodeInnerHandleOp :: "vm_env \<Rightarrow> erc7562_call \<Rightarrow> (int \<times> int) res" where
  "decodeInnerHandleOp V call =
     bindE (require_method V ''innerHandleOp'' (Some call)) (\<lambda>c.
       ve_decodeOpInfo V (the (call_input c)))"

definition no_paymaster_data :: validation_data where
  "no_paymaster_data = \<lparr>vd_aggregator = AddressZero, vd_validAfter = 0, vd_validUntil = maxUint48\<rparr>"

text \<open>
  The result from the three decoded calls: of the account, of the paymaster and of
  \<^verbatim>\<open>innerHandleOp\<close>, the last two absent when there is no such call.
\<close>

definition result_from ::
  "vm_env \<Rightarrow> operation \<Rightarrow> validation_data res \<Rightarrow> (string \<times> validation_data) res option \<Rightarrow> (int \<times> int) res option \<Rightarrow>
     validation_result res" where
  "result_from V op account pm inner =
     bindE account (\<lambda>validationData.
     bindE (case pm of
              None \<Rightarrow> Inr (None, no_paymaster_data)
            | Some r \<Rightarrow> bindE r (\<lambda>(ctxt, d). Inr (Some ctxt, d)))
       (\<lambda>(paymasterContext, paymasterValidationData).
     bindE (case inner of None \<Rightarrow> Inr None | Some r \<Rightarrow> bindE r (\<lambda>i. Inr (Some i))) (\<lambda>innerHandleOpsOut.
     bindE (getStakes V (sender op) (paymaster op) (factory op)) (\<lambda>retStakes.
       Inr \<lparr>preOpGas = map_option fst innerHandleOpsOut, prefund = map_option snd innerHandleOpsOut, sigFailed = False,
            validAfter = max (vd_validAfter validationData) (vd_validAfter paymasterValidationData),
            validUntil = min (vd_validUntil validationData) (vd_validUntil paymasterValidationData),
            senderInfo = st_sender retStakes,
            factoryInfo = st_factory retStakes,
            paymasterInfo = map_option (\<lambda>i. i\<lparr>pm_context := paymasterContext\<rparr>) (st_paymaster retStakes),
            aggregatorInfo = None\<rparr>))))"

definition generateValidationResult :: "vm_env \<Rightarrow> operation \<Rightarrow> erc7562_call \<Rightarrow> validation_result res" where
  "generateValidationResult V op tracerResult =
     (let calls = getValidationCalls op (inner_calls tracerResult) in
      result_from V op (decodeValidateUserOp V (vc_validation calls))
        (map_option (decodeValidatePaymasterUserOp V) (vc_paymaster calls))
        (map_option (decodeInnerHandleOp V) (vc_inner calls)))"

text \<open>
  With the JavaScript tracer the same method runs on the list of events. An event has no
  \<^verbatim>\<open>input\<close>, and that of an exit no address, so decoding one always throws.
\<close>

definition decode_event :: "vm_env \<Rightarrow> trace_event \<Rightarrow> 'a res" where
  "decode_event V e =
     (case e of MethodInfo t f to m v g \<Rightarrow> Inl undefined_property | ExitInfo t u d \<Rightarrow> Inl (ve_noAddress V))"

definition generateValidationResult_js :: "vm_env \<Rightarrow> operation \<Rightarrow> tracer_result \<Rightarrow> validation_result res" where
  "generateValidationResult_js V op tracerResult =
     (let calls = getValidationCalls op (tr_calls tracerResult) in
      result_from V op
        (case vc_validation calls of None \<Rightarrow> Inl undefined_property | Some e \<Rightarrow> decode_event V e)
        (map_option (decode_event V) (vc_paymaster calls))
        (map_option (decode_event V) (vc_inner calls)))"

section \<open>Simulation\<close>

text \<open>\<^verbatim>\<open>BigNumber.from(x)\<close> of a JavaScript number throws unless it is an integer.\<close>

definition bn_of_number :: "rat \<Rightarrow> int res" where
  "bn_of_number x = (if of_int \<lfloor>x\<rfloor> = x then Inr \<lfloor>x\<rfloor> else Inl (JsError ''underflow'' None))"

definition simulation_gas :: "vm_env \<Rightarrow> operation \<Rightarrow> int res" where
  "simulation_gas V op =
     bindE (calculate (ve_hex V) (ve_pvg V) op \<lparr>verificationGasUsed = None, totalGasUsed = None\<rparr>) (\<lambda>prevg.
     bindE (bn_of_number prevg) (\<lambda>p.
       Inr (sum_opt [Some p, Some (verificationGasLimit op), paymasterVerificationGasLimit op])))"

definition revertText :: "vm_env \<Rightarrow> string \<Rightarrow> bool \<Rightarrow> string option" where
  "revertText V data nullIfNoMatch = the (decodeRevertReason (ve_revert V) (length data + 1) data nullIfNoMatch)"

definition AA24 :: string where "AA24 = ''FailedOp(0,'' @ dq @ ''AA24''"
definition AA34 :: string where "AA34 = ''FailedOp(0,'' @ dq @ ''AA34''"

text \<open>What both simulations do with a decoded revert reason.\<close>

definition check_revert :: "string \<Rightarrow> unit res" where
  "check_revert reason =
     (if startsWith reason AA24 then Inl (RpcError ''AA24: Invalid UserOp signature'' (error_code InvalidSignature) [])
      else if startsWith reason AA34 then Inl (RpcError ''AA34: Invalid Paymaster signature'' (error_code InvalidSignature) [])
      else if reason \<in> set EXPECTED_INNER_HANDLE_OP_FAILURES then Inr ()
      else Inl (RpcError reason (error_code SimulateValidation) []))"

definition simulateHandleOps :: "vm_env \<Rightarrow> operation \<Rightarrow> unit res" where
  "simulateHandleOps V op =
     bindE (packUserOp (ve_hex V) op) (\<lambda>packed.
     bindE (simulation_gas V op) (\<lambda>g.
     bindE (toNumber g) (\<lambda>gas.
       case ve_ethCall V packed gas of
         Inr u \<Rightarrow> Inr ()
       | Inl err \<Rightarrow>
           (case revertText V (ve_errorData V err) True of
              None \<Rightarrow> Inl err
            | Some decodedError \<Rightarrow> check_revert decodedError))))"

definition has_code :: "js_error \<Rightarrow> bool" where
  "has_code err = (case err of RpcError m c d \<Rightarrow> True | JsError m c \<Rightarrow> c \<noteq> None)"

text \<open>
  The handler around \<open>generateValidationResult\<close>. \<open>data\<close> is the text of the variable that the
  fallback message is taken from: the data of the last event with the JavaScript tracer, never
  assigned with the native one.
\<close>

definition rethrow_trace_error :: "vm_env \<Rightarrow> string \<Rightarrow> js_error \<Rightarrow> js_error res" where
  "rethrow_trace_error V data err =
     (if has_code err then Inr err
      else bindE (decodeErrorReason (ve_hex V) (ve_errorText V err)) (\<lambda>d.
        Inr (RpcError (case d of Some r \<Rightarrow> de_message r | None \<Rightarrow> data) (- 32000) [])))"

definition rethrow_unparsed :: "vm_env \<Rightarrow> string \<Rightarrow> 'a res \<Rightarrow> 'a res" where
  "rethrow_unparsed V data r =
     (case r of Inr a \<Rightarrow> Inr a | Inl err \<Rightarrow> bindE (rethrow_trace_error V data err) Inl)"

definition geth_traceCall_SimulateValidation :: "vm_env \<Rightarrow> operation \<Rightarrow> (validation_result \<times> erc7562_call) res" where
  "geth_traceCall_SimulateValidation V op =
     bindE (packUserOp (ve_hex V) op) (\<lambda>packed.
     bindE (simulation_gas V op) (\<lambda>simulationGas.
     bindE (ve_traceCall V packed simulationGas) (\<lambda>tracerResult.
     bindE (case call_output tracerResult of
              None \<Rightarrow> Inl undefined_property
            | Some out \<Rightarrow> check_revert (the (revertText V out False))) (\<lambda>_.
     bindE (rethrow_unparsed V [] (generateValidationResult V op tracerResult)) (\<lambda>vr.
       Inr (vr, tracerResult))))))"

text \<open>An event that enters a call is never of type \<^verbatim>\<open>REVERT\<close>; only the data of an exit is decoded.\<close>

definition last_event_data :: "trace_event list \<Rightarrow> (string \<times> string) res" where
  "last_event_data events =
     (if events = [] then Inl undefined_property
      else (case last events of
        ExitInfo t u d \<Rightarrow> Inr (t, d) | MethodInfo t f to m v g \<Rightarrow> Inr (t, [])))"

definition geth_traceCall_js :: "vm_env \<Rightarrow> operation \<Rightarrow> (validation_result \<times> tracer_result) res" where
  "geth_traceCall_js V op =
     bindE (packUserOp (ve_hex V) op) (\<lambda>packed.
     bindE (simulation_gas V op) (\<lambda>simulationGas.
     bindE (ve_traceCallJS V packed simulationGas) (\<lambda>tracerResult.
     bindE (last_event_data (tr_calls tracerResult)) (\<lambda>(type, data).
     bindE (if type = ''REVERT''
            then Inl (RpcError (the (revertText V data False)) (error_code SimulateValidation) []) else Inr ()) (\<lambda>_.
     bindE (rethrow_unparsed V data (generateValidationResult_js V op tracerResult)) (\<lambda>vr.
       Inr (vr, tracerResult)))))))"

section \<open>Validation\<close>

definition getCodeHashes :: "vm_env \<Rightarrow> string list \<Rightarrow> code_hashes res" where
  "getCodeHashes V addresses = bindE (ve_codeHash V addresses) (\<lambda>h. Inr \<lparr>ch_addresses = addresses, ch_hash = h\<rparr>)"

definition check_code_hashes :: "vm_env \<Rightarrow> code_hashes option \<Rightarrow> unit res" where
  "check_code_hashes V previous =
     (case previous of
        None \<Rightarrow> Inr ()
      | Some p \<Rightarrow>
          if ch_addresses p = [] then Inr ()
          else bindE (getCodeHashes V (ch_addresses p)) (\<lambda>h.
            requireCond (ch_hash h = ch_hash p) ''modified code after first validation'' OpcodeValidation []))"

definition check_authorizations :: "vm_env \<Rightarrow> operation \<Rightarrow> unit res" where
  "check_authorizations V op =
     (let auths = getAuthorizationList op in
      if auths = [] then Inr ()
      else
        bindE (requireCond (length auths = 1) ''Only one authorization is supported'' InvalidFields []) (\<lambda>_.
        bindE (ve_chainId V) (\<lambda>chainId.
          forE auths (\<lambda>a.
            bindE (lib_bn_from (ve_lib V) (auth_chainId a)) (\<lambda>authChainId.
            bindE (requireCond (authChainId = 0 \<or> authChainId = chainId) ''Invalid chainId in authorization'' InvalidFields []) (\<lambda>_.
            bindE (getEip7702AuthorizationSigner (ve_lib V) (hd auths)) (\<lambda>signer.
              requireCond (toLowerCase signer = toLowerCase (sender op)) ''Authorization signer is not sender'' InvalidFields [])))))))"

definition revalidatePreVerificationGas :: "vm_env \<Rightarrow> operation \<Rightarrow> validation_result \<Rightarrow> unit res" where
  "revalidatePreVerificationGas V op vr =
     (case (preVerificationGas op, preOpGas vr) of
        (Some pvg, Some pre) \<Rightarrow>
          bindE (toNumber pvg) (\<lambda>pvg'.
          bindE (toNumber (pre - pvg')) (\<lambda>used.
          bindE (validatePreVerificationGas (ve_hex V) (ve_pvg V) op \<lparr>verificationGasUsed = Some used, totalGasUsed = None\<rparr>)
            (\<lambda>(valid, minRequired).
              requireCond valid (''preVerificationGas too low: expected at least '' @ ve_showNumber V minRequired @
                '', provided only '' @ show_int pvg' @ [CHR 0x0A] @ ''      (verificationGas='' @ show_int used @
                '', exec='' @ show_int (callGasLimit op) @ '')'') InvalidFields [])))
      | _ \<Rightarrow> Inl (JsError ''invalid BigNumber value'' None))"

definition check_result :: "vm_env \<Rightarrow> operation \<Rightarrow> validation_result \<Rightarrow> unit res" where
  "check_result V op vr =
     bindE (revalidatePreVerificationGas V op vr) (\<lambda>_.
     bindE (requireCond (\<not> sigFailed vr) ''Invalid UserOp signature or paymaster signature'' InvalidSignature []) (\<lambda>_.
     let now = ve_now V in
     bindE (requireCond (validAfter vr \<le> now)
       (''time-range in the future time '' @ show_int (validAfter vr) @ '', now='' @ show_int now) NotInTimeRange []) (\<lambda>_.
     bindE (requireCond (validUntil vr = 0 \<or> validUntil vr \<ge> now) ''already expired'' NotInTimeRange []) (\<lambda>_.
     bindE (requireCond (validUntil vr = 0 \<or> validUntil vr > now + VALID_UNTIL_FUTURE_SECONDS) ''expires too soon'' NotInTimeRange []) (\<lambda>_.
       requireCond (aggregatorInfo vr = None) ''Currently not supporting aggregator'' UnsupportedSignatureAggregator [])))))"

text \<open>Lines 370 to 416: the result, the code hashes and the storage map of a simulation.\<close>

definition unsafe_result :: "operation \<Rightarrow> validation_result" where
  "unsafe_result op = \<lparr>
     preOpGas = Some (sum_opt [preVerificationGas op, Some (verificationGasLimit op), paymasterVerificationGasLimit op]),
     prefund = None, sigFailed = False, validAfter = 0, validUntil = 0,
     senderInfo = \<lparr>addr = sender op, stake = 0, unstakeDelaySec = 0, pm_context = None\<rparr>,
     factoryInfo = None, paymasterInfo = None, aggregatorInfo = None\<rparr>"

definition no_code_hashes :: code_hashes where
  "no_code_hashes = \<lparr>ch_addresses = [], ch_hash = []\<rparr>"

definition legacy_env_of :: "vm_env \<Rightarrow> legacy_env" where
  "legacy_env_of V = \<lparr>le_lib = ve_lib V, le_entryPoint = ve_entryPoint V, le_json = ve_jsonAccess V\<rparr>"

definition simulate :: "vm_env \<Rightarrow> operation \<Rightarrow> code_hashes option \<Rightarrow> (parser, validation_result \<times> code_hashes \<times> storage_map) act" where
  "simulate V op previous =
     (if \<not> ve_unsafe V then
        bindM (if usingErc7562NativeTracer V
               then bindM (liftE (geth_traceCall_SimulateValidation V op)) (\<lambda>(vr, trace).
                    bindM (requireCompliance op trace vr) (\<lambda>r.
                      retM (vr, res_contractAddresses r, res_storageMap r)))
               else bindM (liftE (geth_traceCall_js V op)) (\<lambda>(vr, trace).
                    bindM (liftE (tracerResultParser (legacy_env_of V) op trace vr)) (\<lambda>(contractAddresses, storageMap').
                      retM (vr, contractAddresses, storageMap')))) (\<lambda>(vr, contractAddresses, storageMap').
        bindM (liftE (if previous = None then getCodeHashes V contractAddresses else Inr no_code_hashes)) (\<lambda>codeHashes.
          retM (vr, codeHashes, storageMap')))
      else
        bindM (liftE (simulateHandleOps V op)) (\<lambda>_. retM (unsafe_result op, no_code_hashes, [])))"

definition validateUserOp :: "vm_env \<Rightarrow> operation \<Rightarrow> code_hashes option \<Rightarrow> bool \<Rightarrow> (parser, validate_user_op_result) act" where
  "validateUserOp V op previousCodeHashes checkStakes =
     bindM (liftE (check_code_hashes V previousCodeHashes)) (\<lambda>_.
     bindM (liftE (check_authorizations V op)) (\<lambda>_.
     bindM (simulate V op previousCodeHashes) (\<lambda>(vr, codeHashes, storageMap').
     bindM (liftE (check_result V op vr)) (\<lambda>_.
       retM (validation_result.extend vr (validate_user_op_result.fields codeHashes storageMap'))))))"

section \<open>Static checks\<close>

definition required_fields :: "bool \<Rightarrow> bool \<Rightarrow> string list" where
  "required_fields requireSignature requireGasParams =
     [''sender'', ''nonce'', ''callData''] @ (if requireSignature then [''signature''] else []) @
     (if requireGasParams then [''preVerificationGas'', ''verificationGasLimit'', ''callGasLimit'', ''maxFeePerGas'', ''maxPriorityFeePerGas''] else [])"

definition check_field :: "vm_env \<Rightarrow> string obj \<Rightarrow> string \<Rightarrow> unit res" where
  "check_field V raw key =
     (case obj_get raw key of
        None \<Rightarrow> Inl (RpcError (''Missing userOp field: '' @ key @ '' '' @ ve_json V raw) (error_code InvalidFields) [])
      | Some value \<Rightarrow> requireCond (HEX_REGEX value) (''Invalid hex value for property '' @ key @ '':'' @ value @ '' in UserOp'') InvalidFields [])"

text \<open>
  The operation comes as the JSON object of the request (\<open>raw\<close>, absent for a missing one) and
  as the operation \<open>op\<close> it denotes.
\<close>

definition validateInputParameters ::
  "vm_env \<Rightarrow> string obj option \<Rightarrow> operation \<Rightarrow> string option \<Rightarrow> bool \<Rightarrow> bool \<Rightarrow> unit res" where
  "validateInputParameters V raw' op entryPointInput requireSignature requireGasParams =
     bindE (requireCond (entryPointInput \<noteq> None) ''No entryPoint param'' InvalidFields []) (\<lambda>_.
     bindE (requireCond (toLowerCase (the entryPointInput) = toLowerCase (ve_entryPoint V))
       (''The EntryPoint at '' @ dq @ the entryPointInput @ dq @ '' is not supported. This bundler uses '' @ ve_entryPoint V) InvalidFields []) (\<lambda>_.
     bindE (requireCond (raw' \<noteq> None) ''No UserOperation param'' InvalidFields []) (\<lambda>_.
     let raw = the raw' in
     bindE (forE (required_fields requireSignature requireGasParams) (check_field V raw)) (\<lambda>_.
     bindE (requireAddressAndFields raw ''paymaster'' [''paymasterPostOpGasLimit'', ''paymasterVerificationGasLimit''] [''paymasterData'']) (\<lambda>_.
     bindE (if factory op \<noteq> Some EIP_7702_MARKER_INIT_CODE
            then requireAddressAndFields raw ''factory'' [''factoryData''] [] else Inr ()) (\<lambda>_.
     case preVerificationGas op of
       None \<Rightarrow> Inr ()
     | Some g \<Rightarrow>
         bindE (validatePreVerificationGas (ve_hex V) (ve_pvg V) op
                  \<lparr>verificationGasUsed = Some MAX_VERIFICATION_GAS_USED, totalGasUsed = None\<rparr>) (\<lambda>(valid, minRequired).
           requireCond valid (''preVerificationGas too low: expected at least '' @ ve_showNumber V minRequired @
             '', provided only '' @ show_int g) InvalidFields [])))))))"

section \<open>Helpers\<close>

function (sequential) flattenCalls :: "erc7562_call list \<Rightarrow> erc7562_call list" where
  "flattenCalls [] = []"
| "flattenCalls (c # cs) = c # flattenCalls (inner_calls c) @ flattenCalls cs"
  by pat_completeness auto

termination
  by (relation "measure (size_list size)") (use size_inner_calls in \<open>auto simp: less_Suc_eq trans_less_add1\<close>)

text \<open>The table of \<^verbatim>\<open>getOpcodeName\<close> repeats the enumeration; an unknown number stays a number.\<close>

definition vm_getOpcodeName :: "int \<Rightarrow> int + string" where
  "vm_getOpcodeName n = (case getOpcodeName n of Some name \<Rightarrow> Inr name | None \<Rightarrow> Inl n)"

end
