(* ===== verification/ValidationSound.thy ===== *)
theory ValidationSound
  imports ValidationManager
begin

text \<open>
  What \<^verbatim>\<open>ValidationManager.validateUserOp\<close> promises about an operation it accepts when it runs
  traced (\<open>safe_native\<close>: not unsafe, tracer of the node): the trace obeys the ERC-7562 rules, the
  validity windows of account and paymaster are open, the code of the contracts called is the
  code of the first validation.
\<close>

section \<open>The accepted operations\<close>

definition safe_native :: "vm_env \<Rightarrow> bool" where
  "safe_native V \<longleftrightarrow> \<not> ve_unsafe V \<and> ve_native V"

definition result_with :: "validation_result \<Rightarrow> code_hashes \<Rightarrow> storage_map \<Rightarrow> validate_user_op_result" where
  "result_with vr h sm = validation_result.extend vr (validate_user_op_result.fields h sm)"

lemma result_with_parts [simp]:
  "validAfter (result_with vr h sm) = validAfter vr" "validUntil (result_with vr h sm) = validUntil vr"
  "preOpGas (result_with vr h sm) = preOpGas vr"
  "referencedContracts (result_with vr h sm) = h" "vr_storageMap (result_with vr h sm) = sm"
  by (cases vr; simp add: result_with_def validation_result.defs validate_user_op_result.defs)+

text \<open>A traced simulation that returned, and the code hashes it is given.\<close>

definition hashes_of :: "vm_env \<Rightarrow> code_hashes option \<Rightarrow> string list \<Rightarrow> code_hashes res" where
  "hashes_of V previous as = (if previous = None then getCodeHashes V as else Inr no_code_hashes)"

lemma simulate_traced:
  assumes "safe_native V"
  shows "simulate V op previous s = (Inr (vr, h, sm), t) \<longleftrightarrow>
    (\<exists>trace r. geth_traceCall_SimulateValidation V op = Inr (vr, trace) \<and>
       requireCompliance op trace vr s = (Inr r, t) \<and>
       hashes_of V previous (res_contractAddresses r) = Inr h \<and> sm = res_storageMap r)"
  using assms unfolding safe_native_def simulate_def usingErc7562NativeTracer_def hashes_of_def
  by (auto simp: bindM_Inr_iff liftE_Inr_iff retM_Inr_iff split: prod.splits)

lemma validateUserOp_Inr_iff:
  "validateUserOp V op previous cs s = (Inr r, t) \<longleftrightarrow>
     check_code_hashes V previous = Inr () \<and> check_authorizations V op = Inr () \<and>
     (\<exists>vr h sm. simulate V op previous s = (Inr (vr, h, sm), t) \<and> check_result V op vr = Inr () \<and>
        r = result_with vr h sm)"
  unfolding validateUserOp_def result_with_def
  by (auto simp: bindM_Inr_iff liftE_Inr_iff retM_Inr_iff split: prod.splits)

text \<open>The outcome of a validation with the parser as it is.\<close>

lemma validated_traced:
  assumes "fst (validateUserOp V op previous cs s) = Inr r" and "safe_native V"
  obtains vr trace res h where
    "check_code_hashes V previous = Inr ()" "check_authorizations V op = Inr ()"
    "geth_traceCall_SimulateValidation V op = Inr (vr, trace)"
    "fst (requireCompliance op trace vr s) = Inr res"
    "hashes_of V previous (res_contractAddresses res) = Inr h" "check_result V op vr = Inr ()"
    "r = result_with vr h (res_storageMap res)"
proof -
  obtain t where "validateUserOp V op previous cs s = (Inr r, t)"
    using assms(1) by (cases "validateUserOp V op previous cs s") auto
  then show thesis
    unfolding validateUserOp_Inr_iff simulate_traced [OF assms(2)] using that by fastforce
qed

lemma rethrow_unparsed_Inr_iff: "rethrow_unparsed V d r = Inr a \<longleftrightarrow> r = Inr a"
  by (cases r) (auto simp: rethrow_unparsed_def bindE_Inr_iff)

lemma traced_parts:
  assumes "geth_traceCall_SimulateValidation V op = Inr (vr, trace)"
  shows "generateValidationResult V op trace = Inr vr"
    and "\<exists>packed gas. packUserOp (ve_hex V) op = Inr packed \<and> simulation_gas V op = Inr gas \<and>
           ve_traceCall V packed gas = Inr trace"
  using assms unfolding geth_traceCall_SimulateValidation_def bindE_Inr_iff rethrow_unparsed_Inr_iff
  by auto

text \<open>The trace an environment yields for an operation.\<close>

definition traces_to :: "vm_env \<Rightarrow> operation \<Rightarrow> erc7562_call \<Rightarrow> bool" where
  "traces_to V op trace \<longleftrightarrow> (\<exists>packed gas. packUserOp (ve_hex V) op = Inr packed \<and>
     simulation_gas V op = Inr gas \<and> ve_traceCall V packed gas = Inr trace)"

text \<open>C7: an operation accepted by a traced validation has a trace that obeys every ERC-7562 rule in
  each frame, and the storage map handed on with it is the one of that trace.\<close>

theorem accepted_trace_compliant:
  assumes "fst (validateUserOp V op previous cs s) = Inr r" and "safe_native V"
  shows "\<exists>trace vr fs. traces_to V op trace \<and> generateValidationResult V op trace = Inr vr \<and>
    compliant op trace vr s fs \<and> vr_storageMap r = res_storageMap (results_of fs)"
proof -
  obtain vr trace res h where "geth_traceCall_SimulateValidation V op = Inr (vr, trace)"
    "fst (requireCompliance op trace vr s) = Inr res" "r = result_with vr h (res_storageMap res)"
    by (rule validated_traced [OF assms])
  then show ?thesis
    using traced_parts unfolding requireCompliance_Inr_iff traces_to_def by fastforce
qed

section \<open>Validity windows\<close>

lemma parsed_until_nonzero: "parseValidationData H d = Inr v \<Longrightarrow> vd_validUntil v \<noteq> 0"
  by (auto simp: parseValidationData_def bindE_Inr_iff maxUint48_def Let_def split: if_splits)

text \<open>An open window, with the slack the source asks for.\<close>

definition window_open :: "int \<Rightarrow> validation_data \<Rightarrow> bool" where
  "window_open now d \<longleftrightarrow> vd_validAfter d \<le> now \<and> now + VALID_UNTIL_FUTURE_SECONDS < vd_validUntil d"

lemma decoded_until_nonzero:
  "decodeValidateUserOp V c = Inr d \<Longrightarrow> vd_validUntil d \<noteq> 0"
  "decodeValidatePaymasterUserOp V c' = Inr (x, d') \<Longrightarrow> vd_validUntil d' \<noteq> 0"
  by (auto simp: decodeValidateUserOp_def decodeValidatePaymasterUserOp_def bindE_Inr_iff
      split: option.splits dest: parsed_until_nonzero)

lemma generated_windows:
  assumes "generateValidationResult V op trace = Inr vr"
  shows "\<exists>d. decodeValidateUserOp V (vc_validation (getValidationCalls op (inner_calls trace))) = Inr d \<and>
    (case vc_paymaster (getValidationCalls op (inner_calls trace)) of
       None \<Rightarrow> validAfter vr = max (vd_validAfter d) 0 \<and> validUntil vr = min (vd_validUntil d) maxUint48
     | Some c \<Rightarrow> \<exists>x p. decodeValidatePaymasterUserOp V c = Inr (x, p) \<and>
         validAfter vr = max (vd_validAfter d) (vd_validAfter p) \<and> validUntil vr = min (vd_validUntil d) (vd_validUntil p))"
  using assms unfolding generateValidationResult_def result_from_def Let_def bindE_Inr_iff
  by (auto simp: no_paymaster_data_def bindE_Inr_iff split: option.splits)

lemma checked_window:
  assumes "check_result V op vr = Inr ()" and "validUntil vr \<noteq> 0"
  shows "validAfter vr \<le> ve_now V \<and> ve_now V + VALID_UNTIL_FUTURE_SECONDS < validUntil vr"
  using assms by (simp add: check_result_def bindE_Inr_iff Let_def)

text \<open>C6: when a traced validation accepts an operation, the validity window that the account
  returned in the trace is open, with the required seconds left, and so is the window returned by its
  paymaster if it has one. A validity end of zero never gets in the way: the decoder turns it into the
  largest time.\<close>

theorem accepted_windows_open:
  assumes "fst (validateUserOp V op previous cs s) = Inr r" and "safe_native V"
  shows "\<exists>trace d. traces_to V op trace \<and>
    decodeValidateUserOp V (vc_validation (getValidationCalls op (inner_calls trace))) = Inr d \<and> window_open (ve_now V) d \<and>
    (case vc_paymaster (getValidationCalls op (inner_calls trace)) of
       None \<Rightarrow> True
     | Some c \<Rightarrow> \<exists>x p. decodeValidatePaymasterUserOp V c = Inr (x, p) \<and> window_open (ve_now V) p)"
proof -
  obtain vr trace where tr: "geth_traceCall_SimulateValidation V op = Inr (vr, trace)"
    and chk: "check_result V op vr = Inr ()"
    by (rule validated_traced [OF assms])
  from traced_parts [OF tr] have gen: "generateValidationResult V op trace = Inr vr" and "traces_to V op trace"
    unfolding traces_to_def by auto
  obtain d where d: "decodeValidateUserOp V (vc_validation (getValidationCalls op (inner_calls trace))) = Inr d"
    and w: "case vc_paymaster (getValidationCalls op (inner_calls trace)) of
       None \<Rightarrow> validAfter vr = max (vd_validAfter d) 0 \<and> validUntil vr = min (vd_validUntil d) maxUint48
     | Some c \<Rightarrow> \<exists>x p. decodeValidatePaymasterUserOp V c = Inr (x, p) \<and>
         validAfter vr = max (vd_validAfter d) (vd_validAfter p) \<and> validUntil vr = min (vd_validUntil d) (vd_validUntil p)"
    using generated_windows [OF gen] by blast
  show ?thesis
  proof (cases "vc_paymaster (getValidationCalls op (inner_calls trace))")
    case None
    with w have no_pm: "validAfter vr = max (vd_validAfter d) 0" "validUntil vr = min (vd_validUntil d) maxUint48" by auto
    then have "validUntil vr \<noteq> 0"
      using decoded_until_nonzero(1) [OF d] by (simp add: min_def maxUint48_def)
    then have "window_open (ve_now V) d"
      using checked_window [OF chk] no_pm by (simp add: window_open_def)
    with d None \<open>traces_to V op trace\<close> show ?thesis by auto
  next
    case (Some c)
    then obtain x p where p: "decodeValidatePaymasterUserOp V c = Inr (x, p)"
      "validAfter vr = max (vd_validAfter d) (vd_validAfter p)" "validUntil vr = min (vd_validUntil d) (vd_validUntil p)"
      using w by auto
    then have "validUntil vr \<noteq> 0"
      using decoded_until_nonzero(1) [OF d] decoded_until_nonzero(2) [OF p(1)] by (simp add: min_def)
    then have "window_open (ve_now V) d" "window_open (ve_now V) p"
      using checked_window [OF chk] p(2,3) by (simp_all add: window_open_def)
    with d Some p(1) \<open>traces_to V op trace\<close> show ?thesis by auto
  qed
qed

section \<open>Code hashes\<close>

text \<open>C13: [COD-010] across two validations. When an operation passes a first traced validation and
  later, in another environment, a second one with the code hashes recorded by the first, the hash of
  the contracts that the first trace called is the same in both environments.\<close>

theorem code_unchanged_between_validations:
  assumes "fst (validateUserOp V op None cs s) = Inr r" and "safe_native V"
    and "fst (validateUserOp V' op (Some (referencedContracts r)) cs' s') = Inr r'"
  shows "\<exists>trace vr fs h. traces_to V op trace \<and> compliant op trace vr s fs \<and>
    (let called = map (\<lambda>(e, f). call_to f) fs in
       called \<noteq> [] \<longrightarrow> ve_codeHash V called = Inr h \<and> ve_codeHash V' called = Inr h)"
proof -
  obtain vr trace res h where tr: "geth_traceCall_SimulateValidation V op = Inr (vr, trace)"
    "fst (requireCompliance op trace vr s) = Inr res" "hashes_of V None (res_contractAddresses res) = Inr h"
    "r = result_with vr h (res_storageMap res)"
    by (rule validated_traced [OF assms(1,2)])
  from tr(2) obtain fs where fs: "compliant op trace vr s fs"
    and called: "res_contractAddresses res = map (\<lambda>(e, f). call_to f) fs"
    unfolding requireCompliance_Inr_iff by (auto simp: results_of_def)
  from tr(3) called have h: "ch_addresses h = map (\<lambda>(e, f). call_to f) fs"
    "ve_codeHash V (map (\<lambda>(e, f). call_to f) fs) = Inr (ch_hash h)"
    by (auto simp: hashes_of_def getCodeHashes_def bindE_Inr_iff)
  have "check_code_hashes V' (Some h) = Inr ()"
    using assms(3) tr(4) by (cases "validateUserOp V' op (Some h) cs' s'") (auto simp: validateUserOp_Inr_iff)
  then have "ch_addresses h = [] \<or> ve_codeHash V' (ch_addresses h) = Inr (ch_hash h)"
    by (auto simp: check_code_hashes_def getCodeHashes_def bindE_Inr_iff split: if_splits)
  with h fs traced_parts(2) [OF tr(1)] show ?thesis
    unfolding traces_to_def Let_def by (metis (no_types, lifting) h(1))
qed

section \<open>The two checks of preVerificationGas\<close>

text \<open>C33: the static check of an incoming operation, made before the gas of its validation is known, is
  never stricter than the check repeated after the simulation: if an operation passes the second one
  with at most the assumed verification gas, and the static check gets to its price, the static check
  does not refuse it.\<close>

theorem static_check_no_false_refusal:
  assumes "revalidatePreVerificationGas V op vr = Inr ()"
    and "preVerificationGas op = Some g" and "preOpGas vr = Some pre" and "pre - g \<le> MAX_VERIFICATION_GAS_USED"
    and "calculate (ve_hex V) (ve_pvg V) op \<lparr>verificationGasUsed = Some MAX_VERIFICATION_GAS_USED, totalGasUsed = None\<rparr> = Inr m"
    and "entryPointInput = Some (ve_entryPoint V)"
    and "forE (required_fields sg gp) (check_field V raw) = Inr ()"
    and "requireAddressAndFields raw ''paymaster'' [''paymasterPostOpGasLimit'', ''paymasterVerificationGasLimit''] [''paymasterData''] = Inr ()"
    and "requireAddressAndFields raw ''factory'' [''factoryData''] [] = Inr ()"
  shows "validateInputParameters V (Some raw) op entryPointInput sg gp = Inr ()"
proof -
  let ?opts = "\<lambda>used. \<lparr>verificationGasUsed = Some used, totalGasUsed = None\<rparr>"
  obtain m' where m': "validatePreVerificationGas (ve_hex V) (ve_pvg V) op (?opts (pre - g)) = Inr (True, m')"
    using assms(1-3) by (auto simp: revalidatePreVerificationGas_def bindE_Inr_iff toNumber_Inr_iff)
  then have calc: "calculate (ve_hex V) (ve_pvg V) op (?opts (pre - g)) = Inr m'" and "m' \<le> of_int g"
    using assms(2) by (auto simp: validatePreVerificationGas_def bindE_Inr_iff)
  moreover from calc assms(5,4) have "m \<le> m'" by (rule calculate_antimono)
  ultimately have "validatePreVerificationGas (ve_hex V) (ve_pvg V) op (?opts MAX_VERIFICATION_GAS_USED) = Inr (True, m)"
    using assms(2,5) by (simp add: validatePreVerificationGas_def)
  then show ?thesis
    using assms(2,6-9) by (simp add: validateInputParameters_def requireCond_simps)
qed

section \<open>What goes wrong\<close>

text \<open>
  The gas of a simulation is a \<^verbatim>\<open>BigNumber\<close> sum that starts from the price of the gas
  calculator. Under EIP-7623 that price is a whole number; without it the word price of 9.5 gas
  can leave a fraction, and \<^verbatim>\<open>BigNumber.from\<close> throws before anything is simulated.
\<close>

lemma bn_of_number_of_int [simp]: "bn_of_number (of_int n) = Inr n"
  by (simp add: bn_of_number_def)

lemma simulation_gas_whole:
  assumes "useEip7623 (ve_pvg V)"
    and "calculate (ve_hex V) (ve_pvg V) op \<lparr>verificationGasUsed = None, totalGasUsed = None\<rparr> = Inr p"
  shows "\<exists>n. p = of_int n \<and> simulation_gas V op =
    Inr (n + verificationGasLimit op + or_else (paymasterVerificationGasLimit op) 0)"
proof -
  obtain n where "p = of_int n"
    using assms unfolding calculate_eip7623 [OF assms(1)] by (auto simp: bindE_Inr_iff)
  then show ?thesis using assms(2) by (simp add: simulation_gas_def sum_opt_def)
qed

lemma fractional_price_never_simulated:
  assumes "calculate (ve_hex V) (ve_pvg V) op \<lparr>verificationGasUsed = None, totalGasUsed = None\<rparr> = Inr p"
    and "of_int \<lfloor>p\<rfloor> \<noteq> p"
  shows "simulation_gas V op = Inl (JsError ''underflow'' None)"
  using assms by (simp add: simulation_gas_def bn_of_number_def)

text \<open>
  The message of an error in decoding a native trace is lost: the fallback text is a variable that
  only the path of the JavaScript tracer assigns.
\<close>

lemma native_trace_error_without_text:
  assumes "err = JsError msg None" and "decodeErrorReason (ve_hex V) (ve_errorText V err) = Inr None"
  shows "rethrow_unparsed V [] (Inl err :: 'a res) = Inl (RpcError [] (- 32000) [])"
  using assms by (simp add: rethrow_unparsed_def rethrow_trace_error_def has_code_def)

text \<open>
  With the JavaScript tracer \<^verbatim>\<open>generateValidationResult\<close> is handed the tracer's list of events,
  cast to a call tree. No event can be decoded, so the simulation throws for every operation.
\<close>

lemma generate_js_fails: "generateValidationResult_js V op tr \<noteq> Inr vr"
  by (auto simp: generateValidationResult_js_def result_from_def decode_event_def Let_def bindE_Inr_iff
      split: option.splits trace_event.splits)

text \<open>a validation manager that traces with the JavaScript tracer accepts no operation at all,
  whatever the node, the tracer and the operation: every call of \<^verbatim>\<open>validateUserOp\<close> throws, although
  the operation may have obeyed every rule.\<close>

theorem js_tracer_accepts_nothing:
  assumes "\<not> ve_unsafe V" and "\<not> usingErc7562NativeTracer V"
  shows "\<exists>e. fst (validateUserOp V op previous cs s) = Inl e"
proof (cases "validateUserOp V op previous cs s")
  case (Pair r t)
  have "simulate V op previous s \<noteq> (Inr x, t)" for x
    using assms generate_js_fails
    by (auto simp: simulate_def bindM_Inr_iff liftE_Inr_iff geth_traceCall_js_def bindE_Inr_iff
        rethrow_unparsed_Inr_iff split: prod.splits)
  then have "validateUserOp V op previous cs s \<noteq> (Inr x, t)" for x
    unfolding validateUserOp_Inr_iff by blast
  with Pair show ?thesis by (cases r) auto
qed

section \<open>An example\<close>

definition call_frame :: "string \<Rightarrow> string \<Rightarrow> string \<Rightarrow> string \<Rightarrow> accessed_slots \<Rightarrow> erc7562_call list \<Rightarrow> erc7562_call" where
  "call_frame src dst input output slots cs =
     ERC7562Call slots [] None [] src ''0x0'' ''0x0'' (Some input) False (Some output) dst ''CALL'' [] None (Some cs) (Some [])"

definition accepted_trace :: erc7562_call where
  "accepted_trace = call_frame AddressZero ''0xe'' ''0x'' ''0xdeadbeef'' no_slots
     [call_frame ''0xe'' ''0xa'' ''0x00000001'' (hex_of 1 0) (writes_slot ''0x1'') [],
      call_frame ''0xe'' ''0xe'' ''0x00000003'' ''0x'' no_slots []]"

definition traced_env :: vm_env where
  "traced_env = \<lparr>ve_lib = base_lib, ve_hex = gas_lib,
     ve_revert = \<lparr>rv_decodeString = (\<lambda>d. None), rv_decodeUint = (\<lambda>d. None),
       rv_parseError = (\<lambda>d. Some (''FailedOp'', [OtherArg ''0'', StringArg ''AA95 out of gas'']))\<rparr>,
     ve_entryPoint = ''0xe'', ve_unsafe = False, ve_pvg = MainnetConfig, ve_native = True,
     ve_getDepositInfo = (\<lambda>a. Inr (0, 0)), ve_codeHash = (\<lambda>as. Inr (concat as)), ve_chainId = Inr 1,
     ve_now = 1000, ve_ethCall = (\<lambda>p g. Inr ()), ve_errorData = (\<lambda>e. ''0x''), ve_errorText = err_message,
     ve_traceCall = (\<lambda>p g. Inr accepted_trace), ve_traceCallJS = (\<lambda>p g. Inr \<lparr>tr_callsFromEntryPoint = [], tr_keccak = [], tr_calls = [ExitInfo ''RETURN'' 0 ''0x''], tr_logs = []\<rparr>),
     ve_noAddress = JsError ''invalid contract address or ENS name'' (Some 0), ve_jsonAccess = (\<lambda>ob. ''{}''),
     ve_sighash = (\<lambda>m. if m = ''validateUserOp'' then ''0x00000001'' else if m = ''innerHandleOp'' then ''0x00000003'' else ''0x00000002''),
     ve_decodePaymasterResult = (\<lambda>d. Inr ([], 0)), ve_decodeOpInfo = (\<lambda>d. Inr (40010, 0)),
     ve_json = (\<lambda>ob. ''{}''), ve_showNumber = (\<lambda>x. [])\<rparr>"

definition accepted_result :: validate_user_op_result where
  "accepted_result = result_with \<lparr>preOpGas = Some 40010, prefund = Some 0, sigFailed = False,
        validAfter = 0, validUntil = 281474976710655,
        senderInfo = \<lparr>addr = ''0xa'', stake = 0, unstakeDelaySec = 0, pm_context = None\<rparr>,
        factoryInfo = None, paymasterInfo = None, aggregatorInfo = None\<rparr>
      \<lparr>ch_addresses = [''0xe'', ''0xa''], ch_hash = ''0xe0xa''\<rparr> [(''0xa'', Slots [(''0x1'', [])])]"

lemma example_accepted:
  "fst (validateUserOp traced_env gas_op None True parser_example) = Inr accepted_result"
  "referencedContracts accepted_result = \<lparr>ch_addresses = [''0xe'', ''0xa''], ch_hash = ''0xe0xa''\<rparr>"
  by code_simp+

lemma example_accepted_again:
  "fst (validateUserOp traced_env gas_op (Some (referencedContracts accepted_result)) False parser_example) =
     Inr (accepted_result\<lparr>referencedContracts := no_code_hashes\<rparr>)"
  by code_simp

lemma traced_env_safe: "safe_native traced_env"
  by (simp add: safe_native_def traced_env_def)

lemma traced_env_trace [simp]: "traces_to traced_env op trace \<Longrightarrow> trace = accepted_trace"
  by (auto simp: traces_to_def traced_env_def)

lemma accepted_trace_compliant_witness:
  "\<exists>vr fs. compliant gas_op accepted_trace vr parser_example fs \<and>
     res_storageMap (results_of fs) = [(''0xa'', Slots [(''0x1'', [])])]"
proof -
  obtain trace vr fs where "traces_to traced_env gas_op trace" "compliant gas_op trace vr parser_example fs"
    "vr_storageMap accepted_result = res_storageMap (results_of fs)"
    using accepted_trace_compliant [OF example_accepted(1) traced_env_safe] by blast
  moreover have "vr_storageMap accepted_result = [(''0xa'', Slots [(''0x1'', [])])]"
    by (simp add: accepted_result_def)
  ultimately show ?thesis using traced_env_trace by metis
qed

lemma js_tracer_accepts_nothing_witness:
  "\<exists>e. fst (validateUserOp (traced_env\<lparr>ve_native := False\<rparr>) gas_op None True parser_example) = Inl e"
  by (rule js_tracer_accepts_nothing) (simp_all add: traced_env_def usingErc7562NativeTracer_def)

lemma accepted_windows_open_witness:
  "\<exists>d. decodeValidateUserOp traced_env (vc_validation (getValidationCalls gas_op (inner_calls accepted_trace))) = Inr d \<and>
     window_open 1000 d"
proof -
  have "ve_now traced_env = 1000" by (simp add: traced_env_def)
  then show ?thesis
    using accepted_windows_open [OF example_accepted(1) traced_env_safe] traced_env_trace by metis
qed

lemma code_unchanged_between_validations_witness:
  "\<exists>vr fs. compliant gas_op accepted_trace vr parser_example fs \<and>
     (let called = map (\<lambda>(e, f). call_to f) fs in
        called \<noteq> [] \<longrightarrow> ve_codeHash traced_env called = Inr (concat called))"
proof -
  have hash: "ve_codeHash traced_env as = Inr (concat as)" for as by (simp add: traced_env_def)
  show ?thesis
    using code_unchanged_between_validations [OF example_accepted(1) traced_env_safe example_accepted_again]
    unfolding Let_def hash by (auto dest: traced_env_trace)
qed

definition raw_example :: "string obj" where
  "raw_example = [(''sender'', ''0xa''), (''nonce'', ''0x3''), (''callData'', ''0x'')]"

lemma static_check_no_false_refusal_witness:
  "validateInputParameters traced_env (Some raw_example) gas_op (Some ''0xe'') False False = Inr ()"
proof -
  have "revalidatePreVerificationGas traced_env gas_op (vr_example\<lparr>preOpGas := Some 40010\<rparr>) = Inr ()"
    and "preVerificationGas gas_op = Some 40000" and "preOpGas (vr_example\<lparr>preOpGas := Some 40010\<rparr>) = Some 40010"
    and "40010 - 40000 \<le> MAX_VERIFICATION_GAS_USED"
    and "calculate (ve_hex traced_env) (ve_pvg traced_env) gas_op
           \<lparr>verificationGasUsed = Some MAX_VERIFICATION_GAS_USED, totalGasUsed = None\<rparr> = Inr 38130"
    and "Some ''0xe'' = Some (ve_entryPoint traced_env)"
    and "forE (required_fields False False) (check_field traced_env raw_example) = Inr ()"
    and "requireAddressAndFields raw_example ''paymaster'' [''paymasterPostOpGasLimit'', ''paymasterVerificationGasLimit''] [''paymasterData''] = Inr ()"
    and "requireAddressAndFields raw_example ''factory'' [''factoryData''] [] = Inr ()"
    by code_simp+
  then show ?thesis by (rule static_check_no_false_refusal)
qed

end
