(* ===== verification/TracedBundles.thy ===== *)
theory TracedBundles
  imports ExecutionManager ValidationSound
begin

text \<open>
  The bundle manager with the validation manager behind it: \<open>revalidate\<close> of the bundle
  manager's environment is \<^verbatim>\<open>validateUserOp\<close> on a traced node. The validation manager keeps
  one parser for all operations; \<open>validateUserOp_history\<close> shows that its outcome does not
  depend on what that parser was used for before, so a fixed parser stands for it.
\<close>

section \<open>Outcomes that do not depend on the parser's past\<close>

text \<open>Two states give the same outcome; a pure action gives the same from every state.\<close>

definition agree :: "'s \<Rightarrow> 's \<Rightarrow> ('s, 'a) act \<Rightarrow> bool" where
  "agree s s' m \<longleftrightarrow> fst (m s) = fst (m s')"

definition pure_act :: "('s, 'a) act \<Rightarrow> bool" where
  "pure_act m \<longleftrightarrow> (\<forall>s s'. agree s s' m)"

lemma agree_bindM: "agree s s' m \<Longrightarrow> (\<And>a. pure_act (f a)) \<Longrightarrow> agree s s' (bindM m f)"
  by (cases "m s"; cases "m s'") (auto simp: agree_def pure_act_def bindM_def split: sum.split)

lemma agree_liftE: "(\<And>a. agree s s' (f a)) \<Longrightarrow> agree s s' (bindM (liftE r) f)"
  by (cases r) (auto simp: agree_def monad_simps)

lemma agree_pure: "pure_act m \<Longrightarrow> agree s s' m"
  by (simp add: pure_act_def)

lemma pure_act_intros:
  "pure_act (retM a)" "pure_act (liftE r)"
  "pure_act m \<Longrightarrow> (\<And>a. pure_act (f a)) \<Longrightarrow> pure_act (bindM m f)"
  by (simp_all add: pure_act_def agree_bindM, simp_all add: pure_act_def agree_def monad_simps)

lemma pure_act_prod: "(\<And>x y. pure_act (f x y)) \<Longrightarrow> pure_act (case p of (x, y) \<Rightarrow> f x y)"
  by (cases p) simp

lemma agree_prod: "(\<And>x y. agree s s' (f x y)) \<Longrightarrow> agree s s' (case p of (x, y) \<Rightarrow> f x y)"
  by (cases p) simp

lemma validateUserOp_history:
  assumes "parser_setup s = parser_setup s'" and "safe_native V"
  shows "fst (validateUserOp V op previous cs s) = fst (validateUserOp V op previous cs s')"
proof -
  have "agree s s' (requireCompliance op c vr)" for c vr
    unfolding agree_def fst_requireCompliance by (rule parse_strict_determined) (simp_all add: assms(1))
  then have "agree s s' (simulate V op previous)"
    using assms(2)
    by (auto simp: simulate_def safe_native_def usingErc7562NativeTracer_def
        intro!: agree_bindM agree_liftE agree_prod pure_act_intros pure_act_prod)
  then show ?thesis
    unfolding validateUserOp_def agree_def [symmetric]
    by (intro agree_bindM agree_liftE agree_prod pure_act_intros pure_act_prod)
qed

section \<open>Bundles of traced operations\<close>

definition validated_by :: "vm_env \<Rightarrow> parser \<Rightarrow> chain_env \<Rightarrow> bool" where
  "validated_by V p C \<longleftrightarrow> (\<forall>op h b. revalidate C op h b = fst (validateUserOp V op (Some h) b p))"

definition unsigned_prefunds :: "vm_env \<Rightarrow> bool" where
  "unsigned_prefunds V \<longleftrightarrow> (\<forall>d pre pf. ve_decodeOpInfo V d = Inr (pre, pf) \<longrightarrow> 0 \<le> pf)"

lemma generated_prefund:
  assumes "generateValidationResult V op trace = Inr vr" and "unsigned_prefunds V" and "prefund vr = Some pf"
  shows "0 \<le> pf"
  using assms unfolding generateValidationResult_def result_from_def Let_def bindE_Inr_iff
  by (auto simp: unsigned_prefunds_def decodeInnerHandleOp_def bindE_Inr_iff split: option.splits)

lemma prefund_result_with [simp]: "prefund (result_with vr h sm) = prefund vr"
  by (cases vr) (simp add: result_with_def validation_result.defs validate_user_op_result.defs)

lemma nonneg_prefunds_validated:
  assumes "validated_by V p C" and "safe_native V" and "unsigned_prefunds V"
  shows "nonneg_prefunds C"
  unfolding nonneg_prefunds_def
proof (intro allI impI)
  fix e vr pf assume vr: "vr_of C e = Inr vr" "prefund vr = Some pf"
  show "0 \<le> pf"
  proof (cases "skipValidation e")
    case True
    then show ?thesis using vr by (auto simp: vr_of_def EmptyValidateUserOpResult_def)
  next
    case False
    then have "fst (validateUserOp V (userOp e) (Some (me_referencedContracts e)) False p) = Inr vr"
      using vr(1) assms(1) by (simp add: vr_of_def validated_by_def)
    then obtain vr' trace where "geth_traceCall_SimulateValidation V (userOp e) = Inr (vr', trace)"
      and "prefund vr' = Some pf"
      using assms(2) vr(2) by (auto elim!: validated_traced)
    then show ?thesis using generated_prefund traced_parts(1) assms(3) by blast
  qed
qed

lemma bundled_entry:
  assumes "createBundle C cfg lims s = (Inr (b, auths, sm), t)" and "nonneg_prefunds C" and "op \<in> set b"
  obtains e vr where "e \<in> set (mempool s)" "userOp e = op" "vr_of C e = Inr vr"
    "storage_isolated (getKnownSenders s) e vr"
proof -
  obtain ch acc es where c: "getSortedForInclusion s = Inr es" "subseq (map fst ch) es"
      "chosen_ok C cfg lims (lib s) (getKnownSenders s) (blackList s) (whitelist s) ch acc" "b = bundle_ops acc"
    by (rule createBundle_chosen [OF assms(1,2)])
  obtain e vr where e: "(e, vr) \<in> set ch" "userOp e = op"
    using assms(3) c(4) chosen_parts(1) [OF c(3)] by auto
  have "e \<in> set es" using subseq_set [OF c(2)] e(1) by force
  then have "e \<in> set (mempool s)" using c(1) by (auto simp: getSortedForInclusion_def split: if_splits)
  with e chosen_parts(4) [OF c(3)] that show thesis by (auto simp: entry_checked_def)
qed

lemma touched_keys:
  assumes "(e, f) \<in> set fs" and "\<not> system_frame f e" and "slot \<in> set (all_slots f)"
  shows "call_to f \<in> set (obj_keys (res_storageMap (results_of fs)))"
proof -
  have "slot_recorded (touched fs []) (call_to f) slot" using assms by (auto simp: touched_recorded)
  then show ?thesis
    by (force simp: slot_recorded_def results_of_def image_image case_prod_beta dest: map_of_SomeD)
qed

text \<open>C1: end to end, from the bundle back to the trace: when the bundle manager re-validates on a
  traced node, every operation of a bundle it creates from fully validated pool entries has a trace
  that obeys the ERC-7562 rules under the stakes of the validation result decoded from that very
  trace, and no frame of the trace that is called at the address of another sender of the pool reads
  or writes a slot, permanently or transiently, the entry point and the nonce manager excepted. (A
  \<^verbatim>\<open>DELEGATECALL\<close> frame is called at the address of its code; the storage it uses is that of its
  caller, which the code does not look at.)\<close>

theorem bundled_traces_isolated:
  assumes "createBundle C cfg lims s = (Inr (b, auths, sm), t)" and "op \<in> set b"
    and "validated_by V p C" and "safe_native V" and "unsigned_prefunds V"
    and "\<forall>e \<in> set (mempool s). \<not> skipValidation e"
  shows "\<exists>trace vr fs. traces_to V op trace \<and> generateValidationResult V op trace = Inr vr \<and>
    compliant op trace vr p fs \<and>
    (\<forall>(e, f) \<in> set fs. \<forall>slot. \<not> system_frame f e \<and> (reads_from f slot \<or> writes_to f slot) \<and>
        toLowerCase (call_to f) \<in> set (getKnownSenders s) \<longrightarrow>
        toLowerCase (call_to f) = toLowerCase (sender op))"
proof -
  obtain en vr where en: "en \<in> set (mempool s)" "userOp en = op" "vr_of C en = Inr vr"
    "storage_isolated (getKnownSenders s) en vr"
    by (rule bundled_entry [OF assms(1) nonneg_prefunds_validated [OF assms(3-5)] assms(2)])
  then have "fst (validateUserOp V op (Some (me_referencedContracts en)) False p) = Inr vr"
    using assms(3,6) by (simp add: vr_of_def validated_by_def)
  then obtain vr' trace res h where tr: "geth_traceCall_SimulateValidation V op = Inr (vr', trace)"
    "fst (requireCompliance op trace vr' p) = Inr res" "vr = result_with vr' h (res_storageMap res)"
    using assms(4) by (auto elim!: validated_traced)
  obtain fs where fs: "compliant op trace vr' p fs" "res = results_of fs"
    using tr(2) unfolding requireCompliance_Inr_iff by blast
  have "toLowerCase (call_to f) = toLowerCase (sender op)"
    if "(e, f) \<in> set fs" "\<not> system_frame f e" "reads_from f slot \<or> writes_to f slot"
      "toLowerCase (call_to f) \<in> set (getKnownSenders s)" for e f slot
    using touched_keys [OF that(1,2), of slot] that(3,4) en(2,4) tr(3) fs(2) by (auto simp: storage_isolated_def all_slots_iff)
  then show ?thesis
    using fs(1) traced_parts [OF tr(1)] unfolding traces_to_def by blast
qed

section \<open>An example\<close>

definition traced_chain :: chain_env where
  "traced_chain = env_example\<lparr>revalidate := (\<lambda>op h b. fst (validateUserOp traced_env op (Some h) b parser_example))\<rparr>"

definition traced_pool :: pool_state where
  "traced_pool = pool_example\<lparr>mempool := [new_MempoolEntry gas_op ''h0'' 40
     \<lparr>ch_addresses = [''0xe'', ''0xa''], ch_hash = ''0xe0xa''\<rparr> False None]\<rparr>"

text \<open>A bundle depends on the validation manager only through its answers for the pool.\<close>

lemma revalidate_update_parts [simp]:
  "reserve_deposit (C\<lparr>revalidate := f\<rparr>) = reserve_deposit C"
  "merge_storage (C\<lparr>revalidate := f\<rparr>) = merge_storage C"
  "parseFailedOpRevert (C\<lparr>revalidate := f\<rparr>) = parseFailedOpRevert C"
  "findEntityToBlame (C\<lparr>revalidate := f\<rparr>) = findEntityToBlame C"
  "checkFatal (C\<lparr>revalidate := f\<rparr>) = checkFatal C"
  by (simp_all add: fun_eq_iff reserve_deposit_def merge_storage_def parseFailedOpRevert_def findEntityToBlame_def
      isAccountStaked_def isFactoryStaked_def checkFatal_def cong: if_cong option.case_cong)

lemma revalidate_update [simp]:
  "bundle_add (C\<lparr>revalidate := f\<rparr>) = bundle_add C"
  "handleSecondValidationException (C\<lparr>revalidate := f\<rparr>) = handleSecondValidationException C"
  by (simp_all add: fun_eq_iff bundle_add_def handleSecondValidationException_def cong: if_cong option.case_cong)

lemma bundle_loop_answers:
  assumes "\<forall>e \<in> set es. f (userOp e) (me_referencedContracts e) False = g (userOp e) (me_referencedContracts e) False"
  shows "bundle_loop (C\<lparr>revalidate := f\<rparr>) cfg lims known n es st = bundle_loop (C\<lparr>revalidate := g\<rparr>) cfg lims known n es st"
  using assms
proof (induction es arbitrary: st)
  case (Cons e es)
  have "bundle_step (C\<lparr>revalidate := f\<rparr>) cfg lims known n e st = bundle_step (C\<lparr>revalidate := g\<rparr>) cfg lims known n e st"
    using Cons.prems by (cases st) (simp add: bundle_step_def Let_def cong: if_cong option.case_cong sum.case_cong)
  with Cons show ?case by (simp split: sum.split loop_ctl.split prod.split)
qed simp

lemma createBundle_answers:
  assumes "\<forall>e \<in> set (mempool s). f (userOp e) (me_referencedContracts e) False = g (userOp e) (me_referencedContracts e) False"
  shows "createBundle (C\<lparr>revalidate := f\<rparr>) cfg lims s = createBundle (C\<lparr>revalidate := g\<rparr>) cfg lims s"
proof (cases "getSortedForInclusion s")
  case (Inr es)
  then have "set es = set (mempool s)" by (auto simp: getSortedForInclusion_def split: if_splits)
  with assms have "bundle_loop (C\<lparr>revalidate := f\<rparr>) cfg lims known n es (s, acc) =
      bundle_loop (C\<lparr>revalidate := g\<rparr>) cfg lims known n es (s, acc)" for known n acc
    by (intro bundle_loop_answers) simp
  with Inr show ?thesis by (simp add: createBundle_def)
qed (simp add: createBundle_def)

lemma constant_bundle_created:
  "fst (createBundle (env_example\<lparr>revalidate := (\<lambda>op h b. Inr (accepted_result\<lparr>referencedContracts := no_code_hashes\<rparr>))\<rparr>)
     (cfg_example\<lparr>maxBundleGas := 100000\<rparr>) lim_example traced_pool) =
   Inr ([gas_op], [], [(''0xa'', Slots [(''0x1'', [])])])"
  by code_simp

lemma traced_bundle_created:
  "fst (createBundle traced_chain (cfg_example\<lparr>maxBundleGas := 100000\<rparr>) lim_example traced_pool) =
     Inr ([gas_op], [], [(''0xa'', Slots [(''0x1'', [])])])"
proof -
  have "fst (validateUserOp traced_env (userOp e) (Some (me_referencedContracts e)) False parser_example) =
      Inr (accepted_result\<lparr>referencedContracts := no_code_hashes\<rparr>)" if "e \<in> set (mempool traced_pool)" for e
    using that example_accepted_again example_accepted(2) by (simp add: traced_pool_def new_MempoolEntry_def)
  then show ?thesis
    using constant_bundle_created unfolding traced_chain_def by (subst createBundle_answers) auto
qed

lemma bundled_traces_isolated_witness:
  "\<exists>vr fs. generateValidationResult traced_env gas_op accepted_trace = Inr vr \<and>
    compliant gas_op accepted_trace vr parser_example fs \<and>
    (\<forall>(e, f) \<in> set fs. \<forall>slot. \<not> system_frame f e \<and> (reads_from f slot \<or> writes_to f slot) \<and>
        toLowerCase (call_to f) \<in> set (getKnownSenders traced_pool) \<longrightarrow>
        toLowerCase (call_to f) = ''0xa'')"
proof -
  obtain t where t: "createBundle traced_chain (cfg_example\<lparr>maxBundleGas := 100000\<rparr>) lim_example traced_pool =
      (Inr ([gas_op], [], [(''0xa'', Slots [(''0x1'', [])])]), t)"
    using traced_bundle_created by (metis prod.collapse)
  have v: "validated_by traced_env parser_example traced_chain"
    by (simp add: validated_by_def traced_chain_def)
  have u: "unsigned_prefunds traced_env" by (simp add: unsigned_prefunds_def traced_env_def)
  have m: "\<forall>e \<in> set (mempool traced_pool). \<not> skipValidation e"
    by (simp add: traced_pool_def new_MempoolEntry_def)
  have lower: "toLowerCase (sender gas_op) = ''0xa''" by code_simp
  have op: "gas_op \<in> set [gas_op]" by simp
  obtain trace vr fs where "traces_to traced_env gas_op trace"
    and fs: "generateValidationResult traced_env gas_op trace = Inr vr" "compliant gas_op trace vr parser_example fs"
    "\<forall>(e, f) \<in> set fs. \<forall>slot. \<not> system_frame f e \<and> (reads_from f slot \<or> writes_to f slot) \<and>
        toLowerCase (call_to f) \<in> set (getKnownSenders traced_pool) \<longrightarrow>
        toLowerCase (call_to f) = toLowerCase (sender gas_op)"
    using bundled_traces_isolated [OF t op v traced_env_safe u m] by (elim exE conjE)
  then have "trace = accepted_trace" by simp
  with fs show ?thesis unfolding lower by blast
qed

end
