(* ===== verification/LegacyTracer.thy ===== *)
theory LegacyTracer
  imports LegacyRules
begin

text \<open>
  \<^verbatim>\<open>packages/validation-manager/src/BundlerCollectorTracer.ts\<close>: the JavaScript tracer that the
  node calls at every step of the EVM and at every entry to and exit from a call. It is a state
  machine on the fields of its object. What the node hands it is the record \<open>log_step\<close>; the
  functions of the node's tracing context (\<^verbatim>\<open>toHex\<close>, \<^verbatim>\<open>toAddress\<close>, \<^verbatim>\<open>toWord\<close>, the state database)
  are the record \<open>trace_lib\<close>. The debugging output is left out.
\<close>

section \<open>What the node provides\<close>

record log_step =
  ls_op :: string
  ls_depth :: nat
  ls_gas :: int
  ls_cost :: int
  ls_stackSize :: nat
  ls_peek :: "nat \<Rightarrow> int"
  ls_memory :: "int \<Rightarrow> int \<Rightarrow> string"
    \<comment> \<open>\<^verbatim>\<open>toHex(log.memory.slice(a, b))\<close>\<close>
  ls_contract :: string
    \<comment> \<open>\<^verbatim>\<open>toHex(log.contract.getAddress())\<close>\<close>

record trace_lib =
  tl_address :: "int \<Rightarrow> string"
    \<comment> \<open>\<^verbatim>\<open>toHex(toAddress(x.toString(16)))\<close>\<close>
  tl_word :: "int \<Rightarrow> string"
    \<comment> \<open>\<^verbatim>\<open>toHex(toWord(x.toString(16)))\<close>\<close>
  tl_hex :: "int \<Rightarrow> string"
    \<comment> \<open>\<^verbatim>\<open>x.toString(16)\<close>\<close>
  tl_codeSize :: "string \<Rightarrow> nat"
    \<comment> \<open>\<^verbatim>\<open>db.getCode(addr).length\<close>\<close>
  tl_state :: "string \<Rightarrow> string \<Rightarrow> string"
    \<comment> \<open>\<^verbatim>\<open>toHex(db.getState(addr, slot))\<close>\<close>

record call_frame =
  cf_type :: string
  cf_from :: string
  cf_to :: string
  cf_input :: string
  cf_gas :: int
  cf_value :: int
    \<comment> \<open>0 when the frame has none\<close>

record frame_result =
  fr_error :: "string option"
  fr_gasUsed :: int
  fr_output :: string

section \<open>State\<close>

record relevant_step =
  rs_opcode :: string
  rs_stackTop3 :: "int list"

text \<open>
  \<^verbatim>\<open>currentLevel\<close> is the object most recently stored in \<^verbatim>\<open>callsFromEntryPoint\<close>, so it is held as
  an index into that list; \<open>None\<close> is its initial \<^verbatim>\<open>null\<close>.
\<close>

record tracer =
  t_calls :: "level_info list"
  t_currentLevel :: "nat option"
  t_keccak :: "string list"
  t_events :: "trace_event list"
  t_logs :: "log_info list"
  t_lastOp :: string
  t_lastThree :: "relevant_step list"
  t_stopCollecting :: bool
  t_counter :: nat

definition bundlerCollectorTracer :: tracer where
  "bundlerCollectorTracer = \<lparr>t_calls = [], t_currentLevel = None, t_keccak = [], t_events = [], t_logs = [],
     t_lastOp = [], t_lastThree = [], t_stopCollecting = False, t_counter = 0\<rparr>"

definition stopCollectingTopic :: string where
  "stopCollectingTopic = ''bb47ee3e183a558b1a2ff0874b079f3fc5478b7454eacf2bfc5af2ff5878f972''"

definition SENDER_CREATOR :: string where
  "SENDER_CREATOR = ''0xefc2c1444ebcc4db75e7613d20c6a62ff67a167c''"

definition result :: "tracer \<Rightarrow> tracer_result" where
  "result t = \<lparr>tr_callsFromEntryPoint = map (\<lambda>l. CallInfo l None None None []) (t_calls t), tr_keccak = t_keccak t,
     tr_calls = t_events t, tr_logs = t_logs t\<rparr>"

section \<open>Entering and leaving calls\<close>

definition enter :: "call_frame \<Rightarrow> tracer \<Rightarrow> tracer" where
  "enter frame t =
     (if t_stopCollecting t then t
      else t\<lparr>t_events := t_events t @ [MethodInfo (cf_type frame) (cf_from frame) (cf_to frame)
             (take 10 (cf_input frame)) (cf_value frame) (cf_gas frame)]\<rparr>)"

definition exit_frame :: "frame_result \<Rightarrow> tracer \<Rightarrow> tracer" where
  "exit_frame frame t =
     (if t_stopCollecting t then t
      else t\<lparr>t_events := t_events t @ [ExitInfo (if fr_error frame \<noteq> None then ''REVERT'' else ''RETURN'')
             (fr_gasUsed frame) (take 4000 (fr_output frame))]\<rparr>)"

section \<open>The current level\<close>

text \<open>A change of the current level; without one, reading a field of \<^verbatim>\<open>null\<close> throws.\<close>

definition null_level :: js_error where
  "null_level = JsError ''Cannot read properties of null'' None"

definition on_level :: "(level_info \<Rightarrow> level_info) \<Rightarrow> (tracer, unit) act" where
  "on_level f = lookM (\<lambda>t. case t_currentLevel t of
     None \<Rightarrow> throwM null_level
   | Some i \<Rightarrow> modifyM (\<lambda>t. t\<lparr>t_calls := (t_calls t)[i := f (t_calls t ! i)]\<rparr>))"

definition level_of :: "tracer \<Rightarrow> level_info option" where
  "level_of t = map_option (\<lambda>i. t_calls t ! i) (t_currentLevel t)"

definition fresh_level :: "string \<Rightarrow> level_info" where
  "fresh_level target = \<lparr>li_target = target, li_opcodes = [], li_access = [], li_contractSize = [], li_extCode = [], li_oog = False\<rparr>"

text \<open>Assigning at an index overwrites or, at the length of the array, appends.\<close>

definition array_set :: "'a list \<Rightarrow> nat \<Rightarrow> 'a \<Rightarrow> 'a list" where
  "array_set xs i x = (if i < length xs then xs[i := x] else xs @ [x])"

definition new_level :: "trace_lib \<Rightarrow> log_step \<Rightarrow> tracer \<Rightarrow> tracer" where
  "new_level T log t = t\<lparr>t_calls := array_set (t_calls t) (t_counter t) (fresh_level (tl_address T (ls_peek log 1))),
     t_currentLevel := Some (t_counter t), t_counter := t_counter t + 1\<rparr>"

definition countSlot :: "int obj \<Rightarrow> string \<Rightarrow> int obj" where
  "countSlot list key = AList.update key (or_else (obj_get list key) 0 + 1) list"

section \<open>Opcodes\<close>

text \<open>\<^verbatim>\<open>/^(EXT.*|CALL|CALLCODE|DELEGATECALL|STATICCALL)$/\<close>\<close>

definition touches_code :: "string \<Rightarrow> bool" where
  "touches_code opcode \<longleftrightarrow> startsWith opcode ''EXT'' \<or>
     opcode \<in> set [''CALL'', ''CALLCODE'', ''DELEGATECALL'', ''STATICCALL'']"

definition numbered :: "string \<Rightarrow> string \<Rightarrow> bool" where
  "numbered prefix opcode \<longleftrightarrow> startsWith opcode prefix \<and> drop (length prefix) opcode \<noteq> [] \<and>
     list_all (\<lambda>c. digit_value c < 10) (drop (length prefix) opcode)"

definition unimportant :: "string \<Rightarrow> bool" where
  "unimportant opcode \<longleftrightarrow> numbered ''DUP'' opcode \<or> numbered ''PUSH'' opcode \<or> numbered ''SWAP'' opcode \<or>
     opcode \<in> set [''POP'', ''ADD'', ''SUB'', ''MUL'', ''DIV'', ''EQ'', ''LT'', ''LTE'', ''GT'', ''GTE'', ''SGT'', ''SGTE'',
       ''SLT'', ''SHL'', ''SHR'', ''AND'', ''OR'', ''NOT'', ''ISZERO'']"

fun includesString :: "string \<Rightarrow> string \<Rightarrow> bool" where
  "includesString [] p \<longleftrightarrow> p = []"
| "includesString (c # s) p \<longleftrightarrow> startsWith (c # s) p \<or> includesString s p"

definition word_string :: "string \<Rightarrow> bool" where
  "word_string s \<longleftrightarrow> s \<noteq> [] \<and> list_all (\<lambda>c. digit_value c < 36 \<or> c = CHR ''_'') s"

text \<open>\<^verbatim>\<open>/^(\w+) EXTCODESIZE ISZERO$/\<close> on the names of the last three opcodes, joined by spaces\<close>

definition safe_size_check :: "relevant_step list \<Rightarrow> bool" where
  "safe_size_check lastThree =
     (case map rs_opcode lastThree of
        [a, b, c] \<Rightarrow> word_string a \<and> b = ''EXTCODESIZE'' \<and> c = ''ISZERO''
      | _ \<Rightarrow> False)"

definition isAllowedPrecompiled :: "string \<Rightarrow> bool" where
  "isAllowedPrecompiled addrHex = (case parseInt None addrHex of None \<Rightarrow> False | Some n \<Rightarrow> n > 0 \<and> n < 10)"

section \<open>One step\<close>

definition remember_step :: "log_step \<Rightarrow> tracer \<Rightarrow> tracer" where
  "remember_step log t =
     (let steps = t_lastThree t @ [\<lparr>rs_opcode = ls_op log, rs_stackTop3 = map (ls_peek log) [0..<min 3 (ls_stackSize log)]\<rparr>]
      in t\<lparr>t_lastThree := if length steps > 3 then tl steps else steps\<rparr>)"

definition out_of_gas :: "log_step \<Rightarrow> bool" where
  "out_of_gas log \<longleftrightarrow> ls_gas log < ls_cost log \<or> (ls_op log = ''SSTORE'' \<and> ls_gas log < 2300)"

text \<open>Leaving a frame: the exit from the outermost one is reconstructed, and the history is flushed.\<close>

definition leave_step :: "log_step \<Rightarrow> tracer \<Rightarrow> tracer" where
  "leave_step log t =
     (if ls_op log = ''REVERT'' \<or> ls_op log = ''RETURN'' then
        (let t1 = (if ls_depth log = 1
                   then t\<lparr>t_events := t_events t @ [ExitInfo (ls_op log) 0
                          (take 4000 (ls_memory log (ls_peek log 0) (ls_peek log 0 + ls_peek log 1)))]\<rparr>
                   else t)
         in t1\<lparr>t_lastThree := []\<rparr>)
      else t)"

definition is_call :: "log_step \<Rightarrow> bool" where
  "is_call log \<longleftrightarrow> ls_op log = ''CALL'' \<or> ls_op log = ''STATICCALL''"

definition creator_step :: "trace_lib \<Rightarrow> log_step \<Rightarrow> tracer \<Rightarrow> tracer" where
  "creator_step T log t =
     (case level_of t of
        None \<Rightarrow> t
      | Some l \<Rightarrow> if toLowerCase (li_target l) = SENDER_CREATOR \<and> ls_depth log = 2 \<and> is_call log
                 then new_level T log t else t)"

definition top_step :: "trace_lib \<Rightarrow> log_step \<Rightarrow> tracer \<Rightarrow> tracer" where
  "top_step T log t =
     (let t1 = (if is_call log then new_level T log t
                else if ls_op log = ''LOG1'' \<and> tl_hex T (ls_peek log 2) = stopCollectingTopic
                then t\<lparr>t_stopCollecting := True\<rparr> else t)
      in t1\<lparr>t_lastOp := []\<rparr>)"

text \<open>The opcode after an access to code: \<^verbatim>\<open>lastOpInfo\<close> is \<^verbatim>\<open>lastThreeOpcodes[length - 2]\<close>.\<close>

definition ext_step :: "trace_lib \<Rightarrow> log_step \<Rightarrow> (tracer, unit) act" where
  "ext_step T log = lookM (\<lambda>t.
     let n = length (t_lastThree t); lastOpInfo = t_lastThree t ! (n - 2) in
     if n < 2 \<or> \<not> startsWith (rs_opcode lastOpInfo) ''EXT'' then retM ()
     else (case rs_stackTop3 lastOpInfo of
         [] \<Rightarrow> throwM (JsError ''Cannot read properties of undefined'' None)
       | x # xs \<Rightarrow>
           if safe_size_check (t_lastThree t) then retM ()
           else on_level (\<lambda>l. l\<lparr>li_extCode := AList.update (tl_address T x) (ls_op log) (li_extCode l)\<rparr>)))"

definition code_step :: "trace_lib \<Rightarrow> log_step \<Rightarrow> (tracer, unit) act" where
  "code_step T log =
     (if touches_code (ls_op log) then
        (let addrHex = tl_address T (ls_peek log (if startsWith (ls_op log) ''EXT'' then 0 else 1)) in
         on_level (\<lambda>l. if obj_get (li_contractSize l) addrHex = None \<and> \<not> isAllowedPrecompiled addrHex
           then l\<lparr>li_contractSize := AList.update addrHex
                 \<lparr>si_opcode = ls_op log, si_contractSize = tl_codeSize T addrHex\<rparr> (li_contractSize l)\<rparr>
           else l))
      else retM ())"

definition count_opcode :: "string \<Rightarrow> level_info \<Rightarrow> level_info" where
  "count_opcode opcode l = l\<lparr>li_opcodes := countSlot (li_opcodes l) opcode\<rparr>"

definition count_step :: "log_step \<Rightarrow> (tracer, unit) act" where
  "count_step log = lookM (\<lambda>t. seqM [
     if t_lastOp t = ''GAS'' \<and> \<not> includesString (ls_op log) ''CALL'' then on_level (count_opcode ''GAS'') else retM (),
     if ls_op log \<noteq> ''GAS'' \<and> \<not> unimportant (ls_op log) then on_level (count_opcode (ls_op log)) else retM (),
     modifyM (\<lambda>t. t\<lparr>t_lastOp := ls_op log\<rparr>)])"

definition no_access :: access_info where
  "no_access = \<lparr>ai_reads = [], ai_writes = [], ai_transientReads = [], ai_transientWrites = []\<rparr>"

definition touch_access :: "trace_lib \<Rightarrow> log_step \<Rightarrow> access_info \<Rightarrow> access_info" where
  "touch_access T log acc =
     (let slotHex = tl_word T (ls_peek log 0) in
      if ls_op log = ''SLOAD'' then
        (if obj_get (ai_reads acc) slotHex = None \<and> obj_get (ai_writes acc) slotHex = None
         then acc\<lparr>ai_reads := AList.update slotHex (tl_state T (ls_contract log) slotHex) (ai_reads acc)\<rparr> else acc)
      else if ls_op log = ''SSTORE'' then acc\<lparr>ai_writes := countSlot (ai_writes acc) slotHex\<rparr>
      else if ls_op log = ''TLOAD'' then acc\<lparr>ai_transientReads := countSlot (ai_transientReads acc) slotHex\<rparr>
      else acc\<lparr>ai_transientWrites := countSlot (ai_transientWrites acc) slotHex\<rparr>)"

definition storage_opcodes :: "string list" where
  "storage_opcodes = [''SLOAD'', ''SSTORE'', ''TLOAD'', ''TSTORE'']"

definition storage_step :: "trace_lib \<Rightarrow> log_step \<Rightarrow> (tracer, unit) act" where
  "storage_step T log =
     (if ls_op log \<in> set storage_opcodes then
        on_level (\<lambda>l. l\<lparr>li_access := AList.update (ls_contract log)
          (touch_access T log (or_else (obj_get (li_access l) (ls_contract log)) no_access)) (li_access l)\<rparr>)
      else retM ())"

text \<open>Hash inputs and logs are kept for the whole trace; a log without a number has no topics.\<close>

definition data_step :: "trace_lib \<Rightarrow> log_step \<Rightarrow> tracer \<Rightarrow> tracer" where
  "data_step T log t =
     (let ofs = ls_peek log 0; len = ls_peek log 1; block = ls_memory log ofs (ofs + len) in
      if ls_op log = ''KECCAK256'' then
        (if len > 20 \<and> len < 512 then t\<lparr>t_keccak := t_keccak t @ [block]\<rparr> else t)
      else if startsWith (ls_op log) ''LOG'' then
        (let count = nat (or_else (parseInt None (drop 3 (ls_op log))) 0) in
         t\<lparr>t_logs := t_logs t @ [\<lparr>li_topics = map (\<lambda>i. ''0x'' @ tl_hex T (ls_peek log (2 + i))) [0..<count],
           li_data = block\<rparr>]\<rparr>)
      else t)"

definition step :: "trace_lib \<Rightarrow> log_step \<Rightarrow> (tracer, unit) act" where
  "step T log = lookM (\<lambda>t.
     if t_stopCollecting t then retM ()
     else seqM [
       modifyM (remember_step log),
       if out_of_gas log then on_level (\<lambda>l. l\<lparr>li_oog := True\<rparr>) else retM (),
       modifyM (leave_step log),
       modifyM (creator_step T log),
       if ls_depth log = 1 then modifyM (top_step T log)
       else seqM [ext_step T log, code_step T log, count_step log, storage_step T log, modifyM (data_step T log)]])"

section \<open>A traced call\<close>

datatype trace_input = Enter call_frame | Exit frame_result | Step log_step

fun feed :: "trace_lib \<Rightarrow> trace_input \<Rightarrow> (tracer, unit) act" where
  "feed T (Enter frame) = modifyM (enter frame)"
| "feed T (Exit frame) = modifyM (exit_frame frame)"
| "feed T (Step log) = step T log"

definition run :: "trace_lib \<Rightarrow> trace_input list \<Rightarrow> (tracer, unit) act" where
  "run T inputs = forM inputs (feed T)"

section \<open>Invariant\<close>

text \<open>
  \<^verbatim>\<open>currentLevel\<close> is always the last level, so a new level never overwrites an old one, and the
  history holds at most three opcodes.
\<close>

definition tracer_wf :: "tracer \<Rightarrow> bool" where
  "tracer_wf t \<longleftrightarrow> t_counter t = length (t_calls t) \<and> length (t_lastThree t) \<le> 3 \<and>
     t_currentLevel t = (if t_calls t = [] then None else Some (length (t_calls t) - 1))"

lemma tracer_wf_init: "tracer_wf bundlerCollectorTracer"
  by (simp add: tracer_wf_def bundlerCollectorTracer_def)

lemma wf_on_level: "keeps tracer_wf (on_level f)"
  by (auto simp: keeps_def on_level_def monad_simps tracer_wf_def split: option.split)

lemma wf_new_level: "tracer_wf t \<Longrightarrow> tracer_wf (new_level T log t)"
  by (simp add: tracer_wf_def new_level_def array_set_def)

lemma wf_parts:
  "tracer_wf t \<Longrightarrow> tracer_wf (remember_step log t)"
  "tracer_wf t \<Longrightarrow> tracer_wf (leave_step log t)"
  "tracer_wf t \<Longrightarrow> tracer_wf (data_step T log t)"
  "tracer_wf t \<Longrightarrow> tracer_wf (enter frame t)"
  "tracer_wf t \<Longrightarrow> tracer_wf (exit_frame r t)"
  "tracer_wf t \<Longrightarrow> tracer_wf (t\<lparr>t_lastOp := x\<rparr>)"
  "tracer_wf t \<Longrightarrow> tracer_wf (t\<lparr>t_stopCollecting := b\<rparr>)"
  by (auto simp: tracer_wf_def remember_step_def leave_step_def data_step_def enter_def exit_frame_def Let_def)

lemma wf_level_steps:
  "tracer_wf t \<Longrightarrow> tracer_wf (creator_step T log t)"
  "tracer_wf t \<Longrightarrow> tracer_wf (top_step T log t)"
  by (auto simp: creator_step_def top_step_def Let_def intro: wf_new_level wf_parts split: option.split)

lemma wf_step: "keeps tracer_wf (step T log)"
  unfolding step_def ext_step_def code_step_def count_step_def storage_step_def Let_def
  by (intro keeps_intros keeps_lookM)
     (auto intro!: keeps_intros wf_on_level wf_parts wf_level_steps split: list.split)

lemma wf_run: "keeps tracer_wf (run T inputs)"
proof -
  have "keeps tracer_wf (feed T x)" for x
    by (cases x) (auto intro: keeps_intros wf_parts wf_step)
  then show ?thesis unfolding run_def by (intro keeps_intros)
qed

end
