(* ===== verification/LegacyCompliance.thy ===== *)
theory LegacyCompliance
  imports LegacyTracer
begin

text \<open>
  What the check of a JavaScript trace accepts, as a declarative rule set, and what the
  tracer and the check guarantee together.
\<close>

section \<open>The rules\<close>

text \<open>A slot of a contract other than the sender and the entry point.\<close>

definition slot_allowed :: "legacy_ctx \<Rightarrow> string \<Rightarrow> access_info \<Rightarrow> string \<Rightarrow> bool" where
  "slot_allowed X a acc slot \<longleftrightarrow>
     (let op = lc_op X; L = le_lib (lc_env X); staked = legacy_isStaked (lc_stake X) in
      \<exists>bs. associatedWith L slot (toLowerCase (sender op)) (lc_slots X) = Inr bs \<and>
        (if bs then
           factory op = None \<or> factory op = Some AddressZero \<or> staked \<or>
           (toLowerCase (lc_entityAddress X) = toLowerCase (sender op) \<and>
            (\<exists>f. factory op = Some f \<and> legacy_isStaked (known_stake (lc_stakes X) (toLowerCase f))))
         else
           (\<exists>be. associatedWith L slot (lc_entityAddress X) (lc_slots X) = Inr be \<and> staked \<and>
             (be \<or> toLowerCase a = toLowerCase (lc_entityAddress X) \<or>
              (obj_get (ai_writes acc) slot = None \<and> obj_get (ai_transientWrites acc) slot = None)))))"

definition free_address :: "legacy_ctx \<Rightarrow> string \<Rightarrow> bool" where
  "free_address X a \<longleftrightarrow> toLowerCase a = toLowerCase (sender (lc_op X)) \<or>
     toLowerCase a = toLowerCase (le_entryPoint (lc_env X))"

definition opcode_allowed :: "legacy_ctx \<Rightarrow> string \<Rightarrow> bool" where
  "opcode_allowed X opcode \<longleftrightarrow> opcode \<notin> set legacy_bannedOpCodes \<and>
     (opcode \<in> set legacy_stakedOpcodes \<longrightarrow> legacy_isStaked (lc_stake X))"

definition creation_allowed :: "legacy_ctx \<Rightarrow> call_info \<Rightarrow> nat \<Rightarrow> bool" where
  "creation_allowed X c d \<longleftrightarrow>
     (ci_type c = Some ''CREATE'' \<longrightarrow> d = 1 \<and>
        ((lc_title X = ''account'' \<and> factory (lc_op X) \<noteq> None) \<or> (lc_title X = ''factory'' \<and> legacy_isStaked (lc_stake X)))) \<and>
     legacy_create2 X c = Inr ()"

definition call_allowed :: "legacy_ctx \<Rightarrow> call_info \<Rightarrow> nat \<Rightarrow> bool" where
  "call_allowed X c d \<longleftrightarrow>
     (let l = ci_level c in
      \<not> li_oog l \<and> (\<forall>opcode \<in> set (obj_keys (li_opcodes l)). opcode_allowed X opcode) \<and> creation_allowed X c d \<and>
      (\<forall>(a, acc) \<in> set (li_access l). \<not> free_address X a \<longrightarrow> (\<forall>slot \<in> set (accessed acc). slot_allowed X a acc slot)) \<and>
      (\<forall>(a, i) \<in> set (li_contractSize l). free_address X a \<or> 2 < si_contractSize i) \<and>
      (\<forall>a \<in> set (obj_keys (li_extCode l)). toLowerCase a \<noteq> toLowerCase (le_entryPoint (lc_env X))))"

section \<open>The check implements the rules\<close>

lemma requireCondAndStake_Inr_iff:
  "requireCondAndStake E c st msg title acc = Inr () \<longleftrightarrow> (c \<longrightarrow> legacy_isStaked st)"
  by (auto simp: requireCondAndStake_def legacy_isStaked_def split: option.split)

text \<open>Whether a slot needs stake, or an error.\<close>

definition slot_need :: "legacy_ctx \<Rightarrow> string \<Rightarrow> access_info \<Rightarrow> string \<Rightarrow> bool res" where
  "slot_need X a acc slot = bindE (legacy_slot X a acc slot None) (\<lambda>r. Inr (r \<noteq> None))"

lemma legacy_slot_need:
  "legacy_slot X a acc slot req = bindE (slot_need X a acc slot) (\<lambda>n. Inr (if n then Some slot else req))"
  by (auto simp: slot_need_def legacy_slot_def bindE_def Let_def split: sum.split option.split)

lemma slot_allowed_need:
  "slot_allowed X a acc slot \<longleftrightarrow> (\<exists>n. slot_need X a acc slot = Inr n \<and> (n \<longrightarrow> legacy_isStaked (lc_stake X)))"
  by (auto simp: slot_allowed_def slot_need_def legacy_slot_def bindE_def Let_def split: sum.splits option.splits)

lemma foldE_slots:
  "foldE (legacy_slot X a acc) slots req = Inr r \<Longrightarrow>
     (\<forall>s \<in> set slots. \<exists>n. slot_need X a acc s = Inr n) \<and>
     (r \<noteq> None \<longleftrightarrow> req \<noteq> None \<or> (\<exists>s \<in> set slots. slot_need X a acc s = Inr True))"
proof (induction slots arbitrary: req)
  case (Cons s slots)
  then obtain n where n: "slot_need X a acc s = Inr n"
    and "foldE (legacy_slot X a acc) slots (if n then Some s else req) = Inr r"
    by (auto simp: legacy_slot_need [of X a acc s] bindE_Inr_iff)
  from Cons.IH [OF this(2)] n show ?case by (cases n) auto
qed simp

lemma foldE_slots_return:
  "\<forall>s \<in> set slots. \<exists>n. slot_need X a acc s = Inr n \<Longrightarrow> \<exists>r. foldE (legacy_slot X a acc) slots req = Inr r"
  by (induction slots arbitrary: req) (auto simp: legacy_slot_need)

lemma foldE_slots_allowed:
  "(\<exists>r. foldE (legacy_slot X a acc) slots None = Inr r \<and> (r \<noteq> None \<longrightarrow> legacy_isStaked (lc_stake X))) \<longleftrightarrow>
     (\<forall>slot \<in> set slots. slot_allowed X a acc slot)" (is "?l \<longleftrightarrow> ?r")
proof
  assume ?l
  then obtain r where r: "foldE (legacy_slot X a acc) slots None = Inr r" "r \<noteq> None \<longrightarrow> legacy_isStaked (lc_stake X)"
    by blast
  from foldE_slots [OF r(1)] r(2) show ?r unfolding slot_allowed_need by (metis (full_types))
next
  assume ?r
  then have ok: "\<forall>slot \<in> set slots. \<exists>n. slot_need X a acc slot = Inr n"
    and st: "\<forall>slot \<in> set slots. slot_need X a acc slot = Inr True \<longrightarrow> legacy_isStaked (lc_stake X)"
    unfolding slot_allowed_need by auto
  obtain r where r: "foldE (legacy_slot X a acc) slots None = Inr r"
    using foldE_slots_return [OF ok] by blast
  from foldE_slots [OF r] st r show ?l by auto
qed

lemma legacy_access_Inr_iff:
  "legacy_access X access (a, acc) = Inr () \<longleftrightarrow>
     (\<not> free_address X a \<longrightarrow> (\<forall>slot \<in> set (accessed acc). slot_allowed X a acc slot))"
proof (cases "free_address X a")
  case False
  have "legacy_access X access (a, acc) = Inr () \<longleftrightarrow>
      (\<exists>r. foldE (legacy_slot X a acc) (accessed acc) None = Inr r \<and> (r \<noteq> None \<longrightarrow> legacy_isStaked (lc_stake X)))"
    using False by (simp add: legacy_access_def free_address_def bindE_Inr_iff requireCondAndStake_Inr_iff)
  also have "\<dots> \<longleftrightarrow> (\<forall>slot \<in> set (accessed acc). slot_allowed X a acc slot)"
    by (rule foldE_slots_allowed)
  finally show ?thesis using False by simp
qed (auto simp: legacy_access_def free_address_def)

lemma legacy_opcodes_Inr_iff:
  "legacy_opcodes X l = Inr () \<longleftrightarrow> (\<forall>opcode \<in> set (obj_keys (li_opcodes l)). opcode_allowed X opcode)"
  by (auto simp: legacy_opcodes_def opcode_allowed_def forE_Inr_iff bindE_Inr_iff)

lemma find_none_ok:
  "(case find P xs of None \<Rightarrow> Inr () | Some (a, i) \<Rightarrow> requireCond False (m a i) err d) = Inr u \<longleftrightarrow> (\<forall>x \<in> set xs. \<not> P x)"
proof (cases "find P xs")
  case None
  then show ?thesis using find_None_iff [of P xs] by auto
next
  case (Some x)
  then have "\<exists>x \<in> set xs. P x" by (metis find_Some_iff nth_mem)
  with Some show ?thesis by (cases x) auto
qed

lemma legacy_code_Inr_iff:
  "legacy_code X l = Inr () \<longleftrightarrow>
     (\<forall>(a, i) \<in> set (li_contractSize l). free_address X a \<or> 2 < si_contractSize i) \<and>
     (\<forall>a \<in> set (obj_keys (li_extCode l)). toLowerCase a \<noteq> toLowerCase (le_entryPoint (lc_env X)))"
  unfolding legacy_code_def bindE_Inr_iff find_none_ok
  by (auto simp: zero_code_def free_address_def)

lemma check_call_Inr_iff: "check_call X c d = Inr () \<longleftrightarrow> call_allowed X c d"
proof -
  have create: "legacy_create X c d = Inr () \<and> legacy_create2 X c = Inr () \<longleftrightarrow> creation_allowed X c d"
    by (auto simp: legacy_create_def creation_allowed_def bindE_Inr_iff)
  have access: "forE (li_access l) (legacy_access X (li_access l)) = Inr () \<longleftrightarrow>
      (\<forall>(a, acc) \<in> set (li_access l). \<not> free_address X a \<longrightarrow> (\<forall>slot \<in> set (accessed acc). slot_allowed X a acc slot))" for l
    unfolding forE_Inr_iff using legacy_access_Inr_iff by auto
  show ?thesis
    unfolding check_call_def call_allowed_def Let_def
    by (simp add: bindE_Inr_iff access legacy_opcodes_Inr_iff legacy_code_Inr_iff create [symmetric])
qed

text \<open>A call and the calls inside it, with their depths.\<close>

function (sequential) calls_at :: "call_info \<Rightarrow> nat \<Rightarrow> (call_info \<times> nat) list"
  and calls_list_at :: "call_info list \<Rightarrow> nat \<Rightarrow> (call_info \<times> nat) list" where
  "calls_at c d = (c, d) # calls_list_at (ci_calls c) (d + 1)"
| "calls_list_at [] d = []"
| "calls_list_at (c # cs) d = calls_at c d @ calls_list_at cs d"
  by pat_completeness auto

termination
  by (relation "measure (case_sum (\<lambda>(c, d). 2 * size c + 1) (\<lambda>(cs, d). 2 * size_list size cs))")
     (use size_ci_calls in \<open>auto simp: less_Suc_eq\<close>)

lemma processEntityCall_Inr_iff:
  "processEntityCall X c d = Inr () \<longleftrightarrow> (\<forall>(c', d') \<in> set (calls_at c d). call_allowed X c' d')"
  "processEntityCalls X cs d = Inr () \<longleftrightarrow> (\<forall>(c', d') \<in> set (calls_list_at cs d). call_allowed X c' d')"
  by (induction X c d and X cs d rule: processEntityCall_processEntityCalls.induct)
     (simp_all add: bindE_Inr_iff check_call_Inr_iff ball_Un)

declare processEntityCall.simps [simp del] calls_at.simps [simp del]

section \<open>The check of a whole result\<close>

definition title_of :: "operation \<Rightarrow> string \<Rightarrow> string" where
  "title_of op a = (if toLowerCase (sender op) = toLowerCase a then ''account''
     else if lower_opt (factory op) = Some (toLowerCase a) then ''factory'' else ''paymaster'')"

lemma stakes_keys:
  "set (obj_keys (stakeInfoEntities op vr)) =
     {toLowerCase (sender op)} \<union> set_option (lower_opt (factory op)) \<union> set_option (lower_opt (paymaster op))"
  by (auto simp: stakeInfoEntities_def Let_def set_obj_keys_update split: option.splits)

lemma getEntityTitle_known:
  assumes "a \<in> set (obj_keys (stakeInfoEntities op vr))"
  shows "getEntityTitle op a = Inr (title_of op a)"
  using assms unfolding stakes_keys
  by (auto simp: getEntityTitle_def title_of_def lower_opt_def elem_set)

definition entity_ctx ::
  "legacy_env \<Rightarrow> operation \<Rightarrow> entity_stakes \<Rightarrow> string list obj \<Rightarrow> string \<Rightarrow> stake_info option \<Rightarrow> legacy_ctx" where
  "entity_ctx E op stakes slots a st = \<lparr>lc_env = E, lc_op = op, lc_entityAddress = a, lc_title = title_of op a,
     lc_stake = st, lc_slots = slots, lc_stakes = stakes\<rparr>"

text \<open>The calls a trace attributes to an entity, with everything below them.\<close>

definition entity_calls :: "tracer_result \<Rightarrow> string \<Rightarrow> (call_info \<times> nat) list" where
  "entity_calls tr a = concat (map (\<lambda>c. calls_at c 0)
     (filter (\<lambda>c. toLowerCase (li_target (ci_level c)) = toLowerCase a) (tr_callsFromEntryPoint tr)))"

lemma check_entity_Inr_iff:
  assumes "a \<in> set (obj_keys (stakeInfoEntities op vr))"
  shows "check_entity E op stakes slots tr (a, st) = Inr () \<longleftrightarrow>
    (\<forall>(c, d) \<in> set (entity_calls tr a). call_allowed (entity_ctx E op stakes slots a st) c d)"
  by (simp add: check_entity_def getEntityTitle_known [OF assms] forE_Inr_iff processEntityCall_Inr_iff
      entity_calls_def entity_ctx_def)

definition events_allowed :: "legacy_env \<Rightarrow> trace_event list \<Rightarrow> bool" where
  "events_allowed E es \<longleftrightarrow> (\<forall>e \<in> set es. \<not> into_entry_point E e \<and> \<not> carries_value E e)"

lemma check_events_Inr_iff: "check_events E es = Inr () \<longleftrightarrow> events_allowed E es"
proof -
  have "(case find (into_entry_point E) es of None \<Rightarrow> Inr ()
      | Some call \<Rightarrow> requireCond False (m call) OpcodeValidation []) = Inr () \<longleftrightarrow> (\<forall>e \<in> set es. \<not> into_entry_point E e)" for m
    using find_None_iff [of "into_entry_point E" es] by (cases "find (into_entry_point E) es") auto
  then show ?thesis
    by (auto simp: check_events_def events_allowed_def bindE_Inr_iff find_None_iff)
qed

definition legacy_accepts :: "legacy_env \<Rightarrow> operation \<Rightarrow> tracer_result \<Rightarrow> validation_result \<Rightarrow> bool" where
  "legacy_accepts E op tr vr \<longleftrightarrow>
     tr_callsFromEntryPoint tr \<noteq> [] \<and> events_allowed E (tr_calls tr) \<and>
     (\<exists>slots. legacy_parseEntitySlots (le_lib E) (stakeInfoEntities op vr) (tr_keccak tr) = Inr slots \<and>
       (\<forall>(a, st) \<in> set (stakeInfoEntities op vr). \<forall>(c, d) \<in> set (entity_calls tr a).
          call_allowed (entity_ctx E op (stakeInfoEntities op vr) slots a st) c d))"

text \<open>The storage map keeps, for an address, the reads of the first level that accessed it.\<close>

definition first_access :: "tracer_result \<Rightarrow> string \<Rightarrow> access_info option" where
  "first_access tr a = map_of (concat (map (\<lambda>c. li_access (ci_level c)) (tr_callsFromEntryPoint tr))) a"

lemma add_reads_get:
  "obj_get (add_reads c m) a = (case obj_get m a of Some e \<Rightarrow> Some e
     | None \<Rightarrow> map_option (\<lambda>acc. Slots (ai_reads acc)) (map_of (li_access (ci_level c)) a))"
proof -
  have "obj_get (foldl (\<lambda>m (a, acc). AList.update a (or_else (obj_get m a) (Slots (ai_reads acc))) m) m xs) a =
      (case obj_get m a of Some e \<Rightarrow> Some e | None \<Rightarrow> map_option (\<lambda>acc. Slots (ai_reads acc)) (map_of xs a))" for xs
    by (induction xs arbitrary: m) (auto simp: or_else_def split: option.splits)
  then show ?thesis by (simp add: add_reads_def)
qed

lemma fold_reads_get:
  "obj_get (foldl (\<lambda>m c. add_reads c m) m cs) a = (case obj_get m a of Some e \<Rightarrow> Some e
     | None \<Rightarrow> map_option (\<lambda>acc. Slots (ai_reads acc)) (map_of (concat (map (\<lambda>c. li_access (ci_level c)) cs)) a))"
  by (induction cs arbitrary: m) (auto simp: add_reads_get map_add_def split: option.splits)

lemma tracerResultParser_Inr_iff:
  "(\<exists>r. tracerResultParser E op tr vr = Inr r) \<longleftrightarrow> legacy_accepts E op tr vr"
proof -
  have key: "a \<in> set (obj_keys (stakeInfoEntities op vr))" if "(a, st) \<in> set (stakeInfoEntities op vr)" for a st
    using that by force
  have "forE (stakeInfoEntities op vr) (check_entity E op (stakeInfoEntities op vr) slots tr) = Inr () \<longleftrightarrow>
    (\<forall>(a, st) \<in> set (stakeInfoEntities op vr). \<forall>(c, d) \<in> set (entity_calls tr a).
       call_allowed (entity_ctx E op (stakeInfoEntities op vr) slots a st) c d)" for slots
    unfolding forE_Inr_iff by (rule ball_cong) (auto simp: check_entity_Inr_iff [OF key])
  then show ?thesis
    by (cases "tr_callsFromEntryPoint tr")
       (simp_all add: tracerResultParser_def legacy_accepts_def Let_def bindE_Inr_iff check_events_Inr_iff)
qed

text \<open>C18: the check of a JavaScript trace is exactly its rule set: it returns if and only if the trace
  has a call from the entry point, no event enters the entry point illegally or carries value, and
  every call of every entity, at every depth, obeys the rules on gas, opcodes, creation, storage and
  code. The storage map it returns holds, for each address, the reads of the first level that accessed it.\<close>

theorem tracerResultParser_exact:
  "(case tracerResultParser E op tr vr of
      Inl e \<Rightarrow> \<not> legacy_accepts E op tr vr
    | Inr (addresses, storage) \<Rightarrow> legacy_accepts E op tr vr \<and>
        obj_get storage a = map_option (\<lambda>acc. Slots (ai_reads acc)) (first_access tr a))"
proof (cases "tracerResultParser E op tr vr")
  case (Inl e)
  then show ?thesis using tracerResultParser_Inr_iff [of E op tr vr] by simp
next
  case (Inr r)
  then have "snd r = foldl (\<lambda>m c. add_reads c m) [] (tr_callsFromEntryPoint tr)"
    by (auto simp: tracerResultParser_def Let_def bindE_Inr_iff split: if_splits)
  with Inr show ?thesis
    using tracerResultParser_Inr_iff [of E op tr vr]
    by (cases r) (auto simp: fold_reads_get first_access_def)
qed

section \<open>Contract creation\<close>

text \<open>The tracer's result with every count of a creation forgotten.\<close>

definition creation_opcodes :: "string set" where
  "creation_opcodes = {''CREATE'', ''CREATE2''}"

definition forget_level :: "level_info \<Rightarrow> level_info" where
  "forget_level l = l\<lparr>li_opcodes := filter (\<lambda>(opcode, n). opcode \<notin> creation_opcodes) (li_opcodes l)\<rparr>"

definition forget_creates :: "tracer \<Rightarrow> tracer" where
  "forget_creates t = t\<lparr>t_calls := map forget_level (t_calls t)\<rparr>"

lemma forget_level_parts [simp]:
  "li_target (forget_level l) = li_target l" "li_access (forget_level l) = li_access l"
  "li_contractSize (forget_level l) = li_contractSize l" "li_extCode (forget_level l) = li_extCode l"
  "li_oog (forget_level l) = li_oog l"
  by (simp_all add: forget_level_def)

lemma forE_skip: "(\<And>x. x \<in> set xs \<Longrightarrow> \<not> P x \<Longrightarrow> f x = Inr ()) \<Longrightarrow> forE (filter P xs) f = forE xs f"
  by (induction xs) auto

lemma forE_map: "forE (map g xs) f = forE xs (\<lambda>x. f (g x))"
  by (induction xs) simp_all

lemma creates_not_banned:
  "opcode \<in> creation_opcodes \<Longrightarrow> opcode \<notin> set legacy_bannedOpCodes \<and> opcode \<notin> set legacy_stakedOpcodes"
  by (auto simp: creation_opcodes_def legacy_bannedOpCodes_def legacy_stakedOpcodes_def)

lemma legacy_opcodes_forget: "legacy_opcodes X (forget_level l) = legacy_opcodes X l"
proof -
  let ?check = "\<lambda>opcode. bindE (requireCond (opcode \<notin> set legacy_bannedOpCodes)
      (lc_title X @ '' uses banned opcode: '' @ opcode) OpcodeValidation []) (\<lambda>_.
    requireCond (opcode \<notin> set legacy_stakedOpcodes \<or> legacy_isStaked (lc_stake X))
      (''unstaked '' @ lc_title X @ '' uses banned opcode: '' @ opcode) OpcodeValidation [])"
  have "?check opcode = Inr ()" if "opcode \<in> creation_opcodes" for opcode
    using creates_not_banned [OF that] by (simp add: requireCond_def)
  then have "forE (filter (\<lambda>(opcode, n). opcode \<notin> creation_opcodes) (li_opcodes l)) (\<lambda>x. ?check (fst x)) =
      forE (li_opcodes l) (\<lambda>x. ?check (fst x))"
    by (intro forE_skip) auto
  then show ?thesis unfolding legacy_opcodes_def forE_map by (simp add: forget_level_def)
qed

lemma check_call_level:
  "processEntityCall X (CallInfo l None None None []) d =
     bindE (requireCond (\<not> li_oog l) (lc_title X @ '' internally reverts on oog'') OpcodeValidation []) (\<lambda>_.
     bindE (legacy_opcodes X l) (\<lambda>_.
     bindE (forE (li_access l) (legacy_access X (li_access l))) (\<lambda>_. legacy_code X l)))"
  by (simp add: processEntityCall.simps check_call_def legacy_create_def legacy_create2_def Let_def)
     (simp add: bindE_def split: sum.split)

lemma check_entity_forget:
  "check_entity E op stakes slots (result (forget_creates t)) = check_entity E op stakes slots (result t)"
proof -
  have "legacy_code X (forget_level l) = legacy_code X l" for X l by (simp add: legacy_code_def)
  then show ?thesis
    by (simp add: check_entity_def result_def forget_creates_def fun_eq_iff filter_map o_def forE_map
        check_call_level legacy_opcodes_forget)
qed

text \<open>the rules on contract creation are dead code behind the JavaScript tracer: what the check says
  about a trace of the tracer does not depend on the creations counted in it, so an account or
  paymaster may use \<^verbatim>\<open>CREATE\<close> and \<^verbatim>\<open>CREATE2\<close> freely. The check looks for the type of a call, which the
  tracer never records, and the two opcodes are not on its list of banned ones.\<close>

theorem creation_never_checked:
  "tracerResultParser E op (result (forget_creates t)) vr = tracerResultParser E op (result t) vr"
  unfolding tracerResultParser_def check_entity_forget
  by (simp add: result_def forget_creates_def o_def foldl_map add_reads_def)

section \<open>Nothing recorded is lost\<close>

definition opcodes_of :: "level_info \<Rightarrow> string set" where
  "opcodes_of l = set (obj_keys (li_opcodes l))"

lemma opcodes_of_simps [simp]:
  "opcodes_of (l\<lparr>li_extCode := x\<rparr>) = opcodes_of l" "opcodes_of (l\<lparr>li_contractSize := y\<rparr>) = opcodes_of l"
  "opcodes_of (l\<lparr>li_access := z\<rparr>) = opcodes_of l" "opcodes_of (l\<lparr>li_oog := b\<rparr>) = opcodes_of l"
  "opcodes_of (count_opcode opcode l) = insert opcode (opcodes_of l)"
  by (simp_all add: opcodes_of_def count_opcode_def countSlot_def set_obj_keys_update del: set_map)

lemma count_opcode_parts [simp]: "li_target (count_opcode x l) = li_target l" "li_oog (count_opcode x l) = li_oog l"
  by (simp_all add: count_opcode_def)

definition grows :: "level_info \<Rightarrow> level_info \<Rightarrow> bool" where
  "grows l m \<longleftrightarrow> li_target m = li_target l \<and> opcodes_of l \<subseteq> opcodes_of m \<and>
     (li_oog l \<longrightarrow> li_oog m)"

lemma grows_refl [simp]: "grows l l"
  by (simp add: grows_def)

lemma grows_trans: "grows l m \<Longrightarrow> grows m n \<Longrightarrow> grows l n"
  by (auto simp: grows_def)

lemma grows_updates [simp]:
  "grows l (m\<lparr>li_extCode := x\<rparr>) = grows l m" "grows l (m\<lparr>li_contractSize := y\<rparr>) = grows l m"
  "grows l (m\<lparr>li_access := z\<rparr>) = grows l m"
  by (simp_all add: grows_def)

lemma grows_oog: "grows l m \<Longrightarrow> grows l (m\<lparr>li_oog := True\<rparr>)" "grows l m \<Longrightarrow> grows (l\<lparr>li_oog := True\<rparr>) (m\<lparr>li_oog := True\<rparr>)"
  by (simp_all add: grows_def)

lemma grows_count: "grows l m \<Longrightarrow> grows l (count_opcode x m)"
  by (auto simp: grows_def)

text \<open>A level of a later state, with all that an earlier one held.\<close>

definition holds_level :: "nat \<Rightarrow> level_info \<Rightarrow> tracer \<Rightarrow> bool" where
  "holds_level i l t \<longleftrightarrow> tracer_wf t \<and> i < length (t_calls t) \<and> grows l (t_calls t ! i)"

lemma holds_on_level:
  assumes "\<And>m. grows l m \<Longrightarrow> grows l (f m)"
  shows "keeps (holds_level i l) (on_level f)"
proof (rule keepsI)
  fix t assume t: "holds_level i l t"
  show "holds_level i l (snd (on_level f t))"
  proof (cases "t_currentLevel t")
    case (Some j)
    have "j < length (t_calls t)" using t Some by (auto simp: holds_level_def tracer_wf_def split: if_splits)
    then show ?thesis
      using t keepsD [OF wf_on_level, of t f] assms Some
      by (cases "j = i") (simp_all add: on_level_def holds_level_def monad_simps)
  qed (use t in \<open>simp add: on_level_def monad_simps\<close>)
qed

lemma holds_new_level: "holds_level i l t \<Longrightarrow> holds_level i l (new_level T log t)"
  using wf_new_level [of t T log] by (auto simp: holds_level_def new_level_def array_set_def tracer_wf_def nth_append)

lemma t_calls_parts [simp]:
  "t_calls (remember_step log t) = t_calls t" "t_calls (leave_step log t) = t_calls t"
  "t_calls (data_step T log t) = t_calls t" "t_calls (enter frame t) = t_calls t"
  "t_calls (exit_frame r t) = t_calls t"
  by (simp_all add: remember_step_def leave_step_def data_step_def enter_def exit_frame_def Let_def)

lemma holds_parts:
  "holds_level i l t \<Longrightarrow> holds_level i l (remember_step log t)"
  "holds_level i l t \<Longrightarrow> holds_level i l (leave_step log t)"
  "holds_level i l t \<Longrightarrow> holds_level i l (data_step T log t)"
  "holds_level i l t \<Longrightarrow> holds_level i l (enter frame t)"
  "holds_level i l t \<Longrightarrow> holds_level i l (exit_frame r t)"
  "holds_level i l t \<Longrightarrow> holds_level i l (t\<lparr>t_lastOp := x\<rparr>)"
  "holds_level i l t \<Longrightarrow> holds_level i l (t\<lparr>t_stopCollecting := b\<rparr>)"
  by (simp_all add: holds_level_def wf_parts)

lemma holds_level_steps:
  "holds_level i l t \<Longrightarrow> holds_level i l (creator_step T log t)"
  "holds_level i l t \<Longrightarrow> holds_level i l (top_step T log t)"
  by (auto simp: creator_step_def top_step_def Let_def intro: holds_new_level holds_parts split: option.split)

lemma holds_step_parts:
  "keeps (holds_level i l) (if out_of_gas log then on_level (\<lambda>l. l\<lparr>li_oog := True\<rparr>) else retM ())"
  "keeps (holds_level i l) (ext_step T log)" "keeps (holds_level i l) (code_step T log)"
  "keeps (holds_level i l) (count_step log)" "keeps (holds_level i l) (storage_step T log)"
  unfolding ext_step_def code_step_def count_step_def storage_step_def Let_def
  by (auto intro!: keeps_intros keeps_lookM holds_on_level holds_parts grows_oog grows_count split: list.split)

lemma holds_step: "keeps (holds_level i l) (step T log)"
  unfolding step_def
  by (intro keeps_intros keeps_lookM) (auto intro!: keeps_intros holds_step_parts holds_parts holds_level_steps)

lemma holds_run: "keeps (holds_level i l) (run T inputs)"
proof -
  have "keeps (holds_level i l) (feed T x)" for x
    by (cases x) (auto intro: keeps_intros holds_parts holds_step)
  then show ?thesis unfolding run_def by (intro keeps_intros)
qed

lemma run_append: "run T (xs @ ys) = thenM (run T xs) (run T ys)"
  by (simp add: run_def forM_append)

lemma run_split:
  assumes "run T (xs @ ys) t = (Inr (), u)"
  obtains v where "run T xs t = (Inr (), v)" and "run T ys v = (Inr (), u)"
  using assms by (auto simp: run_append elim!: thenM_InrD)

text \<open>A step inside an entity's call puts its opcode on record.\<close>

definition at_level :: "nat \<Rightarrow> level_info \<Rightarrow> tracer \<Rightarrow> bool" where
  "at_level i l t \<longleftrightarrow> holds_level i l t \<and> t_currentLevel t = Some i"

lemma current_parts [simp]:
  "t_currentLevel (remember_step log t) = t_currentLevel t" "t_currentLevel (leave_step log t) = t_currentLevel t"
  "t_currentLevel (data_step T log t) = t_currentLevel t"
  by (simp_all add: remember_step_def leave_step_def data_step_def Let_def)

text \<open>The state after a change of level \<open>i\<close>.\<close>

definition set_level :: "nat \<Rightarrow> (level_info \<Rightarrow> level_info) \<Rightarrow> tracer \<Rightarrow> tracer" where
  "set_level i f t = t\<lparr>t_calls := (t_calls t)[i := f (t_calls t ! i)]\<rparr>"

lemma on_level_at: "at_level i l t \<Longrightarrow> on_level f t = (Inr (), set_level i f t)"
  by (simp add: at_level_def on_level_def set_level_def monad_simps)

lemma at_set_level:
  assumes "at_level i l t" and "\<And>m. grows l m \<Longrightarrow> grows l' (f m)"
  shows "at_level i l' (set_level i f t)"
  using assms by (auto simp: at_level_def holds_level_def set_level_def tracer_wf_def split: if_splits)

lemma at_on_level:
  assumes "\<And>m. grows l m \<Longrightarrow> grows l (f m)"
  shows "keeps (at_level i l) (on_level f)"
  by (rule keepsI) (simp add: on_level_at at_set_level assms)

lemma at_level_parts:
  "at_level i l t \<Longrightarrow> at_level i l (remember_step log t)"
  "at_level i l t \<Longrightarrow> at_level i l (leave_step log t)"
  "at_level i l t \<Longrightarrow> at_level i l (data_step T log t)"
  "at_level i l t \<Longrightarrow> at_level i l (t\<lparr>t_lastOp := x\<rparr>)"
  by (simp_all add: at_level_def holds_parts)

lemma at_level_creator: "\<not> is_call log \<Longrightarrow> at_level i l t \<Longrightarrow> at_level i l (creator_step T log t)"
  by (auto simp: creator_step_def split: option.split)

lemma at_level_steps:
  "keeps (at_level i l) (if out_of_gas log then on_level (\<lambda>l. l\<lparr>li_oog := True\<rparr>) else retM ())"
  "keeps (at_level i l) (ext_step T log)" "keeps (at_level i l) (code_step T log)"
  "keeps (at_level i l) (storage_step T log)"
  unfolding ext_step_def code_step_def storage_step_def Let_def
  by (auto intro!: keeps_intros keeps_lookM at_on_level at_level_parts grows_oog grows_count split: list.split)

definition marked :: "string \<Rightarrow> level_info \<Rightarrow> level_info" where
  "marked opcode l = l\<lparr>li_opcodes := (opcode, 0) # li_opcodes l\<rparr>"

lemma grows_marked: "grows (marked opcode l) m \<longleftrightarrow> grows l m \<and> opcode \<in> opcodes_of m"
  by (auto simp: grows_def marked_def opcodes_of_def)

lemma holds_marked: "holds_level i (marked x l) t \<longleftrightarrow> holds_level i l t \<and> x \<in> opcodes_of (t_calls t ! i)"
  by (auto simp: holds_level_def grows_marked)

lemma count_marks:
  assumes "at_level i l t" and "ls_op log \<noteq> ''GAS''" and "\<not> unimportant (ls_op log)"
  shows "at_level i (marked (ls_op log) l) (snd (count_step log t))"
proof -
  define t1 where "t1 = (if t_lastOp t = ''GAS'' \<and> \<not> includesString (ls_op log) ''CALL'' then set_level i (count_opcode ''GAS'') t else t)"
  have t1: "at_level i l t1"
    unfolding t1_def using assms(1) by (simp add: at_set_level grows_count)
  have t2: "at_level i (marked (ls_op log) l) (set_level i (count_opcode (ls_op log)) t1)"
    by (rule at_set_level [OF t1]) (simp add: grows_marked grows_count)
  have gas: "(if t_lastOp t = ''GAS'' \<and> \<not> includesString (ls_op log) ''CALL'' then on_level (count_opcode ''GAS'') else retM ()) t = (Inr (), t1)"
    unfolding t1_def using on_level_at [OF assms(1)] by (simp add: retM_def)
  have "count_step log t = (Inr (), (set_level i (count_opcode (ls_op log)) t1)\<lparr>t_lastOp := ls_op log\<rparr>)"
    unfolding count_step_def lookM_def seqM.simps thenM_def bindM_def gas
    using assms(2,3) on_level_at [OF t1] by (simp add: modifyM_def retM_def)
  with t2 show ?thesis by (simp add: at_level_parts)
qed

text \<open>In a state where collecting goes on, a step of an important opcode inside an entity's call.\<close>

lemma step_marks:
  assumes t: "at_level i l t" and "\<not> t_stopCollecting t" and "ls_depth log \<noteq> 1"
    and "ls_op log \<noteq> ''GAS''" and "\<not> unimportant (ls_op log)" and "\<not> is_call log"
    and st: "step T log t = (Inr (), u)"
  shows "at_level i (marked (ls_op log) l) u"
proof -
  let ?oog = "if out_of_gas log then on_level (\<lambda>l. l\<lparr>li_oog := True\<rparr>) else retM ()"
  have "seqM [modifyM (remember_step log), ?oog, modifyM (leave_step log), modifyM (creator_step T log),
      seqM [ext_step T log, code_step T log, count_step log, storage_step T log, modifyM (data_step T log)]] t = (Inr (), u)"
    using st assms(2,3) by (simp add: step_def lookM_def)
  then obtain v1 v2 v3 v4 v5 where v1: "?oog (remember_step log t) = (Inr (), v1)"
    and v2: "ext_step T log (creator_step T log (leave_step log v1)) = (Inr (), v2)"
    and v3: "code_step T log v2 = (Inr (), v3)" and v4: "count_step log v3 = (Inr (), v4)"
    and v5: "storage_step T log v4 = (Inr (), v5)" and u: "u = data_step T log v5"
    by (auto simp: modifyM_def retM_def elim!: thenM_InrD)
  have "at_level i l v1" using keeps_res [OF at_level_steps(1) _ v1] t by (simp add: at_level_parts)
  then have "at_level i l v2"
    using keeps_res [OF at_level_steps(2) _ v2] by (simp add: at_level_parts at_level_creator assms(6))
  then have "at_level i l v3" using keeps_res [OF at_level_steps(3) _ v3] by simp
  then have c: "at_level i (marked (ls_op log) l) (snd (count_step log v3))"
    using count_marks assms(4,5) by blast
  with v4 have "at_level i (marked (ls_op log) l) v5" using keeps_res [OF at_level_steps(4) _ v5] by simp
  then show ?thesis unfolding u by (simp add: at_level_parts)
qed

lemma banned_is_important:
  assumes "opcode \<in> set legacy_bannedOpCodes"
  shows "\<not> unimportant opcode" and "opcode \<noteq> ''CALL''" and "opcode \<noteq> ''STATICCALL''"
proof -
  have "list_all (\<lambda>x. \<not> unimportant x \<and> x \<noteq> ''CALL'' \<and> x \<noteq> ''STATICCALL'') legacy_bannedOpCodes"
    by code_simp
  then show "\<not> unimportant opcode" "opcode \<noteq> ''CALL''" "opcode \<noteq> ''STATICCALL''"
    using assms by (auto simp: list_all_iff)
qed

text \<open>A level of an entity with a banned opcode on record is refused.\<close>

lemma recorded_banned_refused:
  assumes "i < length (t_calls t)" and "opcode \<in> opcodes_of (t_calls t ! i)" and "opcode \<in> set legacy_bannedOpCodes"
    and "toLowerCase (li_target (t_calls t ! i)) \<in> set (obj_keys (stakeInfoEntities op vr))"
  shows "\<not> legacy_accepts E op (result t) vr"
proof
  let ?l = "t_calls t ! i" and ?c = "CallInfo (t_calls t ! i) None None None []"
  obtain st where st: "(toLowerCase (li_target ?l), st) \<in> set (stakeInfoEntities op vr)" using assms(4) by auto
  have "?c \<in> set (tr_callsFromEntryPoint (result t))" using assms(1) by (simp add: result_def)
  then have "(?c, 0) \<in> set (entity_calls (result t) (toLowerCase (li_target ?l)))"
    by (force simp: entity_calls_def calls_at.simps)
  moreover assume "legacy_accepts E op (result t) vr"
  ultimately have "\<exists>slots. call_allowed (entity_ctx E op (stakeInfoEntities op vr) slots (toLowerCase (li_target ?l)) st) ?c 0"
    using st unfolding legacy_accepts_def by (fast dest: bspec)
  then show False
    using assms(2,3) by (auto simp: call_allowed_def Let_def opcode_allowed_def opcodes_of_def)
qed

text \<open>C27: tracer and check together enforce [OP-011]: if, while the tracer collects, a step inside a call
  that the entry point made to the sender, the factory or the paymaster executes a banned opcode other
  than \<^verbatim>\<open>GAS\<close>, the check of the finished trace refuses the operation, whatever happens before and
  after that step.\<close>

theorem banned_opcode_refused:
  assumes "run T (before @ Step log # after) bundlerCollectorTracer = (Inr (), t)"
    and "run T before bundlerCollectorTracer = (Inr (), t0)" and "\<not> t_stopCollecting t0"
    and "ls_depth log \<noteq> 1" and "ls_op log \<in> set legacy_bannedOpCodes" and "ls_op log \<noteq> ''GAS''"
    and "level_of t0 = Some l" and "toLowerCase (li_target l) \<in> set (obj_keys (stakeInfoEntities op vr))"
  shows "\<exists>e. tracerResultParser E op (result t) vr = Inl e"
proof -
  have wf: "tracer_wf t0" using keeps_res [OF wf_run tracer_wf_init assms(2)] .
  then obtain i where i: "t_currentLevel t0 = Some i" "l = t_calls t0 ! i" "i < length (t_calls t0)"
    using assms(7) by (auto simp: level_of_def tracer_wf_def split: if_splits)
  have at: "at_level i l t0" using i wf by (simp add: at_level_def holds_level_def)
  obtain u where st: "step T log t0 = (Inr (), u)" and rest: "run T after u = (Inr (), t)"
    using assms(1,2) by (auto simp: run_def forM_append thenM_def bindM_def split: prod.splits sum.splits)
  have "at_level i (marked (ls_op log) l) u"
    by (rule step_marks [OF at assms(3,4,6) _ _ st])
       (use banned_is_important [OF assms(5)] in \<open>auto simp: is_call_def\<close>)
  then have "holds_level i (marked (ls_op log) l) t"
    using keeps_res [OF holds_run _ rest] by (simp add: at_level_def)
  then have "i < length (t_calls t)" "ls_op log \<in> opcodes_of (t_calls t ! i)" "li_target (t_calls t ! i) = li_target l"
    unfolding holds_marked by (auto simp: holds_level_def grows_def)
  then have "\<not> legacy_accepts E op (result t) vr"
    using recorded_banned_refused [OF _ _ assms(5)] assms(8) by simp
  then show ?thesis
    using tracerResultParser_Inr_iff [of E op "result t" vr] by (cases "tracerResultParser E op (result t) vr") auto
qed

section \<open>Examples\<close>

definition example_lib :: trace_lib where
  "example_lib = \<lparr>tl_address = (\<lambda>x. if x = 10 then ''0xa'' else ''0xb''), tl_word = (\<lambda>x. ''0x1''), tl_hex = (\<lambda>x. ''0''),
     tl_codeSize = (\<lambda>a. 100), tl_state = (\<lambda>a sl. ''0x0'')\<rparr>"

definition example_step :: "string \<Rightarrow> nat \<Rightarrow> log_step" where
  "example_step opcode depth = \<lparr>ls_op = opcode, ls_depth = depth, ls_gas = 100000, ls_cost = 3, ls_stackSize = 3,
     ls_peek = (\<lambda>i. 10), ls_memory = (\<lambda>a b. ''0x''), ls_contract = ''0xa''\<rparr>"

definition example_env :: legacy_env where
  "example_env = \<lparr>le_lib = base_lib, le_entryPoint = ''0xe'', le_json = (\<lambda>ob. ''{}'')\<rparr>"

definition example_vr :: validation_result where
  "example_vr = \<lparr>preOpGas = None, prefund = None, sigFailed = False, validAfter = 0, validUntil = 0,
     senderInfo = \<lparr>addr = ''0xa'', stake = 0, unstakeDelaySec = 0, pm_context = None\<rparr>,
     factoryInfo = None, paymasterInfo = None, aggregatorInfo = None\<rparr>"

lemma banned_opcode_refused_witness:
  "\<exists>t e. run example_lib ([Step (example_step ''CALL'' 1)] @ Step (example_step ''TIMESTAMP'' 2) #
       [Step (example_step ''RETURN'' 1)]) bundlerCollectorTracer = (Inr (), t) \<and>
     tracerResultParser example_env (base_op ''0xa'' 0) (result t) example_vr = Inl e"
proof -
  let ?run = "run example_lib ([Step (example_step ''CALL'' 1)] @ Step (example_step ''TIMESTAMP'' 2) #
       [Step (example_step ''RETURN'' 1)]) bundlerCollectorTracer"
  let ?t0 = "new_level example_lib (example_step ''CALL'' 1) (remember_step (example_step ''CALL'' 1) bundlerCollectorTracer)"
  have "fst ?run = Inr ()" by code_simp
  then obtain t where t: "?run = (Inr (), t)" by (metis prod.collapse)
  have b: "run example_lib [Step (example_step ''CALL'' 1)] bundlerCollectorTracer = (Inr (), ?t0)"
    and "\<not> t_stopCollecting ?t0" and "level_of ?t0 = Some (fresh_level ''0xa'')"
    and "ls_op (example_step ''TIMESTAMP'' 2) \<in> set legacy_bannedOpCodes"
    and "toLowerCase (li_target (fresh_level ''0xa'')) \<in> set (obj_keys (stakeInfoEntities (base_op ''0xa'' 0) example_vr))"
    by code_simp+
  moreover have "ls_depth (example_step ''TIMESTAMP'' 2) \<noteq> 1" "ls_op (example_step ''TIMESTAMP'' 2) \<noteq> ''GAS''"
    by (simp_all add: example_step_def)
  ultimately show ?thesis using banned_opcode_refused [OF t] t by blast
qed

text \<open>
  What slips through. \<^verbatim>\<open>GAS\<close> counts as banned unless a call follows, but the test for a call is
  whether the name of the next opcode contains \<^verbatim>\<open>CALL\<close>, which \<^verbatim>\<open>CALLVALUE\<close>, \<^verbatim>\<open>CALLER\<close> and
  \<^verbatim>\<open>CALLDATALOAD\<close> do.
\<close>

lemma gas_before_callvalue_ignored:
  "map (\<lambda>l. obj_keys (li_opcodes l)) (t_calls (snd (run example_lib (map Step
     [example_step ''CALL'' 1, example_step ''GAS'' 2, example_step ''CALLVALUE'' 2]) bundlerCollectorTracer))) =
     [[''CALLVALUE'']]"
  by code_simp

text \<open>
  A deposit is meant to be allowed, but the method of an event is the selector, never the name
  \<^verbatim>\<open>depositTo\<close>, so every call with data from outside into the entry point is refused.
\<close>

lemma deposit_refused:
  assumes "\<not> t_stopCollecting t" and "startsWith (cf_input frame) ''0x''" and "length (cf_input frame) > 2"
    and "toLowerCase (cf_to frame) = toLowerCase (le_entryPoint E)"
    and "toLowerCase (cf_from frame) \<noteq> toLowerCase (le_entryPoint E)"
  shows "\<not> events_allowed E (t_events (enter frame t))"
proof -
  obtain a b c cs where "cf_input frame = a # b # c # cs"
    using assms(3) by (cases "cf_input frame"; cases "tl (cf_input frame)"; cases "tl (tl (cf_input frame))") auto
  then have "take 10 (cf_input frame) \<noteq> ''0x''" "take 10 (cf_input frame) \<noteq> ''depositTo''"
    using assms(2) by (auto simp: startsWith_def)
  then show ?thesis
    using assms by (simp add: events_allowed_def enter_def into_entry_point_def event_to_def event_from_def event_method_def)
qed

text \<open>\<^verbatim>\<open>nameAddr\<close> is meant to give the title of an entity; what it finds is the entity's address.\<close>

lemma nameAddr_is_address: "nameAddr a stakes = a \<or> nameAddr a stakes \<in> set (obj_keys stakes)"
proof (cases "find (\<lambda>(title, info). map_option (\<lambda>i. toLowerCase (addr i)) info = Some (toLowerCase a)) stakes")
  case (Some p)
  then have "p \<in> set stakes" by (metis find_Some_iff nth_mem)
  with Some show ?thesis by (cases p) (force simp: nameAddr_def)
qed (simp add: nameAddr_def)

end
