(* ===== verification/RpcMethods.thy ===== *)
theory RpcMethods
  imports ExecutionManager ERC4337Utils PreVerificationGas RevertReason
begin

text \<open>
  \<^verbatim>\<open>packages/bundler/src/MethodHandlerERC4337.ts\<close> and
  \<^verbatim>\<open>packages/bundler/src/MethodHandlerRIP7560.ts\<close>: the methods behind the JSON-RPC interface
  of the bundler, with the simulation call of
  \<^verbatim>\<open>packages/utils/src/rpcSimulateValidations.ts\<close>. A request argument is a JSON value, a
  \<open>js_value\<close> in which \<open>JsNull\<close> is a missing or null one. The source casts a request object to an
  operation without parsing it; here \<open>rpc_op\<close> gives the operation that the object denotes, and
  the checks that look at the object itself are made on the object.
\<close>

section \<open>JSON values\<close>

definition is_text :: "js_value \<Rightarrow> bool" where
  "is_text v \<longleftrightarrow> (case v of JsStr s \<Rightarrow> True | _ \<Rightarrow> False)"

text \<open>\<^verbatim>\<open>toString()\<close> of a JSON value; null elements of an array print as nothing.\<close>

function (sequential) js_text :: "js_value \<Rightarrow> string" and js_texts :: "js_value list \<Rightarrow> string list" where
  "js_text (JsStr s) = s"
| "js_text (JsNum n) = show_int n"
| "js_text (JsBool b) = (if b then ''true'' else ''false'')"
| "js_text (JsArr vs) = join_comma (js_texts vs)"
| "js_text (JsObj fs) = ''[object Object]''"
| "js_text v = []"
| "js_texts [] = []"
| "js_texts (v # vs) = js_text v # js_texts vs"
  by pat_completeness auto

termination
  by (relation "measure (case_sum size (size_list size))") auto

text \<open>The properties a value has: none for a missing one, and no named ones for a primitive.\<close>

definition js_props :: "js_value \<Rightarrow> js_value obj option" where
  "js_props v = (case v of JsNull \<Rightarrow> None | JsObj fs \<Rightarrow> Some fs | _ \<Rightarrow> Some [])"

definition js_field :: "js_value obj \<Rightarrow> string \<Rightarrow> js_value" where
  "js_field fs key = or_else (obj_get fs key) JsNull"

text \<open>The present fields of an object with their text.\<close>

definition text_fields :: "js_value obj \<Rightarrow> string obj" where
  "text_fields fs = map (\<lambda>k. (k, js_text (js_field fs k))) (filter (\<lambda>k. js_field fs k \<noteq> JsNull) (obj_keys fs))"

text \<open>\<^verbatim>\<open>{ ...base, ...fs }\<close>\<close>

definition spread :: "js_value obj \<Rightarrow> js_value obj \<Rightarrow> js_value obj" where
  "spread base fs = foldl (\<lambda>acc k. AList.update k (js_field fs k) acc) base (obj_keys fs)"

definition js_opt :: "string \<Rightarrow> js_value option \<Rightarrow> js_value obj" where
  "js_opt key v = (case v of None \<Rightarrow> [] | Some x \<Rightarrow> [(key, x)])"

definition js_str_opt :: "string option \<Rightarrow> js_value" where
  "js_str_opt s = (case s of None \<Rightarrow> JsNull | Some x \<Rightarrow> JsStr x)"

section \<open>Environment\<close>

text \<open>A log of a receipt: its topics, and the whole object as it is returned.\<close>

record log_entry =
  lg_topics :: "string list"
  lg_value :: js_value

record mined_tx =
  tx_to :: "string option"
  tx_hash :: string
  tx_blockHash :: "string option"
  tx_blockNumber :: "int option"
  tx_ops :: "packed_user_op list option res"
    \<comment> \<open>\<^verbatim>\<open>parseTransaction(tx)?.args.ops\<close>\<close>

record uo_event =
  ue_topics :: "string list"
  ue_sender :: string
  ue_nonce :: int
  ue_actualGasCost :: int
  ue_actualGasUsed :: int
  ue_success :: bool
  ue_transaction :: "mined_tx res"
  ue_receipt :: "(log_entry list \<times> js_value) res"

record execution_result =
  er_preOpGas :: int
  er_accountValidationData :: int
  er_paymasterValidationData :: int

record rpc_env =
  rpc_hex :: hex_lib
  rpc_lib :: ethers_lib
  rpc_rip :: rip_lib
  rpc_revert :: revert_lib
  rpc_pvg :: pvg_config
  rpc_op :: "js_value obj \<Rightarrow> operation"
  cfg_entryPoint :: string
  cfg_beneficiary :: string
  cfg_minBalance :: string
  cfg_unsafe :: bool
  cfg_eip7702Support :: bool
  rpc_entryPoint :: string
    \<comment> \<open>\<^verbatim>\<open>entryPoint.address\<close>\<close>
  rpc_beforeExecution :: string
    \<comment> \<open>topic of \<^verbatim>\<open>BeforeExecution\<close>\<close>
  rpc_signer :: "string res"
  rpc_signerBalance :: "int res"
  rpc_encode :: "string \<Rightarrow> packed_user_op \<Rightarrow> js_value list \<Rightarrow> string res"
    \<comment> \<open>call data of a method of the simulations contract\<close>
  rpc_simulationsCode :: string
  rpc_ethCall :: "js_value list \<Rightarrow> string res"
  rpc_decodeSimulation :: "string \<Rightarrow> execution_result res"
  rpc_estimateGas :: "js_value \<Rightarrow> int res"
    \<comment> \<open>\<^verbatim>\<open>eth_estimateGas\<close>, as a number\<close>
  rpc_errorData :: "js_error \<Rightarrow> string"
    \<comment> \<open>\<^verbatim>\<open>err.data?.data ?? err.data ?? err.error.data\<close>\<close>
  rpc_auth_js :: "authorization \<Rightarrow> js_value"
  rpc_queryEvents :: "string \<Rightarrow> uo_event list res"
    \<comment> \<open>\<^verbatim>\<open>queryFilter(UserOperationEvent(userOpHash))\<close>\<close>
  rpc_opHash :: "packed_user_op \<Rightarrow> (string \<times> string) option \<Rightarrow> string res"
    \<comment> \<open>\<^verbatim>\<open>getUserOpHash\<close> of the entry point, with code set for an address\<close>
  rpc_txReceipt :: "string \<Rightarrow> js_value res"
  rpc_version :: string

section \<open>Checks of a request\<close>

definition handler_fields :: "bool \<Rightarrow> bool \<Rightarrow> string list" where
  "handler_fields requireSignature requireGasParams =
     [''sender'', ''nonce'', ''callData''] @ (if requireSignature then [''signature''] else []) @
     (if requireGasParams
      then [''preVerificationGas'', ''verificationGasLimit'', ''callGasLimit'', ''maxFeePerGas'', ''maxPriorityFeePerGas''] else [])"

definition handler_field :: "js_value obj \<Rightarrow> string \<Rightarrow> unit res" where
  "handler_field fs key =
     (let v = js_field fs key in
      bindE (requireCond (v \<noteq> JsNull) (''Missing userOp field: '' @ key) InvalidFields []) (\<lambda>_.
        requireCond (HEX_REGEX (js_text v))
          (''Invalid hex value for property '' @ key @ '':'' @ js_text v @ '' in UserOp'') InvalidFields []))"

text \<open>\<^verbatim>\<open>addr.match\<close> of something that is not a string is a type error.\<close>

definition address_and_fields :: "js_value obj \<Rightarrow> string \<Rightarrow> string list \<Rightarrow> string list \<Rightarrow> unit res" where
  "address_and_fields fs addrField mustFields optionalFields =
     (let a = js_field fs addrField in
      if a \<noteq> JsNull \<and> \<not> is_text a then Inl (JsError ''addr.match is not a function'' None)
      else requireAddressAndFields (text_fields fs) addrField mustFields optionalFields)"

definition validateParameters :: "rpc_env \<Rightarrow> js_value \<Rightarrow> js_value \<Rightarrow> bool \<Rightarrow> bool \<Rightarrow> unit res" where
  "validateParameters R userOp1 entryPointInput requireSignature requireGasParams =
     bindE (requireCond (entryPointInput \<noteq> JsNull) ''No entryPoint param'' InvalidFields []) (\<lambda>_.
     if toLowerCase (js_text entryPointInput) \<noteq> toLowerCase (cfg_entryPoint R)
     then Inl (JsError (''The EntryPoint at '' @ dq @ js_text entryPointInput @ dq @
            '' is not supported. This bundler uses '' @ cfg_entryPoint R) None)
     else
       bindE (requireCond (js_props userOp1 \<noteq> None) ''No UserOperation param'' InvalidFields []) (\<lambda>_.
       let fs = the (js_props userOp1) in
       bindE (forE (handler_fields requireSignature requireGasParams) (handler_field fs)) (\<lambda>_.
       bindE (address_and_fields fs ''paymaster'' [''paymasterPostOpGasLimit'', ''paymasterVerificationGasLimit''] [''paymasterData'']) (\<lambda>_.
         if js_field fs ''factory'' \<noteq> JsStr EIP_7702_MARKER_INIT_CODE
         then address_and_fields fs ''factory'' [''factoryData''] [] else Inr ()))))"

text \<open>\<^verbatim>\<open>!config.eip7702Support && userOp.eip7702Auth != null\<close>\<close>

definition check_7702_support :: "rpc_env \<Rightarrow> js_value \<Rightarrow> unit res" where
  "check_7702_support R userOp1 =
     (if cfg_eip7702Support R then Inr ()
      else case js_props userOp1 of
          None \<Rightarrow> Inl (JsError ''Cannot read properties of undefined'' None)
        | Some fs \<Rightarrow>
            if js_field fs ''eip7702Auth'' \<noteq> JsNull
            then Inl (JsError ''EIP-7702 tuples are not supported'' None) else Inr ())"

section \<open>Simple methods\<close>

definition getSupportedEntryPoints :: "rpc_env \<Rightarrow> string list" where
  "getSupportedEntryPoints R = [cfg_entryPoint R]"

text \<open>The configured balance is compared as it is written, without \<^verbatim>\<open>parseEther\<close>.\<close>

definition rpc_selectBeneficiary :: "rpc_env \<Rightarrow> string res" where
  "rpc_selectBeneficiary R =
     bindE (rpc_signerBalance R) (\<lambda>currentBalance.
     bindE (lib_bn_from (rpc_lib R) (cfg_minBalance R)) (\<lambda>minBalance.
       if currentBalance \<le> minBalance then rpc_signer R else Inr (cfg_beneficiary R)))"

definition clientVersion :: "rpc_env \<Rightarrow> string" where
  "clientVersion R = ''aa-bundler/'' @ rpc_version R @ (if cfg_unsafe R then ''/unsafe'' else [])"

section \<open>eth_estimateUserOperationGas\<close>

definition rpc_revertReason :: "rpc_env \<Rightarrow> js_error \<Rightarrow> string option" where
  "rpc_revertReason R e =
     (let data = rpc_errorData R e in the (decodeRevertReason (rpc_revert R) (length data + 1) data True))"

text \<open>\<^verbatim>\<open>stateOverride\<close> of the request is overridden by the code of the simulations contract.\<close>

definition simulationRpcParams ::
  "rpc_env \<Rightarrow> string \<Rightarrow> string \<Rightarrow> operation \<Rightarrow> js_value list \<Rightarrow> js_value \<Rightarrow> js_value list res" where
  "simulationRpcParams R methodName entryPointAddress op extraParams extraOptions =
     bindE (packUserOp (rpc_hex R) op) (\<lambda>packed.
     bindE (rpc_encode R methodName packed extraParams) (\<lambda>data.
       let tx = JsObj [(''to'', JsStr entryPointAddress), (''data'', JsStr data)];
           stateOverride = [(entryPointAddress, JsObj [(''code'', JsStr (rpc_simulationsCode R))])]
       in Inr [tx, JsStr ''latest'', JsObj (spread (or_else (js_props extraOptions) []) stateOverride)]))"

text \<open>\<^verbatim>\<open>/reason="(.*?)"/\<close>: the text up to the next quote on the same line.\<close>

fun quoted_text :: "string \<Rightarrow> string option" where
  "quoted_text [] = None"
| "quoted_text (c # s) =
     (if c = CHR 0x22 then Some []
      else if c \<in> {CHR 0x0A, CHR 0x0D} then None
      else map_option ((#) c) (quoted_text s))"

fun match_reason :: "string \<Rightarrow> string option" where
  "match_reason [] = None"
| "match_reason (c # s) =
     (if startsWith (c # s) (''reason='' @ dq)
      then (case quoted_text (drop 8 (c # s)) of Some r \<Rightarrow> Some r | None \<Rightarrow> match_reason s)
      else match_reason s)"

record estimate_result =
  es_preVerificationGas :: rat
  es_verificationGasLimit :: int
  es_validAfter :: int
  es_validUntil :: int
  es_callGasLimit :: rat

definition estimate_defaults :: "js_value obj" where
  "estimate_defaults = [(''maxFeePerGas'', JsNum 0), (''maxPriorityFeePerGas'', JsNum 0),
     (''preVerificationGas'', JsNum 0), (''verificationGasLimit'', JsNum 10000000)]"

definition estimate_call :: "rpc_env \<Rightarrow> operation \<Rightarrow> js_value" where
  "estimate_call R op =
     (let authorizationList' = getAuthorizationList op in
      JsObj [(''from'', JsStr (rpc_entryPoint R)), (''to'', JsStr (sender op)), (''data'', js_str_opt (callData op)),
        (''authorizationList'',
          if authorizationList' = [] then JsNull else JsArr (map (rpc_auth_js R) authorizationList'))])"

definition estimateUserOperationGas :: "rpc_env \<Rightarrow> js_value \<Rightarrow> js_value \<Rightarrow> js_value \<Rightarrow> estimate_result res" where
  "estimateUserOperationGas R userOp1 entryPointInput stateOverride =
     bindE (check_7702_support R userOp1) (\<lambda>_.
     let fields = spread estimate_defaults (or_else (js_props userOp1) []) in
     bindE (deepHexlify (rpc_hex R) (JsObj fields)) (\<lambda>hexed.
     bindE (validateParameters R hexed entryPointInput True True) (\<lambda>_.
     let op = rpc_op R fields in
     bindE (simulationRpcParams R ''simulateHandleOp'' (rpc_entryPoint R) op [JsStr AddressZero, JsStr ''0x''] stateOverride) (\<lambda>rpcParams.
     bindE (case rpc_ethCall R rpcParams of
              Inr ret \<Rightarrow> Inr ret
            | Inl e \<Rightarrow> Inl (RpcError (or_else (rpc_revertReason R e) ''null'') (error_code SimulateValidation) [])) (\<lambda>ret.
     bindE (rpc_decodeSimulation R ret) (\<lambda>returnInfo.
     bindE (mergeValidationDataValues (rpc_hex R) (er_accountValidationData returnInfo) (er_paymasterValidationData returnInfo)) (\<lambda>merged.
     bindE (case rpc_estimateGas R (estimate_call R op) of
              Inr g \<Rightarrow> Inr g
            | Inl err \<Rightarrow> Inl (RpcError (or_else (match_reason (err_message err)) ''execution reverted'')
                                (error_code UserOperationReverted) [])) (\<lambda>gas.
     bindE (estimatePreVerificationGas (rpc_hex R) (rpc_pvg R) op \<lparr>verificationGasUsed = None, totalGasUsed = None\<rparr>) (\<lambda>pvg.
     bindE (toNumber (er_preOpGas returnInfo)) (\<lambda>verificationGasLimit'.
       Inr \<lparr>es_preVerificationGas = pvg, es_verificationGasLimit = verificationGasLimit',
            es_validAfter = vd_validAfter merged, es_validUntil = vd_validUntil merged,
            es_callGasLimit = of_int gas - transactionGasStipend MainnetConfig\<rparr>))))))))))"

section \<open>eth_sendUserOperation\<close>

definition callGetUserOpHashWithCode :: "rpc_env \<Rightarrow> operation \<Rightarrow> string res" where
  "callGetUserOpHashWithCode R op =
     bindE (case eip7702Auth op of
              None \<Rightarrow> Inr None
            | Some a \<Rightarrow> bindE (hx_concat (rpc_hex R) [''0xef0100'', auth_address a]) (\<lambda>code.
                Inr (Some (sender op, code)))) (\<lambda>stateOverride.
     bindE (packUserOp (rpc_hex R) op) (\<lambda>packed.
       rpc_opHash R packed stateOverride))"

definition rpc_sendUserOperation ::
  "rpc_env \<Rightarrow> exec_config \<Rightarrow> ('z exec_state_scheme, 'r) bundle_manager \<Rightarrow> validation_manager \<Rightarrow> (string \<Rightarrow> int res) \<Rightarrow>
     js_value \<Rightarrow> js_value \<Rightarrow> ('z exec_state_scheme, string) act" where
  "rpc_sendUserOperation R ec bm vm bal userOp1 entryPointInput =
     thenM (liftE (check_7702_support R userOp1))
     (thenM (liftE (validateParameters R userOp1 entryPointInput True True))
     (let op = rpc_op R (the (js_props userOp1)) in
      thenM (sendUserOperation ec bm vm bal op (js_text entryPointInput) False)
      (liftE (callGetUserOpHashWithCode R op))))"

section \<open>Queries by hash\<close>

definition require_hash :: "js_value \<Rightarrow> string \<Rightarrow> validation_errors \<Rightarrow> unit res" where
  "require_hash h message code = requireCond (h \<noteq> JsNull \<and> HEX_REGEX (js_text h)) message code []"

definition getUserOperationEvent :: "rpc_env \<Rightarrow> string \<Rightarrow> uo_event option res" where
  "getUserOperationEvent R h =
     bindE (rpc_queryEvents R h) (\<lambda>events. Inr (case events of [] \<Rightarrow> None | e # es \<Rightarrow> Some e))"

text \<open>The logs between the event before an operation and its own one, by index as in the source.\<close>

definition nth_topic :: "string list \<Rightarrow> nat \<Rightarrow> string option" where
  "nth_topic ts i = (if i < length ts then Some (ts ! i) else None)"

definition scan_log :: "rpc_env \<Rightarrow> uo_event \<Rightarrow> nat \<times> log_entry \<Rightarrow> int \<times> int \<Rightarrow> int \<times> int" where
  "scan_log R ev = (\<lambda>(index, log) (startIndex, endIndex).
     if nth_topic (lg_topics log) 0 = Some (rpc_beforeExecution R) then (int index, int index)
     else if nth_topic (lg_topics log) 0 = nth_topic (ue_topics ev) 0 then
       (if nth_topic (lg_topics log) 1 = nth_topic (ue_topics ev) 1 then (startIndex, int index)
        else if endIndex = -1 then (int index, endIndex) else (startIndex, endIndex))
     else (startIndex, endIndex))"

definition filterLogs :: "rpc_env \<Rightarrow> uo_event \<Rightarrow> log_entry list \<Rightarrow> log_entry list res" where
  "filterLogs R ev logs =
     (let (startIndex, endIndex) = fold (scan_log R ev) (enumerate 0 logs) (-1, -1) in
      if endIndex = -1 then Inl (JsError ''fatal: no UserOperationEvent in logs'' None)
      else Inr (drop (nat (startIndex + 1)) (take (nat endIndex) logs)))"

fun find_packed :: "hex_lib \<Rightarrow> string \<Rightarrow> int \<Rightarrow> packed_user_op list \<Rightarrow> packed_user_op option res" where
  "find_packed H s n [] = Inr None"
| "find_packed H s n (p # ps) =
     (if pk_sender p = s
      then bindE (hx_bn H (pk_nonce p)) (\<lambda>m. if m = n then Inr (Some p) else find_packed H s n ps)
      else find_packed H s n ps)"

text \<open>The object that \<^verbatim>\<open>unpackUserOp\<close> returns, with the order of its fields.\<close>

definition js_of_operation :: "operation \<Rightarrow> js_value" where
  "js_of_operation op = JsObj (
     [(''sender'', JsStr (sender op)), (''nonce'', JsNum (nonce op)), (''callData'', js_str_opt (callData op)),
      (''preVerificationGas'', JsNum (or_else (preVerificationGas op) 0)),
      (''verificationGasLimit'', JsNum (verificationGasLimit op)), (''callGasLimit'', JsNum (callGasLimit op)),
      (''maxFeePerGas'', JsNum (maxFeePerGas op)), (''maxPriorityFeePerGas'', JsNum (maxPriorityFeePerGas op)),
      (''signature'', js_str_opt (signature op))] @
     js_opt ''factory'' (map_option JsStr (factory op)) @ js_opt ''factoryData'' (map_option JsStr (factoryData op)) @
     js_opt ''paymaster'' (map_option JsStr (paymaster op)) @
     js_opt ''paymasterVerificationGasLimit'' (map_option JsNum (paymasterVerificationGasLimit op)) @
     js_opt ''paymasterPostOpGasLimit'' (map_option JsNum (paymasterPostOpGasLimit op)) @
     js_opt ''paymasterData'' (map_option JsStr (paymasterData op)))"

definition js_of_response :: "rpc_env \<Rightarrow> operation \<Rightarrow> mined_tx \<Rightarrow> js_value" where
  "js_of_response R op tx = JsObj [(''userOperation'', js_of_operation op), (''entryPoint'', JsStr (rpc_entryPoint R)),
     (''transactionHash'', JsStr (tx_hash tx)), (''blockHash'', JsStr (or_else (tx_blockHash tx) [])),
     (''blockNumber'', JsNum (or_else (tx_blockNumber tx) 0))]"

definition getUserOperationByHash :: "rpc_env \<Rightarrow> js_value \<Rightarrow> js_value res" where
  "getUserOperationByHash R userOpHash' =
     bindE (require_hash userOpHash' ''Missing/invalid userOpHash'' InvalidFields) (\<lambda>_.
     bindE (getUserOperationEvent R (js_text userOpHash')) (\<lambda>event.
       case event of
         None \<Rightarrow> Inr JsNull
       | Some ev \<Rightarrow>
           bindE (ue_transaction ev) (\<lambda>tx.
           if tx_to tx \<noteq> Some (rpc_entryPoint R) then Inl (JsError ''unable to parse transaction'' None)
           else bindE (tx_ops tx) (\<lambda>parsed.
             case parsed of
               None \<Rightarrow> Inl (JsError ''failed to parse transaction'' None)
             | Some ops \<Rightarrow>
                 bindE (find_packed (rpc_hex R) (ue_sender ev) (ue_nonce ev) ops) (\<lambda>found.
                 case found of
                   None \<Rightarrow> Inl (JsError ''unable to find userOp in transaction'' None)
                 | Some p \<Rightarrow>
                     bindE (unpackUserOp (rpc_hex R) p) (\<lambda>op.
                       deepHexlify (rpc_hex R) (js_of_response R op tx)))))))"

definition getUserOperationReceipt :: "rpc_env \<Rightarrow> js_value \<Rightarrow> js_value res" where
  "getUserOperationReceipt R userOpHash' =
     bindE (require_hash userOpHash' ''Missing/invalid userOpHash'' InvalidFields) (\<lambda>_.
     bindE (getUserOperationEvent R (js_text userOpHash')) (\<lambda>event.
       case event of
         None \<Rightarrow> Inr JsNull
       | Some ev \<Rightarrow>
           bindE (ue_receipt ev) (\<lambda>(receiptLogs, receipt).
           bindE (filterLogs R ev receiptLogs) (\<lambda>logs.
             deepHexlify (rpc_hex R) (JsObj [
               (''userOpHash'', userOpHash'), (''sender'', JsStr (ue_sender ev)), (''nonce'', JsNum (ue_nonce ev)),
               (''actualGasCost'', JsNum (ue_actualGasCost ev)), (''actualGasUsed'', JsNum (ue_actualGasUsed ev)),
               (''success'', JsBool (ue_success ev)), (''logs'', JsArr (map lg_value logs)), (''receipt'', receipt)])))))"

section \<open>RIP-7560 methods\<close>

text \<open>\<^verbatim>\<open>a ?? b\<close>\<close>

definition js_or :: "js_value \<Rightarrow> js_value \<Rightarrow> js_value" where
  "js_or a b = (if a = JsNull then b else a)"

text \<open>\<^verbatim>\<open>MethodHandlerRIP7560._validateParameters\<close> writes these fields into the request.\<close>

definition rip_validateParameters :: "js_value obj \<Rightarrow> js_value obj" where
  "rip_validateParameters fs0 =
     (let fs1 = AList.update ''deployer'' (js_or (js_field fs0 ''factory'') (JsStr AddressZero)) fs0;
          fs2 = AList.update ''deployerData'' (js_or (js_field fs1 ''factoryData'') (JsStr ''0x'')) fs1;
          fs3 = AList.update ''paymaster'' (js_or (js_field fs2 ''paymaster'') (JsStr AddressZero)) fs2;
          fs4 = AList.update ''paymasterData'' (js_or (js_field fs3 ''paymasterData'') (JsStr ''0x'')) fs3;
          fs5 = AList.update ''callGasLimit'' (js_or (js_field fs4 ''callGasLimit'') (js_field fs4 ''gas'')) fs4;
          fs6 = AList.update ''gas'' (js_field fs5 ''callGasLimit'') fs5;
          fs7 = AList.update ''verificationGasLimit'' (js_or (js_field fs6 ''verificationGasLimit'') (js_field fs6 ''validationGas'')) fs6
      in AList.update ''paymasterVerificationGasLimit''
           (js_or (js_field fs7 ''paymasterVerificationGasLimit'') (js_field fs7 ''paymasterValidationGas'')) fs7)"

text \<open>The log line computes the packed nonce, which can throw.\<close>

definition sendRIP7560Transaction ::
  "rpc_env \<Rightarrow> exec_config \<Rightarrow> ('z exec_state_scheme, 'r) bundle_manager \<Rightarrow> validation_manager \<Rightarrow> (string \<Rightarrow> int res) \<Rightarrow>
     js_value obj \<Rightarrow> bool \<Rightarrow> ('z exec_state_scheme, string) act" where
  "sendRIP7560Transaction R ec bm vm bal transaction skipValidation' =
     (let op = rpc_op R (rip_validateParameters transaction) in
      thenM (liftE (getPackedNonce (rpc_lib R) op))
      (thenM (sendUserOperation ec bm vm bal op [] skipValidation')
      (liftE (getRIP7560TransactionHash (rpc_rip R) op True))))"

definition getRip7560Bundle ::
  "('z exec_state_scheme, 'r) bundle_manager \<Rightarrow> bundle_limits \<Rightarrow>
     ('z exec_state_scheme, operation list \<times> authorization list \<times> storage_map) act" where
  "getRip7560Bundle bm limits = exec_createBundle bm limits"

definition getRIP7560TransactionReceipt :: "rpc_env \<Rightarrow> js_value \<Rightarrow> js_value res" where
  "getRIP7560TransactionReceipt R txHash =
     bindE (require_hash txHash ''Missing/invalid userOpHash'' MethodNotFound) (\<lambda>_. rpc_txReceipt R (js_text txHash))"

end
