(* ===== verification/BundlerServer.thy ===== *)
theory BundlerServer
  imports RpcMethods ValidationManager
begin

text \<open>
  \<^verbatim>\<open>packages/bundler/src/BundlerServer.ts\<close> and \<^verbatim>\<open>packages/bundler/src/DebugMethodHandler.ts\<close>:
  the JSON-RPC front end. Its state is that of the bundler, with the gas prices of the method
  handler and the validation manager in use, which a debug request can replace. The HTTP server is
  not modelled: a request is the parsed body, a response the value handed to \<^verbatim>\<open>res.send\<close>; an error
  outside every \<^verbatim>\<open>try\<close> leaves the request without a response.
\<close>

section \<open>State and environment\<close>

text \<open>\<open>exec_vm\<close> is the validation manager of the execution manager with its parser, \<open>None\<close> for a
  \<^verbatim>\<open>ValidationManagerRIP7560\<close>. The configuration object of its gas calculator is the merged one of
  \<^verbatim>\<open>initServer\<close>, of which \<open>vm_senderCreator\<close> is a property and the gas prices are \<open>ve_pvg\<close>.\<close>

record server_state = exec_state +
  method_pvg :: pvg_config
  exec_vm :: "(vm_env \<times> parser) option"
  vm_senderCreator :: "string option"

text \<open>Conversions between JSON and the data of the bundler, and what only the node can answer.\<close>

record 'r codec =
  cd_op :: "operation \<Rightarrow> js_value"
  cd_bigNumber :: "js_value \<Rightarrow> int option"
  cd_number :: "js_value \<Rightarrow> int"
    \<comment> \<open>the number JavaScript arithmetic makes of a value\<close>
  cd_reputation :: "js_value \<Rightarrow> (string \<times> int \<times> int) list res"
  cd_merge :: "pvg_config \<Rightarrow> js_value \<Rightarrow> pvg_config"
    \<comment> \<open>\<^verbatim>\<open>Object.assign({}, configuration, configOverrides)\<close>\<close>
  cd_senderCreator :: "js_value \<Rightarrow> string option"
    \<comment> \<open>the \<^verbatim>\<open>senderCreator\<close> of the overrides\<close>
  cd_sent :: "'r \<Rightarrow> js_value"
  cd_wrapped :: "js_error \<Rightarrow> js_error option"
    \<comment> \<open>\<^verbatim>\<open>err.error\<close> if it is an \<^verbatim>\<open>Error\<close>\<close>
  cd_debugInfo :: "js_value \<Rightarrow> js_value res"
  cd_chainId :: "int res"
  cd_depositInfo :: "js_value \<Rightarrow> string \<Rightarrow> (int \<times> int) res"

record ('s, 'r) server =
  sv_rpc :: rpc_env
  sv_exec :: exec_config
  sv_bm :: "('s, 'r) bundle_manager"
  sv_mk :: "(vm_env \<times> parser) option \<Rightarrow> validation_manager"
  sv_balance :: "string \<Rightarrow> int res"
  sv_debugRpc :: bool
  sv_blockNumber :: "int res"
  sv_events :: "int \<Rightarrow> chain_event list res"
  sv_codec :: "'r codec"

section \<open>The debug methods\<close>

datatype bundle_interval = IntervalManual | IntervalAuto | IntervalNumber int

definition read_interval :: "'r codec \<Rightarrow> js_value \<Rightarrow> bundle_interval option" where
  "read_interval D v =
     (if v = JsNull then None else if v = JsStr ''auto'' then Some IntervalAuto
      else if v = JsStr ''manual'' then Some IntervalManual else Some (IntervalNumber (cd_number D v)))"

definition setBundleInterval :: "bundle_interval option \<Rightarrow> int \<Rightarrow> ('z exec_state_scheme, unit) act" where
  "setBundleInterval interval maxPoolSize =
     (case interval of
        None \<Rightarrow> throwM (JsError ''must specify interval <number>|manual|auto'' None)
      | Some IntervalAuto \<Rightarrow> modifyM (setAutoBundler 0 0)
      | Some IntervalManual \<Rightarrow> modifyM (setAutoBundler 0 1000)
      | Some (IntervalNumber n) \<Rightarrow> modifyM (setAutoBundler n maxPoolSize))"

definition setBundlingMode :: "bundle_interval option \<Rightarrow> ('z exec_state_scheme, unit) act" where
  "setBundlingMode mode = setBundleInterval mode 100"

definition sendBundleNow ::
  "exec_config \<Rightarrow> ('z exec_state_scheme, 'r) bundle_manager \<Rightarrow> int res \<Rightarrow> (int \<Rightarrow> chain_event list res) \<Rightarrow>
     ('z exec_state_scheme, 'r option) act" where
  "sendBundleNow ec bm bn q =
     bindM (attemptBundle ec bm True) (\<lambda>ret. thenM (handlePastEvents bn q) (retM ret))"

definition debug_clearState :: "'z pool_state_scheme \<Rightarrow> 'z pool_state_scheme" where
  "debug_clearState s = rep_clearState (pool_clearState s)"

text \<open>
  The configuration object of the request is checked against no shape (\<^verbatim>\<open>DebugMethodHandler.ts\<close>,
  line 86). The new validation manager has a new parser, and no provider for a tracer of its own.
\<close>

definition setConfiguration :: "'r codec \<Rightarrow> js_value \<Rightarrow> ('z server_state_scheme, pvg_config) act" where
  "setConfiguration D configOverrides =
     bindM (getM (\<lambda>s. (exec_vm s, vm_senderCreator s))) (\<lambda>(vm, configured).
       case vm of
         None \<Rightarrow> throwM (JsError ''Method not implemented.'' None)
       | Some (V, p) \<Rightarrow>
           (let pvgc = cd_merge D (ve_pvg V) configOverrides;
                merged = (if cd_senderCreator D configOverrides = None then configured else cd_senderCreator D configOverrides);
                erc7562Parser = new_parser (ve_lib V) (ve_entryPoint V) (or_else merged []) None
            in thenM (modifyM (\<lambda>s. s\<lparr>exec_vm := Some (V\<lparr>ve_pvg := pvgc, ve_native := True\<rparr>, erc7562Parser), vm_senderCreator := merged\<rparr>))
                 (retM pvgc)))"

definition status_number :: "reputation_status \<Rightarrow> int" where
  "status_number st = (case st of OK \<Rightarrow> 0 | THROTTLED \<Rightarrow> 1 | BANNED \<Rightarrow> 2)"

definition js_of_entry :: "reputation_entry \<Rightarrow> js_value" where
  "js_of_entry e = JsObj ([(''address'', JsStr (rep_address e)), (''opsSeen'', JsNum (opsSeen e)),
     (''opsIncluded'', JsNum (opsIncluded e))] @ js_opt ''status'' (map_option (\<lambda>st. JsNum (status_number st)) (rep_status e)))"

definition js_of_stakeStatus :: "stake_info \<times> bool \<Rightarrow> js_value" where
  "js_of_stakeStatus = (\<lambda>(info, staked). JsObj [(''stakeInfo'', JsObj [(''addr'', JsStr (addr info)),
     (''stake'', JsNum (stake info)), (''unstakeDelaySec'', JsNum (unstakeDelaySec info))]), (''isStaked'', JsBool staked)])"

section \<open>Dispatch\<close>

text \<open>\<^verbatim>\<open>params[i]\<close> and \<^verbatim>\<open>v.key\<close>; a read from a missing value is a type error.\<close>

definition type_error :: js_error where
  "type_error = JsError ''Cannot read properties of undefined'' None"

definition js_index :: "js_value \<Rightarrow> nat \<Rightarrow> js_value res" where
  "js_index v i =
     (case v of
        JsNull \<Rightarrow> Inl type_error
      | JsArr vs \<Rightarrow> Inr (if i < length vs then vs ! i else JsNull)
      | JsStr s \<Rightarrow> Inr (if i < length s then JsStr [s ! i] else JsNull)
      | JsObj fs \<Rightarrow> Inr (js_field fs (show_int (int i)))
      | _ \<Rightarrow> Inr JsNull)"

definition js_get :: "js_value \<Rightarrow> string \<Rightarrow> js_value res" where
  "js_get v key = (case js_props v of None \<Rightarrow> Inl type_error | Some fs \<Rightarrow> Inr (js_field fs key))"

definition not_supported :: "string \<Rightarrow> js_error" where
  "not_supported method = RpcError (''Method '' @ method @ '' is not supported'') (error_code MethodNotFound) []"

text \<open>The proxy that replaces the debug handler when \<^verbatim>\<open>debugRpc\<close> is off throws on every access.\<close>

definition debug_call :: "('s, 'r) server \<Rightarrow> string \<Rightarrow> ('s, 'a) act \<Rightarrow> ('s, 'a) act" where
  "debug_call S name m =
     (if sv_debugRpc S then m
      else throwM (RpcError (''method debug_bundler_'' @ name @ '' is not supported'') (error_code MethodNotFound) []))"

definition rip_only :: "('s, 'r) server \<Rightarrow> string \<Rightarrow> ('s, 'a) act \<Rightarrow> ('s, 'a) act" where
  "rip_only S method m = (if rip7560 (sv_exec S) then m else throwM (not_supported method))"

definition with_param :: "js_value \<Rightarrow> nat \<Rightarrow> (js_value \<Rightarrow> ('s, 'a) act) \<Rightarrow> ('s, 'a) act" where
  "with_param ps i f = bindM (liftE (js_index ps i)) f"

definition ok_result :: "('s, unit) act \<Rightarrow> ('s, js_value) act" where
  "ok_result m = thenM m (retM (JsStr ''ok''))"

text \<open>Lines 212 to 219 and 221 to 237.\<close>

definition rip_bundle :: "('z server_state_scheme, 'r) server \<Rightarrow> js_value \<Rightarrow> ('z server_state_scheme, js_value) act" where
  "rip_bundle S ps =
     with_param ps 0 (\<lambda>p.
     bindM (liftE (js_get p ''MinBaseFee'')) (\<lambda>minBaseFee.
     bindM (liftE (js_get p ''MaxBundleGas'')) (\<lambda>maxBundleGas'.
     bindM (liftE (js_get p ''MaxBundleSize'')) (\<lambda>maxBundleSize.
     let num = cd_bigNumber (sv_codec S) in
     bindM (getRip7560Bundle (sv_bm S) \<lparr>lim_minBaseFee = num minBaseFee, lim_maxBundleGas = num maxBundleGas',
              lim_maxBundleSize = num maxBundleSize\<rparr>) (\<lambda>(bundle, auths, sm).
       retM (JsObj [(''bundle'', JsArr (map (cd_op (sv_codec S)) bundle)), (''validForBlock'', JsStr ''0x0'')]))))))"

definition rip_send :: "('z server_state_scheme, 'r) server \<Rightarrow> js_value \<Rightarrow> bool \<Rightarrow> ('z server_state_scheme, js_value) act" where
  "rip_send S ps skip =
     with_param ps 0 (\<lambda>tx.
     bindM (liftE (js_get tx ''sender'')) (\<lambda>snd'.
     if snd' = JsNull then retM JsNull
     else bindM (getM exec_vm) (\<lambda>vm.
       bindM (sendRIP7560Transaction (sv_rpc S) (sv_exec S) (sv_bm S) (sv_mk S vm) (sv_balance S) (the (js_props tx)) skip)
         (\<lambda>h. retM (JsStr h)))))"

text \<open>The response of an estimate; a number that is not an integer cannot be made hexadecimal.\<close>

definition js_of_estimate :: "estimate_result \<Rightarrow> js_value res" where
  "js_of_estimate e =
     bindE (bn_of_number (es_preVerificationGas e)) (\<lambda>pvg.
     bindE (bn_of_number (es_callGasLimit e)) (\<lambda>callGas.
       Inr (JsObj [(''preVerificationGas'', JsNum pvg), (''verificationGasLimit'', JsNum (es_verificationGasLimit e)),
         (''validAfter'', JsNum (es_validAfter e)), (''validUntil'', JsNum (es_validUntil e)), (''callGasLimit'', JsNum callGas)])))"

definition handle_rip :: "('z server_state_scheme, 'r) server \<Rightarrow> string \<Rightarrow> js_value \<Rightarrow> ('z server_state_scheme, js_value) act option" where
  "handle_rip S method ps =
     (if method = ''aa_getRip7560Bundle'' then Some (rip_only S method (rip_bundle S ps))
      else if method = ''eth_sendTransaction'' then Some (rip_only S method (rip_send S ps False))
      else if method = ''debug_bundler_sendTransactionSkipValidation'' then Some (rip_only S method (rip_send S ps True))
      else if method = ''eth_getRip7560TransactionDebugInfo''
      then Some (with_param ps 0 (\<lambda>p. liftE (cd_debugInfo (sv_codec S) p)))
      else if method = ''eth_getTransactionReceipt''
      then Some (rip_only S method (with_param ps 0 (\<lambda>p. liftE (getRIP7560TransactionReceipt (sv_rpc S) p))))
      else None)"

definition handle_4337 :: "('z server_state_scheme, 'r) server \<Rightarrow> string \<Rightarrow> js_value \<Rightarrow> ('z server_state_scheme, js_value) act option" where
  "handle_4337 S method ps =
     (if method = ''eth_chainId'' then Some (bindM (liftE (cd_chainId (sv_codec S))) (\<lambda>n. retM (JsNum n)))
      else if method = ''eth_supportedEntryPoints''
      then Some (retM (JsArr (map JsStr (getSupportedEntryPoints (sv_rpc S)))))
      else if method = ''eth_sendUserOperation''
      then Some (with_param ps 0 (\<lambda>op. with_param ps 1 (\<lambda>ep.
             bindM (getM exec_vm) (\<lambda>vm.
             bindM (rpc_sendUserOperation (sv_rpc S) (sv_exec S) (sv_bm S) (sv_mk S vm) (sv_balance S) op ep) (\<lambda>h. retM (JsStr h))))))
      else if method = ''eth_estimateUserOperationGas''
      then Some (with_param ps 0 (\<lambda>op. with_param ps 1 (\<lambda>ep. with_param ps 2 (\<lambda>so.
             bindM (getM method_pvg) (\<lambda>pvg.
             liftE (bindE (estimateUserOperationGas ((sv_rpc S)\<lparr>rpc_pvg := pvg\<rparr>) op ep so) js_of_estimate))))))
      else if method = ''eth_getUserOperationReceipt''
      then Some (with_param ps 0 (\<lambda>h. liftE (getUserOperationReceipt (sv_rpc S) h)))
      else if method = ''eth_getUserOperationByHash''
      then Some (with_param ps 0 (\<lambda>h. liftE (getUserOperationByHash (sv_rpc S) h)))
      else if method = ''web3_clientVersion'' then Some (retM (JsStr (clientVersion (sv_rpc S))))
      else None)"

text \<open>A default parameter takes the place of a missing \<^verbatim>\<open>maxPoolSize\<close>.\<close>

definition pool_size_param :: "'r codec \<Rightarrow> js_value \<Rightarrow> int" where
  "pool_size_param D v = (if v = JsNull then 100 else cd_number D v)"

definition handle_debug :: "('z server_state_scheme, 'r) server \<Rightarrow> string \<Rightarrow> js_value \<Rightarrow> ('z server_state_scheme, js_value) act option" where
  "handle_debug S method ps =
     (let D = sv_codec S in
      if method = ''debug_bundler_clearState''
      then Some (debug_call S ''clearState'' (ok_result (modifyM debug_clearState)))
      else if method = ''debug_bundler_dumpMempool''
      then Some (debug_call S ''dumpMempool'' (bindM (getM pool_dump) (\<lambda>ops. retM (JsArr (map (cd_op D) ops)))))
      else if method = ''debug_bundler_clearMempool''
      then Some (debug_call S ''clearMempool'' (ok_result (modifyM pool_clearState)))
      else if method = ''debug_bundler_setReputation''
      then Some (debug_call S ''setReputation'' (with_param ps 0 (\<lambda>p.
             bindM (liftE (cd_reputation D p)) (\<lambda>reps. ok_result (bindM (setReputation reps) (\<lambda>_. retM ()))))))
      else if method = ''debug_bundler_dumpReputation''
      then Some (debug_call S ''dumpReputation'' (\<lambda>s. case rep_dump s of (d, s') \<Rightarrow> (Inr (JsArr (map js_of_entry d)), s')))
      else if method = ''debug_bundler_clearReputation''
      then Some (debug_call S ''clearReputation'' (ok_result (modifyM rep_clearState)))
      else if method = ''debug_bundler_setBundlingMode''
      then Some (debug_call S ''setBundlingMode'' (with_param ps 0 (\<lambda>p. ok_result (setBundlingMode (read_interval D p)))))
      else if method = ''debug_bundler_setBundleInterval''
      then Some (debug_call S ''setBundleInterval'' (with_param ps 0 (\<lambda>p. with_param ps 1 (\<lambda>m.
             ok_result (setBundleInterval (read_interval D p) (pool_size_param D m))))))
      else if method = ''debug_bundler_sendBundleNow''
      then Some (debug_call S ''sendBundleNow'' (bindM (sendBundleNow (sv_exec S) (sv_bm S) (sv_blockNumber S) (sv_events S))
             (\<lambda>ret. retM (case ret of None \<Rightarrow> JsStr ''ok'' | Some r \<Rightarrow> cd_sent D r))))
      else if method = ''debug_bundler_getStakeStatus''
      then Some (debug_call S ''getStakeStatus'' (with_param ps 0 (\<lambda>a. with_param ps 1 (\<lambda>ep.
             bindM (\<lambda>s. (getStakeStatus (cd_depositInfo D ep) (js_text a) s, s)) (\<lambda>st. retM (js_of_stakeStatus st))))))
      else if method = ''debug_bundler_setConfiguration''
      then Some (debug_call S ''_setConfiguration'' (with_param ps 0 (\<lambda>p.
             bindM (setConfiguration D p) (\<lambda>pvgc.
             thenM (modifyM (\<lambda>s. s\<lparr>method_pvg := pvgc\<rparr>)) (retM (JsObj []))))))
      else None)"

definition handleMethod :: "('z server_state_scheme, 'r) server \<Rightarrow> string \<Rightarrow> js_value \<Rightarrow> ('z server_state_scheme, js_value) act" where
  "handleMethod S method ps =
     (case handle_rip S method ps of
        Some m \<Rightarrow> m
      | None \<Rightarrow> (case handle_4337 S method ps of
          Some m \<Rightarrow> m
        | None \<Rightarrow> (case handle_debug S method ps of
            Some m \<Rightarrow> m
          | None \<Rightarrow> throwM (not_supported method))))"

section \<open>Requests and responses\<close>

record error_object =
  eo_message :: string
  eo_data :: "(string \<times> string) list"
  eo_code :: "int option"

record response =
  rs_jsonrpc :: js_value
  rs_id :: js_value
  rs_body :: "error_object + js_value"

definition error_of :: "js_error \<Rightarrow> error_object" where
  "error_of err = (case err of
     RpcError m c d \<Rightarrow> \<lparr>eo_message = m, eo_data = d, eo_code = Some c\<rparr>
   | JsError m c \<Rightarrow> \<lparr>eo_message = m, eo_data = [], eo_code = c\<rparr>)"

definition unwrap_error :: "'r codec \<Rightarrow> js_error \<Rightarrow> js_error" where
  "unwrap_error D err = or_else (cd_wrapped D err) err"

definition respond :: "js_value obj \<Rightarrow> (error_object + js_value) \<Rightarrow> response" where
  "respond fs body = \<lparr>rs_jsonrpc = js_field fs ''jsonrpc'', rs_id = js_field fs ''id'', rs_body = body\<rparr>"

text \<open>\<^verbatim>\<open>${fs.key}\<close> in a template literal, where a missing property and \<^verbatim>\<open>null\<close> are named.\<close>

definition template_text :: "js_value obj \<Rightarrow> string \<Rightarrow> string" where
  "template_text fs key =
     (case obj_get fs key of None \<Rightarrow> ''undefined'' | Some JsNull \<Rightarrow> ''null'' | Some v \<Rightarrow> js_text v)"

text \<open>\<^verbatim>\<open>switch (method)\<close> compares with strings: any other value is an unknown method.\<close>

definition dispatch :: "('z server_state_scheme, 'r) server \<Rightarrow> js_value obj \<Rightarrow> ('z server_state_scheme, js_value) act" where
  "dispatch S fs =
     (let m = js_field fs ''method''; ps = js_field fs ''params'' in
      if is_text m then handleMethod S (js_text m) ps else throwM (not_supported (template_text fs ''method'')))"

definition handleRpc :: "('z server_state_scheme, 'r) server \<Rightarrow> js_value \<Rightarrow> ('z server_state_scheme, response) act" where
  "handleRpc S reqItem =
     (case js_props reqItem of
        None \<Rightarrow> throwM type_error
      | Some fs \<Rightarrow>
          catchM
            (bindM (dispatch S fs) (\<lambda>handleResult.
             bindM (liftE (deepHexlify (rpc_hex (sv_rpc S)) handleResult)) (\<lambda>result.
               retM (respond fs (Inr result)))))
            (\<lambda>err. retM (respond fs (Inl (error_of (unwrap_error (sv_codec S) err))))))"

definition not_available :: "js_value obj \<Rightarrow> response" where
  "not_available fs = respond fs (Inl \<lparr>
     eo_message = ''requested RPC method ('' @ template_text fs ''method'' @ '') is not available'',
     eo_data = [], eo_code = Some (error_code InvalidRequest)\<rparr>)"

definition handleRpcPublic :: "('z server_state_scheme, 'r) server \<Rightarrow> js_value \<Rightarrow> ('z server_state_scheme, response) act" where
  "handleRpcPublic S reqItem =
     (case js_props reqItem of
        None \<Rightarrow> throwM type_error
      | Some fs \<Rightarrow>
          if js_field fs ''method'' = JsStr ''aa_getRip7560Bundle'' then retM (not_available fs)
          else handleRpc S reqItem)"

definition handleRpcPrivate :: "('z server_state_scheme, 'r) server \<Rightarrow> js_value \<Rightarrow> ('z server_state_scheme, response) act" where
  "handleRpcPrivate S reqItem =
     (case js_props reqItem of
        None \<Rightarrow> throwM type_error
      | Some fs \<Rightarrow>
          if js_field fs ''method'' \<noteq> JsStr ''aa_getRip7560Bundle'' then retM (not_available fs)
          else handleRpc S reqItem)"

datatype response_body = Single response | Batch "response list"

fun handle_batch :: "(js_value \<Rightarrow> ('s, response) act) \<Rightarrow> js_value list \<Rightarrow> ('s, response list) act" where
  "handle_batch handle [] = retM []"
| "handle_batch handle (r # rs) = bindM (handle r) (\<lambda>x. bindM (handle_batch handle rs) (\<lambda>xs. retM (x # xs)))"

definition getRpc :: "(js_value \<Rightarrow> ('s, response) act) \<Rightarrow> js_value \<Rightarrow> ('s, response_body) act" where
  "getRpc handle body =
     (case body of
        JsArr rs \<Rightarrow> bindM (handle_batch handle rs) (\<lambda>xs. retM (Batch xs))
      | _ \<Rightarrow> bindM (handle body) (\<lambda>x. retM (Single x)))"

end
