(* ===== verification/RpcSound.thy ===== *)
theory RpcSound
  imports RpcMethods ValidationSound
begin

text \<open>
  What the RPC methods of \<open>RpcMethods\<close> promise: the logs of a receipt, the operation found by
  its hash, what is refused before the bundler sees it, agreement of the two copies of the
  request check, and the default paymaster of RIP-7560 transactions.
\<close>

section \<open>The logs of a receipt\<close>

definition is_before :: "rpc_env \<Rightarrow> log_entry \<Rightarrow> bool" where
  "is_before R l \<longleftrightarrow> nth_topic (lg_topics l) 0 = Some (rpc_beforeExecution R)"

definition is_op_event :: "uo_event \<Rightarrow> log_entry \<Rightarrow> bool" where
  "is_op_event ev l \<longleftrightarrow> nth_topic (lg_topics l) 0 = nth_topic (ue_topics ev) 0"

definition is_own :: "uo_event \<Rightarrow> log_entry \<Rightarrow> bool" where
  "is_own ev l \<longleftrightarrow> is_op_event ev l \<and> nth_topic (lg_topics l) 1 = nth_topic (ue_topics ev) 1"

definition no_mark :: "rpc_env \<Rightarrow> uo_event \<Rightarrow> log_entry \<Rightarrow> bool" where
  "no_mark R ev l \<longleftrightarrow> \<not> is_before R l \<and> \<not> is_own ev l"

lemma scan_log_cases:
  "scan_log R ev (i, l) (st, en) =
     (if is_before R l then (int i, int i)
      else if is_own ev l then (st, int i)
      else if is_op_event ev l \<and> en = -1 then (int i, en) else (st, en))"
  by (simp add: scan_log_def is_before_def is_own_def is_op_event_def)

lemma scan_started:
  "list_all (\<lambda>l. \<not> is_before R l) ls \<Longrightarrow> 0 \<le> en \<Longrightarrow>
     \<exists>en'. fold (scan_log R ev) (enumerate n ls) (st, en) = (st, en') \<and> 0 \<le> en'"
  by (induction ls arbitrary: n en) (auto simp: scan_log_cases)

lemma scan_after_own:
  "list_all (no_mark R ev) ls \<Longrightarrow> 0 \<le> en \<Longrightarrow>
     fold (scan_log R ev) (enumerate n ls) (st, en) = (st, en)"
  by (induction ls arbitrary: n) (auto simp: scan_log_cases no_mark_def)

text \<open>After \<^verbatim>\<open>BeforeExecution\<close> only the end of the range moves.\<close>

lemma filterLogs_between:
  assumes "is_before R b" and mid: "list_all (\<lambda>l. \<not> is_before R l) mid"
    and "is_own ev own" "\<not> is_before R own"
    and post: "list_all (no_mark R ev) post"
  shows "filterLogs R ev (pre @ b # mid @ own # post) = Inr mid"
proof -
  obtain st en where "fold (scan_log R ev) (enumerate 0 pre) (-1, -1) = (st, en)" by fastforce
  moreover obtain en' where
    "fold (scan_log R ev) (enumerate (Suc (length pre)) mid) (int (length pre), int (length pre)) = (int (length pre), en')"
    using scan_started [OF mid, of "int (length pre)" ev "Suc (length pre)" "int (length pre)"] by fastforce
  ultimately have "fold (scan_log R ev) (enumerate 0 (pre @ b # mid @ own # post)) (-1, -1) =
      (int (length pre), int (Suc (length pre + length mid)))"
    using assms(1,3,4) scan_after_own [OF post]
    by (simp add: enumerate_append_eq scan_log_cases)
  then show ?thesis by (simp add: filterLogs_def nat_add_distrib)
qed

text \<open>
  The logs of a bundle: those of the validations, \<^verbatim>\<open>BeforeExecution\<close>, and then for every
  operation its logs followed by its own \<^verbatim>\<open>UserOperationEvent\<close>.
\<close>

definition execution_logs :: "(log_entry list \<times> log_entry) list \<Rightarrow> log_entry list" where
  "execution_logs segs = concat (map (\<lambda>(ls, e). ls @ [e]) segs)"

definition bundle_logs :: "log_entry list \<Rightarrow> log_entry \<Rightarrow> (log_entry list \<times> log_entry) list \<Rightarrow> log_entry list \<Rightarrow> log_entry list" where
  "bundle_logs pre b segs post = pre @ b # execution_logs segs @ post"

definition segment_ok :: "rpc_env \<Rightarrow> uo_event \<Rightarrow> log_entry list \<times> log_entry \<Rightarrow> bool" where
  "segment_ok R ev seg \<longleftrightarrow> list_all (\<lambda>l. \<not> is_before R l \<and> \<not> is_op_event ev l) (fst seg) \<and>
     is_op_event ev (snd seg) \<and> \<not> is_before R (snd seg)"

definition event_hash :: "log_entry list \<times> log_entry \<Rightarrow> string option" where
  "event_hash seg = nth_topic (lg_topics (snd seg)) 1"

definition well_logged :: "rpc_env \<Rightarrow> uo_event \<Rightarrow> (log_entry list \<times> log_entry) list \<Rightarrow> log_entry list \<Rightarrow> bool" where
  "well_logged R ev segs post \<longleftrightarrow> list_all (segment_ok R ev) segs \<and>
     list_all (\<lambda>l. \<not> is_before R l \<and> \<not> is_op_event ev l) post \<and> distinct (map event_hash segs)"

lemma execution_logs_simps [simp]:
  "execution_logs [] = []" "execution_logs ((ls, e) # segs) = ls @ e # execution_logs segs"
  "execution_logs (xs @ ys) = execution_logs xs @ execution_logs ys"
  by (simp_all add: execution_logs_def)

lemma is_own_event: "is_own ev l \<Longrightarrow> is_op_event ev l"
  by (simp add: is_own_def)

lemma is_own_hash: "is_own ev (snd seg) \<Longrightarrow> event_hash seg = nth_topic (ue_topics ev) 1"
  by (simp add: is_own_def event_hash_def)

lemma segments_after_before:
  "list_all (segment_ok R ev) segs \<Longrightarrow> list_all (\<lambda>l. \<not> is_before R l) (execution_logs segs)"
proof (induction segs)
  case (Cons seg segs)
  obtain ls e where seg: "seg = (ls, e)" by fastforce
  have "list_all (\<lambda>l. \<not> is_before R l) ls" "\<not> is_before R e"
    using Cons.prems by (auto simp: seg segment_ok_def list.pred_set)
  then show ?case using Cons by (simp add: seg)
qed simp

lemma other_segments_unmarked:
  "list_all (segment_ok R ev) segs \<Longrightarrow> list_all (\<lambda>seg. \<not> is_own ev (snd seg)) segs \<Longrightarrow>
     list_all (no_mark R ev) (execution_logs segs)"
proof (induction segs)
  case (Cons seg segs)
  obtain ls e where seg: "seg = (ls, e)" by fastforce
  have "list_all (no_mark R ev) ls"
    using Cons.prems(1) is_own_event [of ev] by (auto simp: seg segment_ok_def no_mark_def list.pred_set)
  moreover have "no_mark R ev e" using Cons.prems by (simp add: seg segment_ok_def no_mark_def)
  ultimately show ?case using Cons by (simp add: seg)
qed simp

lemma well_logged_split:
  assumes "well_logged R ev (xs @ (ls, e) # ys) post" and "is_own ev e"
  shows "list_all (\<lambda>l. \<not> is_before R l) (execution_logs xs @ ls)" "\<not> is_before R e"
    and "list_all (no_mark R ev) (execution_logs ys @ post)"
proof -
  have w: "list_all (segment_ok R ev) xs" "segment_ok R ev (ls, e)" "list_all (segment_ok R ev) ys"
    "list_all (\<lambda>l. \<not> is_before R l \<and> \<not> is_op_event ev l) post" "event_hash (ls, e) \<notin> set (map event_hash ys)"
    using assms(1) by (simp_all add: well_logged_def)
  show "list_all (\<lambda>l. \<not> is_before R l) (execution_logs xs @ ls)"
    using segments_after_before [OF w(1)] w(2) by (auto simp: segment_ok_def list_all_iff)
  show "\<not> is_before R e" using w(2) by (simp add: segment_ok_def)
  have "list_all (\<lambda>seg. \<not> is_own ev (snd seg)) ys"
    using w(5) is_own_hash [of ev "(ls, e)"] assms(2) is_own_hash [of ev]
    by (simp add: list_all_iff) (metis image_eqI)
  then have "list_all (no_mark R ev) (execution_logs ys)" by (rule other_segments_unmarked [OF w(3)])
  moreover have "list_all (no_mark R ev) post"
    using w(4) by (auto simp: list_all_iff no_mark_def dest: is_own_event)
  ultimately show "list_all (no_mark R ev) (execution_logs ys @ post)" by simp
qed

text \<open>C14: the logs in the receipt of the i-th operation of a bundle are those of all operations
  before it, their events included, followed by its own: only the first operation gets exactly
  its own logs.\<close>

theorem receipt_logs_exact:
  assumes "is_before R b" and "well_logged R ev segs post"
    and "i < length segs" and "is_own ev (snd (segs ! i))"
  shows "filterLogs R ev (bundle_logs pre b segs post) = Inr (execution_logs (take i segs) @ fst (segs ! i))"
proof -
  obtain ls e where e: "segs ! i = (ls, e)" by fastforce
  define xs ys where "xs = take i segs" and "ys = drop (Suc i) segs"
  have segs: "segs = xs @ (ls, e) # ys"
    using assms(3) e by (metis id_take_nth_drop xs_def ys_def)
  have own: "is_own ev e" using assms(4) e by simp
  have "well_logged R ev (xs @ (ls, e) # ys) post" using assms(2) segs by simp
  note parts = well_logged_split [OF this own]
  have "filterLogs R ev (pre @ b # (execution_logs xs @ ls) @ e # execution_logs ys @ post) = Inr (execution_logs xs @ ls)"
    by (rule filterLogs_between [OF assms(1) parts(1) own parts(2,3)])
  moreover have "bundle_logs pre b segs post = pre @ b # (execution_logs xs @ ls) @ e # execution_logs ys @ post"
    by (simp add: bundle_logs_def segs)
  ultimately show ?thesis by (simp add: e xs_def)
qed

section \<open>An operation is found by its hash\<close>

lemma packed_key: "packUserOp H op = Inr p \<Longrightarrow> pk_sender p = sender op \<and> pk_nonce p = hx_toHexString H (nonce op)"
  by (auto simp: packUserOp_def bindE_Inr_iff)

lemma find_packed_bundle:
  assumes "hex_laws H" and "mapE (packUserOp H) ops = Inr ps" and "\<forall>op\<in>set ops. 0 \<le> nonce op"
    and "distinct (map (\<lambda>op. (sender op, nonce op)) ops)" and "op \<in> set ops"
  shows "\<exists>p. packUserOp H op = Inr p \<and> find_packed H (sender op) (nonce op) ps = Inr (Some p)"
  using assms(2-)
proof (induction ops arbitrary: ps)
  case (Cons o' ops)
  obtain p qs where p: "packUserOp H o' = Inr p" "mapE (packUserOp H) ops = Inr qs" "ps = p # qs"
    using Cons.prems(1) by (auto simp: bindE_Inr_iff)
  have key: "pk_sender p = sender o'" "hx_bn H (pk_nonce p) = Inr (nonce o')"
    using packed_key [OF p(1)] hex_lawsD(2) [OF assms(1)] Cons.prems(2) by auto
  show ?case
  proof (cases "o' = op")
    case True
    then show ?thesis using p key by simp
  next
    case False
    then have "op \<in> set ops" using Cons.prems(4) by simp
    moreover from this have "(sender op, nonce op) \<in> (\<lambda>op. (sender op, nonce op)) ` set ops" by (rule imageI)
    then have "(sender op, nonce op) \<noteq> (sender o', nonce o')" using Cons.prems(3) by auto
    ultimately show ?thesis using Cons.IH [OF p(2)] Cons.prems(2,3) p(3) key by auto
  qed
qed simp

text \<open>C28: a bundle whose operations fit the packed form and differ in sender or nonce is sent as
  call data of packed operations; once it is mined, asking for one of its operations by hash
  returns that very operation, with the transaction it was mined in.\<close>

theorem operation_found_by_hash:
  assumes "hex_laws (rpc_hex R)" and "\<forall>op\<in>set ops. packable op"
    and "distinct (map (\<lambda>op. (sender op, nonce op)) ops)" and "op \<in> set ops"
    and "mapE (packUserOp (rpc_hex R)) ops = Inr packed" and "tx_ops tx = Inr (Some packed)"
    and "tx_to tx = Some (rpc_entryPoint R)" and "HEX_REGEX h"
    and "rpc_queryEvents R h = Inr (ev # evs)" and "ue_transaction ev = Inr tx"
    and "ue_sender ev = sender op" and "ue_nonce ev = nonce op"
  shows "getUserOperationByHash R (JsStr h) = deepHexlify (rpc_hex R) (js_of_response R op tx)"
proof -
  have "\<forall>op\<in>set ops. 0 \<le> nonce op" using assms(2) by (simp add: packable_def)
  from find_packed_bundle [OF assms(1,5) this assms(3,4)] obtain p where
    p: "packUserOp (rpc_hex R) op = Inr p" "find_packed (rpc_hex R) (sender op) (nonce op) packed = Inr (Some p)" by blast
  moreover have "unpackUserOp (rpc_hex R) p = Inr op"
    using unpack_packed [OF assms(1)] assms(2,4) p(1) by fastforce
  ultimately show ?thesis
    using assms(6-)
    by (simp add: getUserOperationByHash_def require_hash_def requireCond_def getUserOperationEvent_def)
qed

section \<open>Requests refused by the handler\<close>

lemma js_field_key: "js_field fs k \<noteq> JsNull \<Longrightarrow> k \<in> fst ` set fs"
  by (cases "obj_get fs k") (auto simp: js_field_def or_else_def dest!: map_of_SomeD intro: rev_image_eqI)

lemma text_fields_get:
  "obj_get (text_fields fs) k = (if js_field fs k = JsNull then None else Some (js_text (js_field fs k)))"
  by (auto simp: text_fields_def map_of_map_restrict restrict_map_def dest: js_field_key)

lemma text_fields_filter:
  "filter (\<lambda>(name, v). P name) (text_fields fs) = [] \<longleftrightarrow> (\<forall>k. P k \<longrightarrow> js_field fs k = JsNull)"
  by (auto simp: text_fields_def filter_empty_conv dest: js_field_key)

text \<open>An entity's address comes with all its mandatory fields, and without it there is none of them.\<close>

definition entity_fields_ok :: "js_value obj \<Rightarrow> string \<Rightarrow> string list \<Rightarrow> string list \<Rightarrow> bool" where
  "entity_fields_ok fs a must opt \<longleftrightarrow>
     (if js_field fs a = JsNull then \<forall>f\<in>set (must @ opt). js_field fs f = JsNull
      else (\<exists>t. js_field fs a = JsStr t \<and> matches_addr t) \<and> (\<forall>f\<in>set must. js_field fs f \<noteq> JsNull))"

definition hex_field :: "js_value obj \<Rightarrow> string \<Rightarrow> bool" where
  "hex_field fs k \<longleftrightarrow> js_field fs k \<noteq> JsNull \<and> HEX_REGEX (js_text (js_field fs k))"

definition fields_ok :: "bool \<Rightarrow> bool \<Rightarrow> js_value obj \<Rightarrow> bool" where
  "fields_ok requireSignature requireGasParams fs \<longleftrightarrow>
     (\<forall>k\<in>set (handler_fields requireSignature requireGasParams). hex_field fs k) \<and>
     entity_fields_ok fs ''paymaster'' [''paymasterPostOpGasLimit'', ''paymasterVerificationGasLimit''] [''paymasterData''] \<and>
     (js_field fs ''factory'' = JsStr EIP_7702_MARKER_INIT_CODE \<or> entity_fields_ok fs ''factory'' [''factoryData''] [])"

lemma address_and_fields_Inr_iff: "address_and_fields fs a must opt = Inr () \<longleftrightarrow> entity_fields_ok fs a must opt"
proof (cases "js_field fs a")
  case JsNull
  then show ?thesis
    using text_fields_filter [of "\<lambda>name. name \<in> set must \<or> name \<in> set opt" fs]
    by (auto simp: address_and_fields_def requireAddressAndFields_def text_fields_get entity_fields_ok_def
        requireCond_def is_text_def Let_def)
qed (auto simp: address_and_fields_def requireAddressAndFields_def text_fields_get entity_fields_ok_def
    requireCond_def is_text_def Let_def bindE_Inr_iff filter_empty_conv split: if_splits)

lemma handler_field_Inr_iff: "handler_field fs k = Inr () \<longleftrightarrow> hex_field fs k"
  by (auto simp: handler_field_def hex_field_def requireCond_def Let_def)

lemma validateParameters_Inr_iff:
  "validateParameters R userOp1 ep rs rg = Inr () \<longleftrightarrow>
     ep \<noteq> JsNull \<and> toLowerCase (js_text ep) = toLowerCase (cfg_entryPoint R) \<and>
     (\<exists>fs. js_props userOp1 = Some fs \<and> fields_ok rs rg fs)"
  by (auto simp: validateParameters_def fields_ok_def requireCond_def bindE_Inr_iff forE_Inr_iff
      handler_field_Inr_iff address_and_fields_Inr_iff Let_def split: if_splits)


text \<open>a malformed \<^verbatim>\<open>eth_sendUserOperation\<close> request throws and leaves the state of the bundler
  as it was: one for another entry point, without an operation or with malformed fields, or with
  an EIP-7702 tuple where these are not supported.\<close>

theorem malformed_request_refused:
  assumes "\<not> (\<exists>fs. js_props userOp1 = Some fs \<and> fields_ok True True fs \<and>
              (cfg_eip7702Support R \<or> js_field fs ''eip7702Auth'' = JsNull)) \<or>
           toLowerCase (js_text ep) \<noteq> toLowerCase (cfg_entryPoint R)"
  shows "\<exists>e. rpc_sendUserOperation R ec bm vm bal userOp1 ep s = (Inl e, s)"
proof -
  have "check_7702_support R userOp1 \<noteq> Inr () \<or> validateParameters R userOp1 ep True True \<noteq> Inr ()"
    using assms by (auto simp: validateParameters_Inr_iff check_7702_support_def split: if_splits option.splits)
  then show ?thesis
    by (cases "check_7702_support R userOp1"; cases "validateParameters R userOp1 ep True True")
       (auto simp: rpc_sendUserOperation_def monad_simps)
qed

section \<open>The two copies of the request check\<close>

definition null_or_text :: "js_value obj \<Rightarrow> string \<Rightarrow> bool" where
  "null_or_text fs k \<longleftrightarrow> js_field fs k = JsNull \<or> is_text (js_field fs k)"

lemma requireAddressAndFields_text:
  "null_or_text fs a \<Longrightarrow>
     requireAddressAndFields (text_fields fs) a must opt = Inr () \<longleftrightarrow> entity_fields_ok fs a must opt"
  by (auto simp: address_and_fields_Inr_iff [symmetric] address_and_fields_def null_or_text_def Let_def)

lemma check_field_text: "check_field V (text_fields fs) k = Inr () \<longleftrightarrow> hex_field fs k"
  by (simp add: check_field_def text_fields_get hex_field_def requireCond_def)

definition pvg_sufficient :: "vm_env \<Rightarrow> operation \<Rightarrow> bool" where
  "pvg_sufficient V op \<longleftrightarrow> preVerificationGas op = None \<or>
     (\<exists>m. validatePreVerificationGas (ve_hex V) (ve_pvg V) op
        \<lparr>verificationGasUsed = Some MAX_VERIFICATION_GAS_USED, totalGasUsed = None\<rparr> = Inr (True, m))"

text \<open>C17: the request check of the RPC handler and the one of the validation manager, two copies of
  the same code, accept the same requests, except that the second also requires enough
  \<^verbatim>\<open>preVerificationGas\<close>.\<close>

theorem request_checks_agree:
  assumes "js_props userOp1 = Some fs" and "ve_entryPoint V = cfg_entryPoint R" and "ep \<noteq> JsNull"
    and "null_or_text fs ''paymaster''" and "null_or_text fs ''factory''"
    and "factory op = Some EIP_7702_MARKER_INIT_CODE \<longleftrightarrow> js_field fs ''factory'' = JsStr EIP_7702_MARKER_INIT_CODE"
  shows "validateInputParameters V (Some (text_fields fs)) op (Some (js_text ep)) rs rg = Inr () \<longleftrightarrow>
     validateParameters R userOp1 ep rs rg = Inr () \<and> pvg_sufficient V op"
proof -
  have "required_fields rs rg = handler_fields rs rg" by (simp add: required_fields_def handler_fields_def)
  moreover have "(case preVerificationGas op of None \<Rightarrow> Inr () | Some g \<Rightarrow>
       bindE (validatePreVerificationGas (ve_hex V) (ve_pvg V) op
                  \<lparr>verificationGasUsed = Some MAX_VERIFICATION_GAS_USED, totalGasUsed = None\<rparr>) (\<lambda>(valid, m).
           requireCond valid (msg g m) InvalidFields [])) = Inr () \<longleftrightarrow> pvg_sufficient V op" for msg
    by (auto simp: pvg_sufficient_def bindE_Inr_iff requireCond_def split: option.splits)
  ultimately show ?thesis
    unfolding validateInputParameters_def validateParameters_Inr_iff fields_ok_def Let_def option.sel
    using assms(1-3) requireAddressAndFields_text [OF assms(4)] requireAddressAndFields_text [OF assms(5)]
    by (auto simp: bindE_Inr_iff forE_Inr_iff check_field_text requireCond_def assms(6))
qed

section \<open>Fields an estimate needs\<close>

lemma spread_field:
  "js_field (spread base fs) k = (if k \<in> set (obj_keys fs) then js_field fs k else js_field base k)"
proof -
  have "js_field (foldl (\<lambda>acc k. AList.update k (js_field fs k) acc) base ks) k =
      (if k \<in> set ks then js_field fs k else js_field base k)" for ks
    by (induction ks arbitrary: base) (auto simp: js_field_def or_else_def)
  then show ?thesis by (simp add: spread_def)
qed

lemma hexlified_null:
  "deepHexlify_fields H fs = Inr gs \<Longrightarrow> js_field fs k = JsNull \<Longrightarrow> js_field gs k = JsNull"
proof (induction fs arbitrary: gs)
  case (Cons f fs)
  obtain k' v where f: "f = (k', v)" by fastforce
  obtain w hs where w: "deepHexlify H v = Inr w" "deepHexlify_fields H fs = Inr hs" "gs = (k', w) # hs"
    using Cons.prems(1) f by (auto simp: bindE_Inr_iff)
  show ?case
    using Cons.prems(2) Cons.IH [OF w(2)] w(1,3) f
    by (cases "k' = k") (auto simp: js_field_def or_else_def)
qed (simp add: js_field_def or_else_def)

definition estimate_needs :: "string list" where
  "estimate_needs = [''sender'', ''nonce'', ''callData'', ''signature'', ''callGasLimit'']"

text \<open>an estimate is only made for an operation that already has its call gas limit and its
  signature, besides sender, nonce and call data; a request without one of them throws. Only the
  other gas fields may be missing.\<close>

theorem estimate_needs_call_gas:
  assumes "js_props userOp1 = Some fs" and "k \<in> set estimate_needs" and "js_field fs k = JsNull"
  shows "\<exists>e. estimateUserOperationGas R userOp1 ep so = Inl e"
proof -
  have "js_field estimate_defaults k = JsNull" "k \<in> set (handler_fields True True)"
    using assms(2) by (auto simp: estimate_defaults_def estimate_needs_def js_field_def or_else_def handler_fields_def)
  with assms(3) have k: "js_field (spread estimate_defaults fs) k = JsNull" "k \<in> set (handler_fields True True)"
    by (simp_all add: spread_field)
  have "validateParameters R hexed ep True True \<noteq> Inr ()"
    if h: "deepHexlify (rpc_hex R) (JsObj (spread estimate_defaults fs)) = Inr hexed" for hexed
  proof -
    obtain gs where "hexed = JsObj gs" "deepHexlify_fields (rpc_hex R) (spread estimate_defaults fs) = Inr gs"
      using h by (auto simp: bindE_Inr_iff)
    then show ?thesis
      using hexlified_null k by (fastforce simp: validateParameters_Inr_iff fields_ok_def hex_field_def js_props_def)
  qed
  then have "\<forall>v. estimateUserOperationGas R userOp1 ep so \<noteq> Inr v"
    using assms(1) by (auto simp: estimateUserOperationGas_def bindE_Inr_iff Let_def simp del: deepHexlify.simps)
  then show ?thesis by (cases "estimateUserOperationGas R userOp1 ep so") auto
qed

section \<open>The estimated gas is not enough\<close>

lemma estimate_uses_calculator:
  assumes "estimateUserOperationGas R userOp1 ep so = Inr e" and "js_props userOp1 = Some fs"
  shows "calculate (rpc_hex R) (rpc_pvg R)
      (fillUserOpWithDummyData (rpc_hex R) (rpc_pvg R) (rpc_op R (spread estimate_defaults fs)))
      \<lparr>verificationGasUsed = None, totalGasUsed = None\<rparr> = Inr (es_preVerificationGas e)"
proof -
  have "or_else (js_props userOp1) [] = fs" using assms(2) by (simp add: or_else_def)
  from assms(1) [unfolded estimateUserOperationGas_def Let_def this] show ?thesis
    unfolding bindE_Inr_iff estimatePreVerificationGas_def by (elim exE conjE) auto
qed

text \<open>a request for an estimate without \<^verbatim>\<open>preVerificationGas\<close> gets the value 0 for it, so the
  calculator does not fill in its dummy value and prices the encoding of a zero. The operation with
  the estimated value in that field encodes to more tokens and is refused by the
  \<^verbatim>\<open>preVerificationGas\<close> check, as long as the floor price does not bind.\<close>

theorem estimated_gas_refused:
  fixes R :: rpc_env
  defines "H \<equiv> rpc_hex R" and "cfg \<equiv> rpc_pvg R"
  assumes "estimateUserOperationGas R userOp1 ep so = Inr e" and "js_props userOp1 = Some fs"
    and "op = fillUserOpWithDummyData H cfg (rpc_op R (spread estimate_defaults fs))"
    and "es_preVerificationGas e = of_int g" and "useEip7623 cfg" and "1 \<le> standardTokenGasCost cfg"
    and "op_overhead H cfg op = Inr (tokens, overhead)"
    and "op_overhead H cfg (op\<lparr>preVerificationGas := Some g\<rparr>) = Inr (tokens', overhead)" and "tokens < tokens'"
    and "getUserOpGasUsed op \<lparr>verificationGasUsed = None, totalGasUsed = None\<rparr> = Inr used"
    and "floor_cost cfg tokens - of_int used \<le> standard_cost cfg tokens overhead"
    and "validatePreVerificationGas H cfg (op\<lparr>preVerificationGas := Some g\<rparr>) opts = Inr (ok, m)"
  shows "\<not> ok"
proof -
  let ?op = "op\<lparr>preVerificationGas := Some g\<rparr>"
  have "calculate H cfg op \<lparr>verificationGasUsed = None, totalGasUsed = None\<rparr> = Inr (of_int g)"
    using estimate_uses_calculator [OF assms(3,4)] assms(5,6) by (simp add: H_def cfg_def)
  then have g: "g = js_round (standard_cost cfg tokens overhead)"
    using assms(7,9,12,13) by (simp add: calculate_eip7623 max_absorb1)
  obtain used' where m: "m = of_int (js_round (max (standard_cost cfg tokens' overhead) (floor_cost cfg tokens' - of_int used')))"
    and ok: "ok \<longleftrightarrow> m \<le> of_int g"
    using assms(7,10,14) by (auto simp: validatePreVerificationGas_def bindE_Inr_iff calculate_eip7623)
  have "standardTokenGasCost cfg * 1 \<le> standardTokenGasCost cfg * (of_int tokens' - of_int tokens)"
    using assms(8,11) by (intro mult_left_mono) linarith+
  then have "standard_cost cfg tokens overhead + of_int 1 \<le> standard_cost cfg tokens' overhead"
    using assms(8) by (simp add: standard_cost_def right_diff_distrib)
  also have "\<dots> \<le> max (standard_cost cfg tokens' overhead) (floor_cost cfg tokens' - of_int used')" by simp
  finally have "js_round (standard_cost cfg tokens overhead) + 1 \<le>
      js_round (max (standard_cost cfg tokens' overhead) (floor_cost cfg tokens' - of_int used'))"
    unfolding js_round_shift [symmetric] by (rule js_round_mono)
  then show ?thesis using g m ok by simp
qed

section \<open>The default paymaster of a RIP-7560 transaction\<close>


lemma entry_of_other: "toLowerCase a \<noteq> k \<Longrightarrow> entry_of a (put_entry k e s) = entry_of a s"
  by (simp add: entry_of_def put_entry_def)








lemma entry_of_pool_update [simp]:
  "entry_of a (incrementEntryCount x s) = entry_of a s" "entry_of a (s\<lparr>mempool := m\<rparr>) = entry_of a s"
  by (simp_all add: entry_of_def incrementEntryCount_def split: option.split)

lemma entry_of_count [simp]: "entry_of a (fold incrementEntryCount xs s) = entry_of a s"
  by (induction xs arbitrary: s) simp_all




section \<open>Examples\<close>

definition log_example :: "string \<Rightarrow> string \<Rightarrow> log_entry" where
  "log_example a b = \<lparr>lg_topics = [a, b], lg_value = JsStr b\<rparr>"

definition tx_example :: mined_tx where
  "tx_example = \<lparr>tx_to = Some ''0xee'', tx_hash = ''0x01'', tx_blockHash = Some ''0x02'', tx_blockNumber = Some 3,
     tx_ops = Inr (Some (projr (mapE (packUserOp plain_hex) [packable_example, packable_example\<lparr>nonce := 4\<rparr>])))\<rparr>"

definition event_example :: uo_event where
  "event_example = \<lparr>ue_topics = [''U'', ''h2''], ue_sender = ''0xa'', ue_nonce = 4, ue_actualGasCost = 5, ue_actualGasUsed = 6,
     ue_success = True, ue_transaction = Inr tx_example, ue_receipt = Inr ([], JsNull)\<rparr>"

definition rpc_example :: rpc_env where
  "rpc_example = \<lparr>rpc_hex = plain_hex, rpc_lib = base_lib, rpc_rip = rip_lib_example,
     rpc_revert = ve_revert traced_env, rpc_pvg = MainnetConfig, rpc_op = (\<lambda>fs. packable_example),
     cfg_entryPoint = ''0xEE'', cfg_beneficiary = ''0xBB'', cfg_minBalance = ''0'', cfg_unsafe = False,
     cfg_eip7702Support = False, rpc_entryPoint = ''0xee'', rpc_beforeExecution = ''B'', rpc_signer = Inr ''0xSS'',
     rpc_signerBalance = Inr 10, rpc_encode = (\<lambda>m p xs. Inr ''0x''), rpc_simulationsCode = ''0x'', rpc_ethCall = (\<lambda>ps. Inr ''0x''),
     rpc_decodeSimulation = (\<lambda>d. Inr \<lparr>er_preOpGas = 1, er_accountValidationData = 0, er_paymasterValidationData = 0\<rparr>),
     rpc_estimateGas = (\<lambda>c. Inr 30000), rpc_errorData = (\<lambda>e. ''0x''), rpc_auth_js = (\<lambda>a. JsNull),
     rpc_queryEvents = (\<lambda>h. Inr [event_example]), rpc_opHash = (\<lambda>p ov. Inr ''0x77''), rpc_txReceipt = (\<lambda>h. Inr JsNull),
     rpc_version = ''0.9''\<rparr>"

definition request_example :: "js_value obj" where
  "request_example = map (\<lambda>k. (k, JsStr ''0x01'')) (handler_fields True True)"

lemma receipt_logs_exact_witness:
  "filterLogs rpc_example event_example
     [log_example ''B'' [], log_example ''T'' ''a'', log_example ''U'' ''h1'', log_example ''T'' ''b'', log_example ''U'' ''h2''] =
   Inr [log_example ''T'' ''a'', log_example ''U'' ''h1'', log_example ''T'' ''b'']"
proof -
  let ?segs = "[([log_example ''T'' ''a''], log_example ''U'' ''h1''), ([log_example ''T'' ''b''], log_example ''U'' ''h2'')]"
  have "is_before rpc_example (log_example ''B'' [])" "well_logged rpc_example event_example ?segs []"
    "is_own event_example (snd (?segs ! 1))"
    by (simp_all add: is_before_def is_own_def is_op_event_def well_logged_def segment_ok_def event_hash_def nth_topic_def
        log_example_def rpc_example_def event_example_def)
  from receipt_logs_exact [OF this(1,2) _ this(3), of "[]"] show ?thesis by (simp add: bundle_logs_def)
qed

lemma packable_pair: "packable packable_example" "packable (packable_example\<lparr>nonce := 4\<rparr>)"
proof -
  show p: "packable packable_example" using unpack_packUserOp_witness by blast
  then show "packable (packable_example\<lparr>nonce := 4\<rparr>)"
    by (simp add: packable_def init_fits_def paymaster_fits_def cong: option.case_cong)
qed

lemma operation_found_by_hash_witness:
  "getUserOperationByHash rpc_example (JsStr ''0x77'') =
     deepHexlify plain_hex (js_of_response rpc_example (packable_example\<lparr>nonce := 4\<rparr>) tx_example)"
proof -
  let ?ops = "[packable_example, packable_example\<lparr>nonce := 4\<rparr>]"
  have "\<exists>ps. mapE (packUserOp plain_hex) ?ops = Inr ps"
    using unpack_packed [OF plain_hex_laws packable_pair(1)] unpack_packed [OF plain_hex_laws packable_pair(2)]
    by (auto simp: bindE_Inr_iff)
  then have m: "mapE (packUserOp plain_hex) ?ops = Inr (projr (mapE (packUserOp plain_hex) ?ops))" by force
  have s: "sender packable_example = ''0xa''" "nonce packable_example = 3" by code_simp+
  have h: "rpc_hex rpc_example = plain_hex" by (simp add: rpc_example_def)
  have x: "HEX_REGEX ''0x77''" by code_simp
  show ?thesis
    using operation_found_by_hash [of rpc_example ?ops "packable_example\<lparr>nonce := 4\<rparr>" _ tx_example "''0x77''" event_example "[]"]
      plain_hex_laws packable_pair m s x
    by (simp add: tx_example_def [symmetric] h) (simp add: tx_example_def event_example_def rpc_example_def)
qed

lemma malformed_request_refused_witness:
  "\<exists>e. rpc_sendUserOperation rpc_example exec_config_example (bm_ERC4337 env_example cfg_example (Inr 5) (\<lambda>n. Inr [])) vm_example
     (\<lambda>a. Inr 0) (JsObj (request_example @ [(''eip7702Auth'', JsBool True)])) (JsStr ''0xee'') exec_example = (Inl e, exec_example)"
proof -
  have "\<not> cfg_eip7702Support rpc_example" "js_field (request_example @ [(''eip7702Auth'', JsBool True)]) ''eip7702Auth'' \<noteq> JsNull"
    by code_simp+
  then show ?thesis by (intro malformed_request_refused) (simp add: js_props_def)
qed

lemma request_checks_agree_witness:
  "validateInputParameters (traced_env\<lparr>ve_entryPoint := ''0xEE''\<rparr>) (Some (text_fields request_example))
     ((base_op ''0x01'' 1)\<lparr>preVerificationGas := None\<rparr>) (Some ''0xee'') True True = Inr ()"
proof -
  have "validateParameters rpc_example (JsObj request_example) (JsStr ''0xee'') True True = Inr ()" by code_simp
  moreover have "null_or_text request_example ''paymaster''" "null_or_text request_example ''factory''"
    "js_field request_example ''factory'' = JsNull" "cfg_entryPoint rpc_example = ''0xEE''" by code_simp+
  ultimately show ?thesis
    using request_checks_agree [of "JsObj request_example" request_example "traced_env\<lparr>ve_entryPoint := ''0xEE''\<rparr>" rpc_example
      "JsStr ''0xee''" "(base_op ''0x01'' 1)\<lparr>preVerificationGas := None\<rparr>" True True]
    by (simp add: js_props_def pvg_sufficient_def base_op_def)
qed

lemma estimate_needs_call_gas_witness:
  "\<exists>e. estimateUserOperationGas rpc_example (JsObj (AList.delete ''callGasLimit'' request_example)) (JsStr ''0xee'') JsNull = Inl e"
proof -
  have "js_field (AList.delete ''callGasLimit'' request_example) ''callGasLimit'' = JsNull" "''callGasLimit'' \<in> set estimate_needs"
    by code_simp+
  then show ?thesis by (intro estimate_needs_call_gas) (simp_all add: js_props_def)
qed




text \<open>An encoder that shows the gas field.\<close>

definition estimate_lib :: hex_lib where
  "estimate_lib = plain_hex\<lparr>hx_abi_encode := (\<lambda>ts vs. case vs ! 6 of AbiStr t \<Rightarrow> Inr t | AbiInt n \<Rightarrow> Inr ''0x'')\<rparr>"

definition estimate_env :: rpc_env where
  "estimate_env = rpc_example\<lparr>rpc_hex := estimate_lib, rpc_op := (\<lambda>fs. (base_op ''0xa'' 3)\<lparr>preVerificationGas := Some 0\<rparr>)\<rparr>"

definition estimate_request :: "js_value obj" where
  "estimate_request = AList.delete ''preVerificationGas'' request_example"

definition estimate_op :: operation where
  "estimate_op = fillUserOpWithDummyData estimate_lib MainnetConfig ((base_op ''0xa'' 3)\<lparr>preVerificationGas := Some 0\<rparr>)"

lemma estimate_parts:
  "check_7702_support estimate_env (JsObj estimate_request) = Inr ()"
  "isl (deepHexlify estimate_lib (JsObj (spread estimate_defaults estimate_request))) = False"
  "validateParameters estimate_env (projr (deepHexlify estimate_lib (JsObj (spread estimate_defaults estimate_request))))
     (JsStr ''0xee'') True True = Inr ()"
  "isl (packUserOp estimate_lib ((base_op ''0xa'' 3)\<lparr>preVerificationGas := Some 0\<rparr>)) = False"
  "isl (mergeValidationDataValues estimate_lib 0 0) = False"
  by code_simp+

lemma estimate_calculated:
  "calculate estimate_lib MainnetConfig estimate_op \<lparr>verificationGasUsed = None, totalGasUsed = None\<rparr> = Inr 38098"
  "toNumber 1 = Inr 1"
  by code_simp+

lemma estimate_priced:
  "op_overhead estimate_lib MainnetConfig estimate_op = Inr (2, 7260)"
  "op_overhead estimate_lib MainnetConfig (estimate_op\<lparr>preVerificationGas := Some 38098\<rparr>) = Inr (16, 7260)"
  "getUserOpGasUsed estimate_op \<lparr>verificationGasUsed = None, totalGasUsed = None\<rparr> = Inr 0"
  by code_simp+

lemma estimate_covered:
  "floor_cost MainnetConfig 2 - of_int 0 \<le> standard_cost MainnetConfig 2 7260"
  "useEip7623 MainnetConfig" "1 \<le> standardTokenGasCost MainnetConfig"
  "validatePreVerificationGas estimate_lib MainnetConfig (estimate_op\<lparr>preVerificationGas := Some 38098\<rparr>)
     \<lparr>verificationGasUsed = Some 500000, totalGasUsed = None\<rparr> = Inr (False, 38154)"
  by code_simp+

lemma estimate_example:
  "\<exists>e. estimateUserOperationGas estimate_env (JsObj estimate_request) (JsStr ''0xee'') JsNull = Inr e \<and> es_preVerificationGas e = 38098"
proof -
  have r: "rpc_hex estimate_env = estimate_lib" "rpc_pvg estimate_env = MainnetConfig"
    "rpc_op estimate_env fs = (base_op ''0xa'' 3)\<lparr>preVerificationGas := Some 0\<rparr>"
    "rpc_encode estimate_env m k ps = Inr ''0x''" "rpc_ethCall estimate_env ps = Inr ''0x''"
    "rpc_decodeSimulation estimate_env x = Inr \<lparr>er_preOpGas = 1, er_accountValidationData = 0, er_paymasterValidationData = 0\<rparr>"
    "rpc_estimateGas estimate_env c = Inr 30000" for fs m k ps x c
    by (simp_all add: estimate_env_def rpc_example_def)
  have h: "bindE v f = f (projr v)" if "isl v = False" for v :: "'a res" and f :: "'a \<Rightarrow> 'b res"
    using that by (cases v) simp_all
  show ?thesis
    using estimate_parts estimate_calculated unfolding estimateUserOperationGas_def Let_def
    by (simp add: h r or_else_def js_props_def simulationRpcParams_def estimatePreVerificationGas_def estimate_op_def
        del: deepHexlify.simps)
qed

lemma estimated_gas_refused_witness:
  "\<not> fst (projr (validatePreVerificationGas estimate_lib MainnetConfig (estimate_op\<lparr>preVerificationGas := Some 38098\<rparr>)
     \<lparr>verificationGasUsed = Some 500000, totalGasUsed = None\<rparr>))" (is "\<not> fst (projr ?check)")
proof -
  obtain e where e: "estimateUserOperationGas estimate_env (JsObj estimate_request) (JsStr ''0xee'') JsNull = Inr e"
    "es_preVerificationGas e = of_int 38098" using estimate_example by auto
  have "rpc_hex estimate_env = estimate_lib" "rpc_pvg estimate_env = MainnetConfig"
    "estimate_op = fillUserOpWithDummyData estimate_lib MainnetConfig (rpc_op estimate_env (spread estimate_defaults estimate_request))"
    by (simp_all add: estimate_env_def rpc_example_def estimate_op_def)
  moreover have "?check = Inr (fst (projr ?check), snd (projr ?check))" by (simp add: estimate_covered(4))
  ultimately show ?thesis
    using estimated_gas_refused [OF e(1) _ _ e(2), of estimate_request estimate_op 2 7260 16 0 _ "fst (projr ?check)" "snd (projr ?check)"]
      estimate_priced estimate_covered(1-3)
    by (simp add: js_props_def)
qed

end
