(* ===== verification/ServerSound.thy ===== *)
theory ServerSound
  imports BundlerServer RpcSound
begin

text \<open>
  What the JSON-RPC front end of \<open>BundlerServer\<close> promises: every request object is answered,
  which requests can change the state of the bundler at all, what debug requests can do when they
  are switched off, and that no sequence of requests breaks the pool or the reputation table.
\<close>

section \<open>Every request is answered\<close>

lemma handleRpc_answers:
  assumes "js_props r = Some fs"
  obtains body t where "handleRpc S r s = (Inr (respond fs body), t)"
  using assms by (force simp: handleRpc_def monad_simps split: prod.splits sum.splits)

definition request_id :: "js_value \<Rightarrow> js_value" where
  "request_id r = js_field (or_else (js_props r) []) ''id''"

lemma handleRpcPublic_answers:
  assumes "js_props r \<noteq> None"
  shows "\<exists>x t. handleRpcPublic S r s = (Inr x, t) \<and> rs_id x = request_id r"
proof -
  obtain fs where fs: "js_props r = Some fs" using assms by blast
  obtain body t where "handleRpc S r s = (Inr (respond fs body), t)" using handleRpc_answers [OF fs] .
  then show ?thesis using fs by (simp add: handleRpcPublic_def monad_simps not_available_def respond_def request_id_def)
qed

lemma handle_batch_answers:
  assumes "\<And>r s. r \<in> set rs \<Longrightarrow> \<exists>x t. handle r s = (Inr x, t) \<and> rs_id x = request_id r"
  shows "\<exists>xs t. handle_batch handle rs s = (Inr xs, t) \<and> map rs_id xs = map request_id rs"
  using assms
proof (induction rs arbitrary: s)
  case (Cons r rs)
  obtain x t where x: "handle r s = (Inr x, t)" "rs_id x = request_id r" using Cons.prems [of r s] by auto
  obtain xs u where "handle_batch handle rs t = (Inr xs, u)" "map rs_id xs = map request_id rs"
    using Cons.IH [of t] Cons.prems by auto
  with x show ?case by (simp add: monad_simps)
qed (simp add: retM_def)

lemma handle_batch_stops:
  assumes "\<And>s. handle r s = (Inl e, s)"
    and "\<And>r s. r \<in> set pre \<Longrightarrow> \<exists>x t. handle r s = (Inr x, t) \<and> rs_id x = request_id r"
  shows "handle_batch handle (pre @ r # post) s = (Inl e, snd (handle_batch handle pre s))"
  using assms(2)
proof (induction pre arbitrary: s)
  case Nil
  then show ?case by (simp add: assms(1) monad_simps)
next
  case (Cons q pre)
  obtain x t where x: "handle q s = (Inr x, t)" using Cons.prems [of q s] by auto
  obtain xs u where "handle_batch handle pre t = (Inr xs, u)"
    using handle_batch_answers [of pre handle t] Cons.prems by auto
  with x Cons.IH [of t] Cons.prems show ?case by (simp add: monad_simps)
qed

text \<open>a batch in which every item is an object, even a malformed one, is answered by as many
  responses, in the order of the items and with their ids; a failing request becomes an error
  response and does not stop the ones after it.\<close>

theorem batch_answered_in_order:
  assumes "\<forall>r\<in>set rs. js_props r \<noteq> None"
  shows "\<exists>xs t. getRpc (handleRpcPublic S) (JsArr rs) s = (Inr (Batch xs), t) \<and> map rs_id xs = map request_id rs"
proof -
  have "\<exists>x t. handleRpcPublic S r s = (Inr x, t) \<and> rs_id x = request_id r" if "r \<in> set rs" for r s
    using assms that by (intro handleRpcPublic_answers) auto
  from handle_batch_answers [of rs "handleRpcPublic S" s, OF this] obtain xs t
    where "handle_batch (handleRpcPublic S) rs s = (Inr xs, t)" "map rs_id xs = map request_id rs" by blast
  then show ?thesis by (simp add: getRpc_def monad_simps)
qed

text \<open>a \<^verbatim>\<open>null\<close> in a batch is read outside of every \<^verbatim>\<open>try\<close>: the handler throws and no response
  is sent for the whole batch, although the requests before the \<^verbatim>\<open>null\<close> have already been
  carried out.\<close>

theorem null_in_batch_unanswered:
  assumes "\<forall>r\<in>set pre. js_props r \<noteq> None"
  shows "getRpc (handleRpcPublic S) (JsArr (pre @ JsNull # post)) s =
    (Inl type_error, snd (handle_batch (handleRpcPublic S) pre s))"
proof -
  have "handleRpcPublic S JsNull s = (Inl type_error, s)" for s
    by (simp add: handleRpcPublic_def js_props_def throwM_def)
  moreover have "\<exists>x t. handleRpcPublic S r s = (Inr x, t) \<and> rs_id x = request_id r" if "r \<in> set pre" for r s
    using assms that by (intro handleRpcPublic_answers) auto
  ultimately have "handle_batch (handleRpcPublic S) (pre @ JsNull # post) s =
      (Inl type_error, snd (handle_batch (handleRpcPublic S) pre s))"
    by (rule handle_batch_stops)
  then show ?thesis by (simp add: getRpc_def monad_simps)
qed

section \<open>Which requests change the state\<close>

text \<open>An action that leaves the state alone keeps every invariant that fixes it.\<close>

abbreviation untouched :: "'s \<Rightarrow> ('s, 'a) act \<Rightarrow> bool" where
  "untouched s m \<equiv> keeps (\<lambda>x. x = s) m"

lemma untouched_eq: "untouched s m \<Longrightarrow> snd (m s) = s"
  by (simp add: keeps_def)

lemma untouched_handleRpc:
  assumes "js_props r = Some fs" and "untouched s (dispatch S fs)"
  shows "untouched s (handleRpc S r)"
  unfolding handleRpc_def assms(1) option.case by (intro keeps_intros assms(2))

lemma untouched_rip:
  assumes "handle_rip S m ps = Some act"
    and "rip7560 (sv_exec S) \<Longrightarrow> m \<notin> {''aa_getRip7560Bundle'', ''eth_sendTransaction'', ''debug_bundler_sendTransactionSkipValidation''}"
  shows "untouched s act"
  using assms
  by (auto simp: handle_rip_def rip_only_def with_param_def intro!: keeps_intros split: if_splits)

lemma untouched_4337:
  assumes "handle_4337 S m ps = Some act" and "m \<noteq> ''eth_sendUserOperation''"
  shows "untouched s act"
  using assms by (auto simp: handle_4337_def with_param_def intro!: keeps_intros split: if_splits)

lemma untouched_debug:
  assumes "handle_debug S m ps = Some act" and "\<not> sv_debugRpc S"
  shows "untouched s act"
  using assms by (auto simp: handle_debug_def debug_call_def Let_def intro!: keeps_intros split: if_splits)

definition writing_methods :: "bool \<Rightarrow> string set" where
  "writing_methods rip = (if rip then {''eth_sendUserOperation'', ''eth_sendTransaction'', ''debug_bundler_sendTransactionSkipValidation''}
     else {''eth_sendUserOperation''})"

text \<open>C11: with the debug methods switched off, the only requests to the public port that can
  change the state of the bundler are the ones that send an operation:
  \<^verbatim>\<open>eth_sendUserOperation\<close>, and in RIP-7560 mode \<^verbatim>\<open>eth_sendTransaction\<close> and its variant
  without validation.\<close>

theorem public_writes_confined:
  assumes "\<not> sv_debugRpc S" and "js_props r = Some fs"
    and "\<forall>m\<in>writing_methods (rip7560 (sv_exec S)). js_field fs ''method'' \<noteq> JsStr m"
  shows "snd (handleRpcPublic S r s) = s"
proof (cases "js_field fs ''method'' = JsStr ''aa_getRip7560Bundle''")
  case True
  then show ?thesis by (simp add: handleRpcPublic_def assms(2) retM_def)
next
  case False
  have "untouched s (handleMethod S m ps)" if "js_field fs ''method'' = JsStr m" for m ps
    using that False assms(1,3) untouched_rip [of S m ps _ s] untouched_4337 [of S m ps _ s] untouched_debug [of S m ps _ s]
    unfolding handleMethod_def writing_methods_def
    by (auto intro!: keeps_intros split: option.splits if_splits)
  then have "untouched s (dispatch S fs)"
    by (cases "js_field fs ''method''") (auto simp: dispatch_def is_text_def Let_def intro!: keeps_intros)
  then show ?thesis
    using untouched_eq [OF untouched_handleRpc [OF assms(2)]] False by (simp add: handleRpcPublic_def assms(2))
qed

section \<open>The bundler stays well formed\<close>

definition bundles_keep :: "('z server_state_scheme, 'r) bundle_manager \<Rightarrow> bool" where
  "bundles_keep bm \<longleftrightarrow> bundle_service (bm_sendNextBundle bm) (bm_handlePastEvents bm) sys_wf \<and>
     (\<forall>limits. keeps sys_wf (bm_createBundle bm limits))"

definition counters_nonneg :: "'r codec \<Rightarrow> bool" where
  "counters_nonneg D \<longleftrightarrow> (\<forall>v reps. cd_reputation D v = Inr reps \<longrightarrow> (\<forall>(a, seen, incl)\<in>set reps. 0 \<le> seen \<and> 0 \<le> incl))"

lemma sys_wf_clears:
  "sys_wf s \<Longrightarrow> sys_wf (pool_clearState s)" "sys_wf s \<Longrightarrow> sys_wf (rep_clearState s)" "sys_wf s \<Longrightarrow> sys_wf (debug_clearState s)"
  by (simp_all add: sys_wf_def pool_wf_def rep_wf_def pool_clearState_def rep_clearState_def debug_clearState_def)

lemma pool_part_dump: "mempool (snd (rep_dump s)) = mempool s" "lib (snd (rep_dump s)) = lib s"
  by (simp_all add: rep_dump_def Let_def)

lemma sys_wf_dump: "sys_wf s \<Longrightarrow> sys_wf (snd (rep_dump s))"
  using rep_wf_dump [of s] by (simp add: sys_wf_def pool_wf_def pool_part_dump)

lemma sys_wf_setReputation:
  assumes "\<forall>(a, seen, incl)\<in>set reps. 0 \<le> seen \<and> 0 \<le> incl"
  shows "keeps sys_wf (setReputation reps)"
proof (rule keeps_sys_wf [OF _ rep_wf_setReputation [OF assms]])
  have p: "pool_wf (put_entry k e s) \<longleftrightarrow> pool_wf s" for k e and s :: "'a pool_state_scheme"
    by (simp add: put_entry_def pool_wf_def)
  have d: "keeps pool_wf (\<lambda>s :: 'a pool_state_scheme. let (d, s') = rep_dump s in (Inr d, s'))"
    by (rule keepsI) (simp add: Let_def case_prod_beta pool_wf_def pool_part_dump)
  show "keeps pool_wf (setReputation reps :: ('a pool_state_scheme, _) act)"
    unfolding setReputation_def by (intro keeps_bindM keeps_forM d) (auto intro!: keeps_intros simp: p)
qed

lemma sys_wf_server_fields [simp]:
  "sys_wf (s\<lparr>exec_vm := v\<rparr>) \<longleftrightarrow> sys_wf s" "sys_wf (s\<lparr>vm_senderCreator := c'\<rparr>) \<longleftrightarrow> sys_wf s" "sys_wf (s\<lparr>method_pvg := c\<rparr>) \<longleftrightarrow> sys_wf s"
  for s :: "'z server_state_scheme"
  by (simp_all add: sys_wf_def pool_wf_def rep_wf_def)

lemma sys_wf_setConfiguration: "keeps sys_wf (setConfiguration D v :: ('z server_state_scheme, _) act)"
  unfolding setConfiguration_def Let_def by (auto intro!: keeps_intros split: option.split)

lemma sys_wf_interval: "keeps sys_wf (setBundleInterval i n :: ('z exec_state_scheme, _) act)"
  unfolding setBundleInterval_def
  by (auto intro!: keeps_intros simp: sys_wf_timers split: option.split bundle_interval.split)

lemma sys_wf_rip:
  assumes "bundles_keep (sv_bm S)" and "handle_rip S m ps = Some act"
  shows "keeps sys_wf act"
proof -
  have b: "bundle_service (bm_sendNextBundle (sv_bm S)) (bm_handlePastEvents (sv_bm S)) sys_wf"
    "keeps sys_wf (bm_createBundle (sv_bm S) limits)" for limits
    using assms(1) by (simp_all add: bundles_keep_def)
  have "keeps sys_wf (rip_send S ps skip)" for skip
    unfolding rip_send_def with_param_def sendRIP7560Transaction_def Let_def
    by (auto intro!: keeps_intros sys_wf_sendUserOperation [OF b(1)])
  moreover have "keeps sys_wf (rip_bundle S ps)"
    unfolding rip_bundle_def with_param_def getRip7560Bundle_def exec_createBundle_def Let_def
    by (auto intro!: keeps_intros b(2))
  ultimately show ?thesis
    using assms(2)
    by (auto simp: handle_rip_def rip_only_def with_param_def intro!: keeps_intros split: if_splits)
qed

lemma sys_wf_4337:
  assumes "bundles_keep (sv_bm S)" and "handle_4337 S m ps = Some act"
  shows "keeps sys_wf act"
proof (cases "m = ''eth_sendUserOperation''")
  case True
  have b: "bundle_service (bm_sendNextBundle (sv_bm S)) (bm_handlePastEvents (sv_bm S)) sys_wf"
    using assms(1) by (simp add: bundles_keep_def)
  have "keeps sys_wf (rpc_sendUserOperation (sv_rpc S) (sv_exec S) (sv_bm S) vm (sv_balance S) op ep)" for vm op ep
    unfolding rpc_sendUserOperation_def Let_def by (intro keeps_intros sys_wf_sendUserOperation [OF b])
  then show ?thesis
    using assms(2) True by (auto simp: handle_4337_def with_param_def intro!: keeps_intros)
next
  case False
  have "untouched s act" for s using untouched_4337 [OF assms(2) False] .
  then show ?thesis by (simp add: keeps_def)
qed

lemma sys_wf_debug:
  assumes "bundles_keep (sv_bm S)" and "counters_nonneg (sv_codec S)" and "handle_debug S m ps = Some act"
  shows "keeps sys_wf act"
proof -
  have b: "bundle_service (bm_sendNextBundle (sv_bm S)) (bm_handlePastEvents (sv_bm S)) sys_wf"
    using assms(1) by (simp add: bundles_keep_def)
  have r: "keeps sys_wf (bindM (liftE (cd_reputation (sv_codec S) p)) (\<lambda>reps. ok_result (bindM (setReputation reps) (\<lambda>_. retM ()))))" for p
    using assms(2) sys_wf_setReputation
    by (cases "cd_reputation (sv_codec S) p")
       (force simp: counters_nonneg_def keeps_def liftE_def bindM_def ok_result_def thenM_def retM_def
          split: prod.splits sum.splits)+
  have d: "keeps sys_wf (\<lambda>s. case rep_dump s of (d, s') \<Rightarrow> (Inr (JsArr (map js_of_entry d)), s'))"
    by (rule keepsI) (use sys_wf_dump in \<open>simp add: case_prod_beta\<close>)
  have n: "keeps sys_wf (sendBundleNow (sv_exec S) (sv_bm S) (sv_blockNumber S) (sv_events S))"
    unfolding sendBundleNow_def by (intro keeps_intros sys_wf_attemptBundle [OF b] sys_wf_handlePastEvents)
  show ?thesis
    using assms(3)
    by (auto simp: handle_debug_def debug_call_def with_param_def ok_result_def setBundlingMode_def Let_def
        intro!: keeps_intros r [unfolded ok_result_def] d n sys_wf_clears sys_wf_interval sys_wf_setConfiguration split: if_splits)
qed

lemma keeps_option_case:
  "keeps I (case r of None \<Rightarrow> m | Some x \<Rightarrow> f x)" if "r = None \<Longrightarrow> keeps I m" "\<And>x. r = Some x \<Longrightarrow> keeps I (f x)"
  using that by (cases r) auto

lemma sys_wf_handleRpc:
  assumes "bundles_keep (sv_bm S)" and "counters_nonneg (sv_codec S)"
  shows "keeps sys_wf (handleRpc S r)"
proof -
  have "keeps sys_wf (handleMethod S m ps)" for m ps
    unfolding handleMethod_def
    by (intro keeps_option_case keeps_intros)
       (erule sys_wf_rip [OF assms(1)] sys_wf_4337 [OF assms(1)] sys_wf_debug [OF assms])+
  then show ?thesis
    unfolding handleRpc_def dispatch_def Let_def by (auto intro!: keeps_intros split: option.split)
qed

lemma keeps_getRpc:
  assumes "\<And>r. keeps I (handle r)"
  shows "keeps I (getRpc handle body)"
proof -
  have "keeps I (handle_batch handle rs)" for rs by (induction rs) (auto intro!: keeps_intros assms)
  then show ?thesis unfolding getRpc_def by (auto intro!: keeps_intros assms split: js_value.split)
qed

text \<open>The life of a server: requests on both ports, and the timers while they are set.\<close>

inductive server_step :: "(server_state, 'r) server \<Rightarrow> server_state \<Rightarrow> server_state \<Rightarrow> bool" for S where
  srv_public: "server_step S s (snd (getRpc (handleRpcPublic S) body s))"
| srv_private: "server_step S s (snd (getRpc (handleRpcPrivate S) body s))"
| srv_cron: "reputationCron s \<noteq> None \<Longrightarrow> server_step S s (hourlyCron s)"
| srv_auto: "autoBundleInterval s \<noteq> None \<Longrightarrow> server_step S s (snd (attemptBundle (sv_exec S) (sv_bm S) True s))"

lemma sys_wf_server_steps:
  assumes b: "bundles_keep (sv_bm S)" and c: "counters_nonneg (sv_codec S)"
    and "(server_step S)\<^sup>*\<^sup>* s t" and "sys_wf s"
  shows "sys_wf t"
proof -
  have "keeps sys_wf (handleRpcPublic S r)" "keeps sys_wf (handleRpcPrivate S r)" for r
    unfolding handleRpcPublic_def handleRpcPrivate_def
    by (auto intro!: keeps_intros sys_wf_handleRpc [OF b c] split: option.split)
  note requests = keeps_getRpc [of sys_wf, OF this(1)] keeps_getRpc [of sys_wf, OF this(2)]
  have bs: "bundle_service (bm_sendNextBundle (sv_bm S)) (bm_handlePastEvents (sv_bm S)) sys_wf"
    using b by (simp add: bundles_keep_def)
  have step: "sys_wf v" if "server_step S u v" "sys_wf u" for u v
    using that by (induction rule: server_step.induct)
      (auto dest: keepsD [OF requests(1)] keepsD [OF requests(2)] keepsD [OF sys_wf_attemptBundle [OF bs]] sys_wf_updates(6))
  from assms(3) show ?thesis by (induction rule: rtranclp_induct) (use assms(4) step in blast)+
qed

lemma sys_wf_rip_push: "sys_wf s \<Longrightarrow> sys_wf (rip_push_sent h hs s)"
  by (simp add: rip_push_sent_def sys_wf_def pool_wf_def rep_wf_def)

lemma bundles_keep_managers:
  "bundles_keep (bm_ERC4337 C cfg bn q)" "bundles_keep (bm_RIP7560 R C cfg status bn send)"
  by (auto simp: bundles_keep_def bm_ERC4337_def bm_RIP7560_def rip_createBundle_def
      intro!: bm4337.bundle_service_axioms bm7560.bundle_service_axioms sys_wf_createBundle keeps_intros sys_wf_rip_handlePastEvents sys_wf_rip_push)

text \<open>C5: whatever requests arrive on the two ports of the server, single or in batches, in
  whatever order with the timers, well formed or not, failing or not, and with the debug methods
  (whose reputation counters are not negative) on or off: the pool never holds two operations with
  the same sender and nonce, and the reputation table stays well formed.\<close>

theorem server_always_well_formed:
  assumes "sv_bm S = bm_ERC4337 C cfg bn q \<and> counters_nonneg (sv_codec S) \<and> (server_step S)\<^sup>*\<^sup>* s t \<or>
           sv_bm S' = bm_RIP7560 R C cfg status bn send \<and> counters_nonneg (sv_codec S') \<and> (server_step S')\<^sup>*\<^sup>* s t"
    and "mempool s = []" and "entries s = []"
  shows "distinct (map (\<lambda>e. (sender (userOp e), getPackedNonce (lib t) (userOp e))) (mempool t)) \<and> rep_wf t"
proof -
  have s: "sys_wf s" using assms(2,3) by (simp add: sys_wf_def pool_wf_def rep_wf_def)
  have "sys_wf t"
    using assms(1) sys_wf_server_steps [of S s t] sys_wf_server_steps [of S' s t] s bundles_keep_managers by metis
  then show ?thesis by (simp add: sys_wf_def pool_wf_def pool_key_def [abs_def])
qed

section \<open>Sending without validation\<close>

text \<open>in RIP-7560 mode the method that skips validation is served on the public port whether or
  not the debug methods are switched on, and its effect and its response do not depend on what
  validation would say.\<close>

theorem skip_validation_always_open:
  assumes "js_props r = Some fs"
    and "js_field fs ''method'' = JsStr ''debug_bundler_sendTransactionSkipValidation''"
  shows "handleRpcPublic (S\<lparr>sv_debugRpc := d, sv_mk := (\<lambda>v. (sv_mk S v)\<lparr>vm_validateUserOp := f v\<rparr>)\<rparr>) r s = handleRpcPublic S r s"
proof -
  let ?S = "S\<lparr>sv_debugRpc := d, sv_mk := (\<lambda>v. (sv_mk S v)\<lparr>vm_validateUserOp := f v\<rparr>)\<rparr>"
  have "rip_send ?S ps True = rip_send S ps True" for ps
    by (simp add: rip_send_def sendRIP7560Transaction_def sendUserOperation_def cong: if_cong)
  then have "dispatch ?S fs = dispatch S fs"
    by (simp add: dispatch_def is_text_def assms(2) handleMethod_def handle_rip_def rip_only_def Let_def)
  then show ?thesis by (simp add: handleRpcPublic_def handleRpc_def assms)
qed

section \<open>A replaced configuration\<close>

text \<open>As long as no request sets a sender creator, replacing the configuration replaces the gas
  prices but not what the trace check accepts.\<close>

definition parser_as_configured :: "'z server_state_scheme \<Rightarrow> bool" where
  "parser_as_configured s \<longleftrightarrow> (\<forall>V p. exec_vm s = Some (V, p) \<longrightarrow>
     parser_setup p = parser_setup (new_parser (ve_lib V) (ve_entryPoint V) (or_else (vm_senderCreator s) []) None))"

lemma setConfiguration_keeps_parser:
  assumes "setConfiguration D overrides s = (Inr pvgc, t)"
  shows "parser_as_configured t"
    and "cd_senderCreator D overrides = None \<Longrightarrow> parser_as_configured s \<Longrightarrow> exec_vm s = Some (V, p) \<Longrightarrow> exec_vm t = Some (V', p') \<Longrightarrow>
      ve_pvg V' = pvgc \<and> fst (requireCompliance op c vr p') = fst (requireCompliance op c vr p)"
proof -
  obtain V0 p0 where s: "exec_vm s = Some (V0, p0)"
    using assms by (cases "exec_vm s") (auto simp: setConfiguration_def monad_simps)
  let ?merged = "if cd_senderCreator D overrides = None then vm_senderCreator s else cd_senderCreator D overrides"
  have t: "t = s\<lparr>exec_vm := Some (V0\<lparr>ve_pvg := pvgc, ve_native := True\<rparr>, new_parser (ve_lib V0) (ve_entryPoint V0) (or_else ?merged []) None),
      vm_senderCreator := ?merged\<rparr>"
    using assms s by (auto simp: setConfiguration_def monad_simps Let_def)
  then show "parser_as_configured t" by (simp add: parser_as_configured_def)
  show "ve_pvg V' = pvgc \<and> fst (requireCompliance op c vr p') = fst (requireCompliance op c vr p)"
    if h: "cd_senderCreator D overrides = None" "parser_as_configured s" "exec_vm s = Some (V, p)" "exec_vm t = Some (V', p')"
  proof -
    have "parser_setup p' = parser_setup p" using h s t by (auto simp: parser_as_configured_def)
    moreover have "ve_pvg V' = pvgc" using h(4) t by auto
    ultimately show ?thesis by (simp add: verdict_history_independent [of p' p])
  qed
qed

section \<open>Examples\<close>

definition codec_example :: "send_bundle_return codec" where
  "codec_example = \<lparr>cd_op = (\<lambda>op. JsStr (sender op)), cd_bigNumber = (\<lambda>v. None), cd_number = (\<lambda>v. 0),
     cd_reputation = (\<lambda>v. Inr [(''0xA'', 3, 1)]), cd_merge = (\<lambda>c v. c), cd_senderCreator = (\<lambda>v. None), cd_sent = (\<lambda>r. JsNull), cd_wrapped = (\<lambda>e. None),
     cd_debugInfo = (\<lambda>v. Inr JsNull), cd_chainId = Inr 1337, cd_depositInfo = (\<lambda>v a. Inr (0, 0))\<rparr>"

definition server_example :: "(server_state, send_bundle_return) server" where
  "server_example = \<lparr>sv_rpc = rpc_example, sv_exec = exec_config_example,
     sv_bm = bm_ERC4337 env_example cfg_example (Inr 5) (\<lambda>n. Inr []), sv_mk = (\<lambda>v. vm_example), sv_balance = (\<lambda>a. Inr 0),
     sv_debugRpc = False, sv_blockNumber = Inr 5, sv_events = (\<lambda>n. Inr []), sv_codec = codec_example\<rparr>"

definition server_start :: server_state where
  "server_start = exec_state.extend exec_example (server_state.fields MainnetConfig None None)"

definition call_example :: "string \<Rightarrow> int \<Rightarrow> js_value list \<Rightarrow> js_value" where
  "call_example m i ps = JsObj [(''id'', JsNum i), (''method'', JsStr m), (''params'', JsArr ps)]"

definition batch_example :: "js_value list" where
  "batch_example = [call_example ''eth_supportedEntryPoints'' 7 [], JsObj [],
     call_example ''eth_sendUserOperation'' 8 [JsObj request_example, JsStr ''0xee'']]"

lemma batch_example_props: "\<forall>r\<in>set batch_example. js_props r \<noteq> None"
  by (simp add: batch_example_def call_example_def js_props_def)

lemma batch_answered_in_order_witness:
  "\<exists>xs t. getRpc (handleRpcPublic server_example) (JsArr batch_example) server_start = (Inr (Batch xs), t) \<and>
     map rs_id xs = [JsNum 7, JsNull, JsNum 8]"
proof -
  have "map request_id batch_example = [JsNum 7, JsNull, JsNum 8]" by code_simp
  then show ?thesis
    using batch_answered_in_order [OF batch_example_props, of server_example server_start] by simp
qed

lemma null_in_batch_unanswered_witness:
  "fst (getRpc (handleRpcPublic server_example) (JsArr (batch_example @ [JsNull])) server_start) = Inl type_error"
  using null_in_batch_unanswered [OF batch_example_props, of server_example "[]" server_start] by simp

lemma public_writes_confined_witness:
  "snd (handleRpcPublic server_example (call_example ''debug_bundler_clearMempool'' 1 []) server_start) = server_start"
proof -
  have "\<not> sv_debugRpc server_example" "rip7560 (sv_exec server_example) = False"
    by (simp_all add: server_example_def exec_config_example_def)
  then show ?thesis
    by (intro public_writes_confined [where fs = "[(''id'', JsNum 1), (''method'', JsStr ''debug_bundler_clearMempool''), (''params'', JsArr [])]"])
       (simp_all add: call_example_def js_props_def js_field_def or_else_def writing_methods_def)
qed

lemma server_always_well_formed_witness:
  "rep_wf (snd (getRpc (handleRpcPublic server_example) (JsArr batch_example) server_start))"
proof -
  let ?t = "snd (getRpc (handleRpcPublic server_example) (JsArr batch_example) server_start)"
  have s: "mempool server_start = []" "entries server_start = []" by code_simp+
  have t: "(server_step server_example)\<^sup>*\<^sup>* server_start ?t" by (intro r_into_rtranclp srv_public)
  have S: "sv_bm server_example = bm_ERC4337 env_example cfg_example (Inr 5) (\<lambda>n. Inr [])"
    "counters_nonneg (sv_codec server_example)"
    by (simp_all add: server_example_def codec_example_def counters_nonneg_def)
  from server_always_well_formed [OF disjI1 [OF conjI [OF S(1) conjI [OF S(2) t]]] s]
  show ?thesis by (rule conjunct2)
qed

lemma skip_validation_always_open_witness:
  "handleRpcPublic (server_example\<lparr>sv_debugRpc := False,
       sv_mk := (\<lambda>v. (sv_mk server_example v)\<lparr>vm_validateUserOp := (\<lambda>op. Inl type_error)\<rparr>)\<rparr>)
     (call_example ''debug_bundler_sendTransactionSkipValidation'' 1 []) server_start =
   handleRpcPublic server_example (call_example ''debug_bundler_sendTransactionSkipValidation'' 1 []) server_start"
  by (rule skip_validation_always_open
        [where fs = "[(''id'', JsNum 1), (''method'', JsStr ''debug_bundler_sendTransactionSkipValidation''), (''params'', JsArr [])]"])
     (simp_all add: call_example_def js_props_def js_field_def or_else_def)

end
