(* ===== verification/ValidationManagerRIP7560.thy ===== *)
theory ValidationManagerRIP7560
  imports ERC7562Compliance BundleManagerRIP7560
begin

text \<open>
  \<^verbatim>\<open>packages/validation-manager/src/ValidationManagerRIP7560.ts\<close>: the validation of
  RIP-7560 transactions by the trace of the node. The node and the stake manager contract are
  the record \<open>rip_vm_env\<close>; the parser is the state the action runs on, as in
  \<open>ERC7562Parser\<close>. The lemmas: each entity gets its own stake, a transaction is accepted
  exactly when its trace obeys the rules, and what the constant result means for admission.
\<close>

section \<open>Environment\<close>

definition AA_ENTRY_POINT :: string where
  "AA_ENTRY_POINT = ''0x0000000000000000000000000000000000007560''"

definition AA_SENDER_CREATOR :: string where
  "AA_SENDER_CREATOR = ''0x00000000000000000000000000000000ffff7560''"

definition AA_STAKE_MANAGER :: string where
  "AA_STAKE_MANAGER = ''0xc142Db6f76A8B4Edb7D3F24638e4d6f8BC6199FE''"

definition AA_NONCE_MANAGER :: string where
  "AA_NONCE_MANAGER = ''0x59c405Dc6D032d9Ff675350FefC66F3b6c1bEbaB''"

text \<open>What \<^verbatim>\<open>provider.send\<close> throws: an error whose \<^verbatim>\<open>error\<close> property may have these fields.\<close>

record send_error =
  se_message :: "string option"
  se_code :: "int option"
  se_data :: "(string \<times> string) list option"

record rip_vm_env =
  re_lib :: ethers_lib
  re_unsafe :: bool
  re_stakeOf :: "string \<Rightarrow> int \<times> int"
    \<comment> \<open>stake and unstake delay that the stake manager holds for an address\<close>
  re_stakeCall :: "unit res"
    \<comment> \<open>whether the call of the stake manager succeeds\<close>
  re_send :: "operation \<Rightarrow> send_error + erc7562_call"
    \<comment> \<open>\<^verbatim>\<open>eth_traceRip7560Validation\<close>\<close>
  re_rip :: rip_lib

section \<open>Stakes\<close>

definition getStakeInfo :: "rip_vm_env \<Rightarrow> string list \<Rightarrow> (int \<times> int) list res" where
  "getStakeInfo E addresses = bindE (re_stakeCall E) (\<lambda>_. Inr (map (re_stakeOf E) addresses))"

record rip_stakes =
  rs_sender :: stake_info
  rs_paymaster :: "stake_info option"
  rs_factory :: "stake_info option"

definition given_address :: "ethers_lib \<Rightarrow> string option \<Rightarrow> string list" where
  "given_address L a = (case a of None \<Rightarrow> [] | Some x \<Rightarrow> if lib_isAddress L x then [x] else [])"

text \<open>\<^verbatim>\<open>{ addr, ...stakesInfo[i] }\<close>\<close>

definition stake_at :: "string \<Rightarrow> (int \<times> int) list \<Rightarrow> nat \<Rightarrow> stake_info" where
  "stake_at a infos i = \<lparr>addr = a, stake = fst (infos ! i), unstakeDelaySec = snd (infos ! i), pm_context = None\<rparr>"

definition getStakesInfo :: "rip_vm_env \<Rightarrow> operation \<Rightarrow> rip_stakes res" where
  "getStakesInfo E op =
     (let L = re_lib E;
          addresses = [sender op] @ given_address L (paymaster op) @ given_address L (factory op)
      in bindE (getStakeInfo E addresses) (\<lambda>stakesInfo.
           Inr \<lparr>rs_sender = stake_at (sender op) stakesInfo 0,
                rs_paymaster = (if given_address L (paymaster op) = [] then None
                  else Some (stake_at (the (paymaster op)) stakesInfo 1)),
                rs_factory = (if given_address L (factory op) = [] then None
                  else Some (stake_at (the (factory op)) stakesInfo (length addresses - 1)))\<rparr>))"

section \<open>Validation\<close>

definition rip_validateInputParameters :: "operation \<Rightarrow> string option \<Rightarrow> unit res" where
  "rip_validateInputParameters op entryPointInput = Inr ()"

definition eth_traceRip7560Validation :: "rip_vm_env \<Rightarrow> operation \<Rightarrow> erc7562_call res" where
  "eth_traceRip7560Validation E tx =
     (case re_send E tx of
        Inr trace \<Rightarrow> Inr trace
      | Inl e \<Rightarrow> Inl (RpcError (or_else (se_message e) ''RPC error'') (or_else (se_code e) (- 32000))
                         (or_else (se_data e) [])))"

definition traceValidation :: "rip_vm_env \<Rightarrow> operation \<Rightarrow> erc7562_call res" where
  "traceValidation E tx = eth_traceRip7560Validation E tx"

definition rip_validation_result :: "rip_stakes \<Rightarrow> validation_result" where
  "rip_validation_result st = \<lparr>preOpGas = None, prefund = None, sigFailed = False, validAfter = 0, validUntil = 0,
     senderInfo = rs_sender st, factoryInfo = rs_factory st, paymasterInfo = rs_paymaster st, aggregatorInfo = None\<rparr>"

text \<open>The literal that the method returns; it has no factory, paymaster or aggregator.\<close>

definition rip_constant_result :: validate_user_op_result where
  "rip_constant_result = \<lparr>
     preOpGas = Some 0, prefund = Some 0, sigFailed = False, validAfter = 0, validUntil = 0,
     senderInfo = \<lparr>addr = [], stake = 0, unstakeDelaySec = 0, pm_context = None\<rparr>,
     factoryInfo = None, paymasterInfo = None, aggregatorInfo = None,
     referencedContracts = \<lparr>ch_addresses = [], ch_hash = []\<rparr>, vr_storageMap = []\<rparr>"

definition rip_validateUserOp ::
  "rip_vm_env \<Rightarrow> operation \<Rightarrow> code_hashes option \<Rightarrow> (parser, validate_user_op_result) act" where
  "rip_validateUserOp E op previousCodeHashes =
     (if \<not> re_unsafe E then
        bindM (liftE (traceValidation E op)) (\<lambda>traceResult.
        bindM (liftE (getStakesInfo E op)) (\<lambda>stakesInfo.
        bindM (requireCompliance op traceResult (rip_validation_result stakesInfo)) (\<lambda>_.
          retM rip_constant_result)))
      else retM rip_constant_result)"

definition rip_getOperationHash :: "rip_vm_env \<Rightarrow> operation \<Rightarrow> string res" where
  "rip_getOperationHash E op = getRIP7560TransactionHash (re_rip E) op True"

section \<open>Each entity has its own stake\<close>

definition own_stake :: "rip_vm_env \<Rightarrow> string \<Rightarrow> stake_info" where
  "own_stake E a = \<lparr>addr = a, stake = fst (re_stakeOf E a), unstakeDelaySec = snd (re_stakeOf E a), pm_context = None\<rparr>"

definition own_stake_if :: "rip_vm_env \<Rightarrow> string option \<Rightarrow> stake_info option" where
  "own_stake_if E a =
     (case a of None \<Rightarrow> None | Some x \<Rightarrow> if lib_isAddress (re_lib E) x then Some (own_stake E x) else None)"

definition own_stakes :: "rip_vm_env \<Rightarrow> operation \<Rightarrow> rip_stakes" where
  "own_stakes E op = \<lparr>rs_sender = own_stake E (sender op), rs_paymaster = own_stake_if E (paymaster op),
     rs_factory = own_stake_if E (factory op)\<rparr>"

lemma getStakesInfo_own: "getStakesInfo E op = bindE (re_stakeCall E) (\<lambda>_. Inr (own_stakes E op))"
  by (cases "re_stakeCall E")
     (auto simp: getStakesInfo_def getStakeInfo_def own_stakes_def own_stake_if_def own_stake_def
        given_address_def stake_at_def Let_def nth_append split: option.splits)

section \<open>Acceptance\<close>

lemma bindM_fst_Inr_iff:
  "fst (bindM m f s) = Inr b \<longleftrightarrow> (\<exists>a. fst (m s) = Inr a \<and> fst (f a (snd (m s))) = Inr b)"
  by (auto simp: bindM_def split: prod.splits sum.splits)

text \<open>C20: outside unsafe mode a RIP-7560 transaction passes validation exactly when the node
  returns a trace, the stake manager answers, and the trace complies with every ERC-7562 rule,
  judged with each entity's own stake. What validation returns is then always the same value.\<close>

theorem rip_accepted_iff_compliant:
  "fst (rip_validateUserOp E op prev s) = Inr r \<longleftrightarrow>
     r = rip_constant_result \<and>
     (re_unsafe E \<or>
      (\<exists>trace fs. re_send E op = Inr trace \<and> re_stakeCall E = Inr () \<and>
         compliant op trace (rip_validation_result (own_stakes E op)) s fs))"
proof (cases "re_unsafe E")
  case True
  then show ?thesis by (auto simp: rip_validateUserOp_def retM_def)
next
  case False
  have tr: "traceValidation E op = Inr trace \<longleftrightarrow> re_send E op = Inr trace" for trace
    by (simp add: traceValidation_def eth_traceRip7560Validation_def split: sum.split)
  have st: "getStakesInfo E op = Inr st \<longleftrightarrow> re_stakeCall E = Inr () \<and> st = own_stakes E op" for st
    by (auto simp: getStakesInfo_own bindE_Inr_iff)
  show ?thesis
    using False
    by (auto simp: rip_validateUserOp_def bindM_fst_Inr_iff liftE_def retM_def tr st requireCompliance_Inr_iff)
qed

section \<open>Admission after the validation\<close>

text \<open>No operation is counted under the empty address, and it is on no list.\<close>

definition no_empty_address :: "'z pool_state_scheme \<Rightarrow> bool" where
  "no_empty_address s \<longleftrightarrow> obj_get (entries s) [] = None \<and> [] \<notin> blackList s \<and> entryCounts s [] = None"

lemma empty_address_ok:
  "no_empty_address s \<Longrightarrow> checkReputation rip_constant_result s = Inr ()"
  by (simp add: no_empty_address_def checkReputation_def checkReputationStatus_def rip_constant_result_def
      checkBanned_def requireCond_def getStatus_def entryCount_def calculateMaxAllowedMempoolOpsUnstaked_def
      SAME_SENDER_MEMPOOL_COUNT_def THROTTLED_ENTITY_MEMPOOL_COUNT_def Let_def toLowerCase_def)

text \<open>the admission checks look at the addresses in the validation result, which for a
  RIP-7560 transaction is the constant one: so no reputation, banned or throttled, of its sender,
  paymaster or factory keeps a validated transaction out of the pool.\<close>

theorem rip_admission_ignores_reputation:
  assumes "fst (rip_validateUserOp E op prev p) = Inr vr" and "no_empty_address s"
  shows "checkReputation vr s = Inr ()"
proof -
  have "vr = rip_constant_result"
    using assms(1) by (auto simp: rip_validateUserOp_def bindM_fst_Inr_iff retM_def split: if_splits)
  with assms(2) show ?thesis by (simp add: empty_address_ok)
qed

text \<open>A node whose trace is compliant, and a pool in which the sender is on the black list.\<close>

definition rip_env_example :: rip_vm_env where
  "rip_env_example = \<lparr>re_lib = base_lib, re_unsafe = False, re_stakeOf = (\<lambda>a. (0, 0)), re_stakeCall = Inr (),
     re_send = (\<lambda>op. Inr good_trace), re_rip = rip_lib_example\<rparr>"

definition rip_pool_example :: pool_state where
  "rip_pool_example = pool_example\<lparr>blackList := {''0xa''}, whitelist := {}, entries := []\<rparr>"

lemma rip_example_accepted:
  "fst (rip_validateUserOp rip_env_example op_a None parser_example) = Inr rip_constant_result"
  by code_simp

lemma rip_admission_ignores_reputation_witness:
  "getStatus (Some (sender op_a)) rip_pool_example = BANNED \<and> checkReputation rip_constant_result rip_pool_example = Inr ()"
proof -
  have "no_empty_address rip_pool_example" by code_simp
  with rip_example_accepted have "checkReputation rip_constant_result rip_pool_example = Inr ()"
    by (rule rip_admission_ignores_reputation)
  moreover have "getStatus (Some (sender op_a)) rip_pool_example = BANNED" by code_simp
  ultimately show ?thesis by simp
qed

end
