(* ===== verification/UserOperationEventListener.thy ===== *)
theory UserOperationEventListener
  imports Utils
begin

text \<open>
  \<^verbatim>\<open>packages/sdk/src/UserOperationEventListener.ts\<close>: the object that waits for the event of an
  operation and settles the promise of its receipt. Its callbacks and timers run in any order, so
  it is a step relation: a step is one piece of code that runs without \<^verbatim>\<open>await\<close>, and what is
  awaited is kept as a task. A rejected promise of a task ends it without any other effect.
\<close>

section \<open>State\<close>

record op_receipt =
  rc_transactionHash :: string
  rc_status :: int
  rc_blockHash :: string

record wait_args =
  wa_userOpHash :: string
  wa_success :: bool

text \<open>An event as the listener gets it: the arguments, if they could be decoded.\<close>

type_synonym wait_event = "wait_args option"

datatype settlement = Resolved op_receipt | Rejected string

text \<open>
  \<open>Query\<close> is the timer of \<^verbatim>\<open>start\<close> with its query; \<open>GetReceipt\<close> and \<open>GetReason\<close> are the two
  awaited calls of \<^verbatim>\<open>listenerCallback\<close>.
\<close>

datatype task = Query | GetReceipt wait_args | GetReason op_receipt

record listener =
  li_userOpHash :: string
  settled :: "settlement option"
    \<comment> \<open>the promise of the constructor: a later \<^verbatim>\<open>resolve\<close> or \<^verbatim>\<open>reject\<close> has no effect\<close>
  resolved :: bool
  registered :: bool
    \<comment> \<open>\<^verbatim>\<open>once\<close> is in force\<close>
  timer :: bool
  tasks :: "task list"

definition settle :: "settlement \<Rightarrow> listener \<Rightarrow> listener" where
  "settle v s = (if settled s = None then s\<lparr>settled := Some v\<rparr> else s)"

definition new_listener :: "string \<Rightarrow> listener" where
  "new_listener h = \<lparr>li_userOpHash = h, settled = None, resolved = False, registered = False, timer = True, tasks = []\<rparr>"

definition start_listener :: "listener \<Rightarrow> listener" where
  "start_listener s = s\<lparr>tasks := tasks s @ [Query]\<rparr>"

text \<open>\<^verbatim>\<open>off\<close> is called with the name of the event, \<^verbatim>\<open>once\<close> with a filter for the hash; whether ethers
  takes the two for the same listener is the parameter \<open>off_removes\<close>.\<close>

definition stop_listener :: "bool \<Rightarrow> listener \<Rightarrow> listener" where
  "stop_listener off_removes s = (if off_removes then s\<lparr>registered := False\<rparr> else s)"

section \<open>Callbacks\<close>

definition timed_out :: "bool \<Rightarrow> listener \<Rightarrow> listener" where
  "timed_out off_removes s = settle (Rejected ''Timed out'') (stop_listener off_removes (s\<lparr>timer := False\<rparr>))"

text \<open>\<^verbatim>\<open>listenerCallback\<close> up to its first \<^verbatim>\<open>await\<close>, from there to the second, and to its end.\<close>

definition listenerCallback :: "wait_event \<Rightarrow> listener \<Rightarrow> listener" where
  "listenerCallback event s =
     (case event of
        None \<Rightarrow> s
      | Some args \<Rightarrow>
          if wa_userOpHash args \<noteq> li_userOpHash s then s
          else s\<lparr>tasks := tasks s @ [GetReceipt args]\<rparr>)"

definition finish_callback :: "bool \<Rightarrow> op_receipt \<Rightarrow> listener \<Rightarrow> listener" where
  "finish_callback off_removes receipt s =
     (settle (Resolved receipt) (stop_listener off_removes s))\<lparr>resolved := True\<rparr>"

definition got_receipt :: "bool \<Rightarrow> wait_args \<Rightarrow> op_receipt \<Rightarrow> listener \<Rightarrow> listener" where
  "got_receipt off_removes args receipt0 s =
     (let receipt = receipt0\<lparr>rc_transactionHash := li_userOpHash s\<rparr> in
      if wa_success args then finish_callback off_removes receipt s
      else s\<lparr>tasks := tasks s @ [GetReason (receipt\<lparr>rc_status := 0\<rparr>)]\<rparr>)"

text \<open>\<^verbatim>\<open>extractFailureReason\<close> with the reasons its query found; \<open>decode\<close> is the ABI decoder of a string.\<close>

definition failure_message :: "(string \<Rightarrow> string) \<Rightarrow> string \<Rightarrow> string" where
  "failure_message decode message =
     (if startsWith message ''0x08c379a0'' then decode (''0x'' @ drop 10 message) else message)"

definition got_reason :: "bool \<Rightarrow> (string \<Rightarrow> string) \<Rightarrow> op_receipt \<Rightarrow> string list \<Rightarrow> listener \<Rightarrow> listener" where
  "got_reason off_removes decode receipt reasons s =
     finish_callback off_removes receipt
       (case reasons of
          [] \<Rightarrow> s
        | m # ms \<Rightarrow> settle (Rejected (''UserOp failed with reason: '' @ failure_message decode m)) s)"

definition got_events :: "wait_event list \<Rightarrow> listener \<Rightarrow> listener" where
  "got_events res s =
     (case res of
        [] \<Rightarrow> s\<lparr>registered := True\<rparr>
      | e # es \<Rightarrow> listenerCallback e s)"

definition end_task :: "task \<Rightarrow> listener \<Rightarrow> listener" where
  "end_task t s = s\<lparr>tasks := remove1 t (tasks s)\<rparr>"

section \<open>Steps\<close>

text \<open>What happens to a listener: its timer, an event it is registered for (\<^verbatim>\<open>once\<close> removes it
  first), and the answers to its tasks, \<open>None\<close> for a call that failed.\<close>

inductive listen_step :: "bool \<Rightarrow> (string \<Rightarrow> string) \<Rightarrow> listener \<Rightarrow> listener \<Rightarrow> bool" for off_removes decode where
  on_timeout: "timer s \<Longrightarrow> listen_step off_removes decode s (timed_out off_removes s)"
| on_event: "registered s \<Longrightarrow> listen_step off_removes decode s (listenerCallback e (s\<lparr>registered := False\<rparr>))"
| on_events: "Query \<in> set (tasks s) \<Longrightarrow> listen_step off_removes decode s (got_events es (end_task Query s))"
| on_receipt: "GetReceipt a \<in> set (tasks s) \<Longrightarrow>
    listen_step off_removes decode s (got_receipt off_removes a r (end_task (GetReceipt a) s))"
| on_reason: "GetReason r \<in> set (tasks s) \<Longrightarrow>
    listen_step off_removes decode s (got_reason off_removes decode r ms (end_task (GetReason r) s))"
| on_failure: "t \<in> set (tasks s) \<Longrightarrow> listen_step off_removes decode s (end_task t s)"

inductive_cases listen_stepE: "listen_step off_removes decode s t"

section \<open>A promise is settled once\<close>

lemma settle_simps [simp]:
  "settled (settle v s) = Some (case settled s of None \<Rightarrow> v | Some w \<Rightarrow> w)"
  "li_userOpHash (settle v s) = li_userOpHash s" "tasks (settle v s) = tasks s" "timer (settle v s) = timer s"
  by (auto simp: settle_def split: option.split)

lemma stop_listener_simps [simp]:
  "settled (stop_listener b s) = settled s" "li_userOpHash (stop_listener b s) = li_userOpHash s"
  "tasks (stop_listener b s) = tasks s" "timer (stop_listener b s) = timer s"
  by (simp_all add: stop_listener_def)

lemmas callback_defs = timed_out_def listenerCallback_def finish_callback_def got_receipt_def got_reason_def
  got_events_def end_task_def Let_def

text \<open>The invariant: once the timer has fired the promise is settled, a settlement carries the hash
  and status it should, and so do the receipts on the way.\<close>

definition settlement_ok :: "string \<Rightarrow> settlement \<Rightarrow> bool" where
  "settlement_ok h v = (case v of Resolved r \<Rightarrow> rc_transactionHash r = h | Rejected m \<Rightarrow> True)"

definition task_ok :: "string \<Rightarrow> task \<Rightarrow> bool" where
  "task_ok h t = (case t of Query \<Rightarrow> True | GetReceipt a \<Rightarrow> wa_userOpHash a = h
     | GetReason r \<Rightarrow> rc_transactionHash r = h \<and> rc_status r = 0)"

definition listener_ok :: "string \<Rightarrow> listener \<Rightarrow> bool" where
  "listener_ok h s \<longleftrightarrow> li_userOpHash s = h \<and> (timer s \<or> settled s \<noteq> None) \<and>
     (\<forall>v. settled s = Some v \<longrightarrow> settlement_ok h v) \<and> (\<forall>t\<in>set (tasks s). task_ok h t)"

lemma listener_ok_step:
  assumes "listen_step b d s t" and "listener_ok h s"
  shows "listener_ok h t"
proof -
  have sub: "set (remove1 x (tasks s)) \<subseteq> set (tasks s)" for x by (rule set_remove1_subset)
  show ?thesis
    using assms(1)
  proof cases
    case (on_event e)
    then show ?thesis using assms(2)
      by (auto simp: listener_ok_def listenerCallback_def task_ok_def split: option.split)
  next
    case (on_events es)
    then have "listener_ok h (end_task Query s)" using assms(2) sub by (auto simp: listener_ok_def end_task_def)
    then show ?thesis unfolding on_events(1)
      by (cases es; cases "hd es") (auto simp: listener_ok_def got_events_def listenerCallback_def task_ok_def)
  next
    case (on_receipt a r)
    then show ?thesis using assms(2) sub
      by (auto simp: listener_ok_def callback_defs task_ok_def settlement_ok_def split: option.split)
  next
    case (on_reason r ms)
    then have "task_ok h (GetReason r)" using assms(2) by (auto simp: listener_ok_def)
    then show ?thesis using on_reason assms(2) sub
      by (auto simp: listener_ok_def callback_defs task_ok_def settlement_ok_def split: option.split list.split)
  qed (use assms(2) sub in \<open>auto simp: listener_ok_def callback_defs task_ok_def settlement_ok_def split: option.split\<close>)
qed

lemma settled_stays:
  assumes "listen_step b d s t" and "settled s = Some v"
  shows "settled t = Some v"
  using assms
  by cases (auto simp: callback_defs split: option.split list.split)

lemma timer_stays_off:
  assumes "listen_step b d s t" and "\<not> timer s"
  shows "\<not> timer t"
  using assms by cases (auto simp: callback_defs split: option.split list.split)

lemma listener_ok_steps:
  assumes "(listen_step b d)\<^sup>*\<^sup>* (start_listener (new_listener h)) s"
  shows "listener_ok h s"
  using assms
proof (induction rule: rtranclp_induct)
  case base
  show ?case by (simp add: start_listener_def new_listener_def listener_ok_def task_ok_def)
qed (rule listener_ok_step)

section \<open>Promises of a listener\<close>

text \<open>An infinite run of a listener, in which it may also pause.\<close>

definition listener_run :: "bool \<Rightarrow> (string \<Rightarrow> string) \<Rightarrow> string \<Rightarrow> (nat \<Rightarrow> listener) \<Rightarrow> bool" where
  "listener_run b d h run \<longleftrightarrow> run 0 = start_listener (new_listener h) \<and>
     (\<forall>i. listen_step b d (run i) (run (Suc i)) \<or> run (Suc i) = run i)"

lemma listener_run_steps:
  assumes "listener_run b d h run" and "i \<le> j"
  shows "(listen_step b d)\<^sup>*\<^sup>* (run i) (run j)"
  using assms(2)
proof (induction j rule: dec_induct)
  case (step j)
  then show ?case using assms(1) by (metis listener_run_def rtranclp.rtrancl_into_rtrancl)
qed simp

text \<open>C12: liveness of a wait: in every run in which the timer is not starved (it fires at some point),
  whatever the node answers, in whatever order, and whichever calls fail, the promise of the
  receipt is settled at some point and keeps that value forever.\<close>

theorem wait_always_settles:
  assumes "listener_run b d h run" and "\<exists>n. \<not> timer (run n)"
  shows "\<exists>n v. settlement_ok h v \<and> (\<forall>m\<ge>n. settled (run m) = Some v)"
proof -
  obtain n where n: "\<not> timer (run n)" using assms(2) by blast
  have "listener_ok h (run n)"
    using listener_run_steps [OF assms(1), of 0 n] assms(1) by (simp add: listener_run_def listener_ok_steps)
  then obtain v where v: "settled (run n) = Some v" "settlement_ok h v" using n by (auto simp: listener_ok_def)
  have "settled t = Some v" if "(listen_step b d)\<^sup>*\<^sup>* (run n) t" for t
    using that by (induction rule: rtranclp_induct) (use v settled_stays in blast)+
  then show ?thesis using v(2) listener_run_steps [OF assms(1)] by blast
qed

text \<open>the receipt of a failed operation never looks like a success: once the event that the
  callback takes up says the operation failed, every way the callback can go on leaves the promise
  as it was, or rejects it with the reason, or resolves it with a receipt of status 0 under the
  hash of the operation.\<close>

theorem failure_never_resolved_as_success:
  assumes "listener_ok h s" and "settled s = None" and "GetReceipt a \<in> set (tasks s)" and "\<not> wa_success a"
    and "s1 = got_receipt b a r (end_task (GetReceipt a) s)"
    and "s2 = got_reason b d (r\<lparr>rc_transactionHash := h, rc_status := 0\<rparr>) reasons (end_task (GetReason (r\<lparr>rc_transactionHash := h, rc_status := 0\<rparr>)) s1)"
  shows "settled s1 = None \<and> GetReason (r\<lparr>rc_transactionHash := h, rc_status := 0\<rparr>) \<in> set (tasks s1) \<and>
    settled s2 = Some (case reasons of [] \<Rightarrow> Resolved (r\<lparr>rc_transactionHash := h, rc_status := 0\<rparr>)
      | m # ms \<Rightarrow> Rejected (''UserOp failed with reason: '' @ failure_message d m))"
  using assms by (auto simp: listener_ok_def callback_defs split: list.split)

section \<open>An example\<close>

definition receipt_example :: op_receipt where
  "receipt_example = \<lparr>rc_transactionHash = ''0xt'', rc_status = 1, rc_blockHash = ''0xb''\<rparr>"

definition run_example :: "nat \<Rightarrow> listener" where
  "run_example n = (let s0 = start_listener (new_listener ''0x7'');
       s1 = got_events [Some \<lparr>wa_userOpHash = ''0x7'', wa_success = True\<rparr>] (end_task Query s0);
       s2 = got_receipt False \<lparr>wa_userOpHash = ''0x7'', wa_success = True\<rparr> receipt_example
              (end_task (GetReceipt \<lparr>wa_userOpHash = ''0x7'', wa_success = True\<rparr>) s1)
     in if n = 0 then s0 else if n = 1 then s1 else if n = 2 then s2 else timed_out False s2)"

lemma run_example_run: "listener_run False id ''0x7'' run_example"
proof -
  have "listen_step False id (run_example 0) (run_example 1)"
    by (simp add: run_example_def Let_def) (rule on_events, simp add: start_listener_def new_listener_def)
  moreover have "listen_step False id (run_example 1) (run_example 2)"
    by (simp add: run_example_def Let_def)
       (rule on_receipt, simp add: callback_defs start_listener_def new_listener_def)
  moreover have "listen_step False id (run_example 2) (run_example 3)"
    by (simp add: run_example_def Let_def)
       (rule on_timeout, simp add: callback_defs start_listener_def new_listener_def)
  moreover have "run_example (Suc n) = run_example n" if "3 \<le> n" for n using that by (simp add: run_example_def)
  ultimately have "listen_step False id (run_example n) (run_example (Suc n)) \<or> run_example (Suc n) = run_example n" for n
    by (cases "3 \<le> n") (auto simp: not_le numeral_eq_Suc less_Suc_eq)
  then show ?thesis by (simp add: listener_run_def run_example_def)
qed

lemma wait_always_settles_witness:
  "\<exists>n v. settlement_ok ''0x7'' v \<and> (\<forall>m\<ge>n. settled (run_example m) = Some v)"
proof -
  have "\<not> timer (run_example 3)" by (simp add: run_example_def Let_def timed_out_def)
  then show ?thesis using wait_always_settles [OF run_example_run] by blast
qed

definition failed_example :: listener where
  "failed_example = (start_listener (new_listener ''0x7''))\<lparr>tasks := [GetReceipt \<lparr>wa_userOpHash = ''0x7'', wa_success = False\<rparr>]\<rparr>"

lemma failure_never_resolved_as_success_witness:
  "settled (got_reason False id (receipt_example\<lparr>rc_transactionHash := ''0x7'', rc_status := 0\<rparr>) [''0x1234'']
     (end_task (GetReason (receipt_example\<lparr>rc_transactionHash := ''0x7'', rc_status := 0\<rparr>))
       (got_receipt False \<lparr>wa_userOpHash = ''0x7'', wa_success = False\<rparr> receipt_example
         (end_task (GetReceipt \<lparr>wa_userOpHash = ''0x7'', wa_success = False\<rparr>) failed_example)))) =
   Some (Rejected ''UserOp failed with reason: 0x1234'')"
proof -
  have "listener_ok ''0x7'' failed_example" "settled failed_example = None"
    "GetReceipt \<lparr>wa_userOpHash = ''0x7'', wa_success = False\<rparr> \<in> set (tasks failed_example)"
    "\<not> wa_success \<lparr>wa_userOpHash = ''0x7'', wa_success = False\<rparr>"
    by (simp_all add: listener_ok_def failed_example_def start_listener_def new_listener_def task_ok_def)
  note w = failure_never_resolved_as_success [OF this refl refl, of False receipt_example id "[''0x1234'']"]
  have "failure_message id ''0x1234'' = ''0x1234''" by code_simp
  then show ?thesis using w by simp
qed

end
