(* ===== verification/ClientSDK.thy ===== *)
theory ClientSDK
  imports ERC4337Utils UserOperationEventListener
begin

text \<open>
  The client of \<^verbatim>\<open>packages/sdk/src\<close>: \<^verbatim>\<open>BaseAccountAPI.ts\<close>, which turns a call into a signed
  operation with the help of five methods of a concrete account, \<^verbatim>\<open>SimpleAccountAPI.ts\<close>, which
  implements them, and what \<^verbatim>\<open>ERC4337EthersProvider.ts\<close>, \<^verbatim>\<open>ERC4337EthersSigner.ts\<close> and
  \<^verbatim>\<open>HttpRpcClient.ts\<close> add to send it and to wait for it. The node is a record of answers, which may
  be another one for every call of the API.
\<close>

section \<open>The node and the account\<close>

record node =
  nd_hex :: hex_lib
  nd_getCode :: "string \<Rightarrow> string res"
  nd_estimateGas :: "string \<Rightarrow> string \<Rightarrow> string option \<Rightarrow> int res"
    \<comment> \<open>\<^verbatim>\<open>from\<close>, \<^verbatim>\<open>to\<close> and \<^verbatim>\<open>data\<close>\<close>
  nd_feeData :: "(int option \<times> int option) res"
  nd_chainId :: "int res"
  nd_senderCreator :: "string res"
  nd_getSenderAddress :: "string \<Rightarrow> string res"
    \<comment> \<open>the address in the error that \<^verbatim>\<open>getSenderAddress\<close> of the entry point reverts with\<close>
  nd_accountNonce :: "string \<Rightarrow> int res"

record factory_params =
  fp_factory :: string
  fp_factoryData :: "string option"

record paymaster_params =
  pp_paymaster :: string
  pp_paymasterData :: "string option"
  pp_paymasterVerificationGasLimit :: int
  pp_paymasterPostOpGasLimit :: int

record tx_details =
  td_target :: string
  td_callData :: string
  td_callValue :: "int option"
  td_callGas :: "int option"
  td_feePerGas :: "int option"
  td_priorityFeePerGas :: "int option"
  td_opNonce :: "int option"

record account_params =
  ap_entryPointAddress :: string
  ap_accountAddress :: "string option"
  ap_paymasterAPI :: "(operation \<Rightarrow> paymaster_params option res) option"
    \<comment> \<open>\<^verbatim>\<open>getTemporaryPaymasterData\<close>\<close>

record account_state =
  senderAddress :: "string option"
  isPhantom :: bool

text \<open>The abstract methods.\<close>

record 's account_impl =
  im_getFactoryData :: "('s, factory_params option) act"
  im_getNonce :: "('s, int) act"
  im_encodeExecute :: "string \<Rightarrow> int \<Rightarrow> string \<Rightarrow> ('s, string) act"
  im_signUserOpHash :: "string \<Rightarrow> string res"

section \<open>BaseAccountAPI\<close>

text \<open>\<^verbatim>\<open>PaymasterAPI.getTemporaryPaymasterData\<close> of the base class.\<close>

definition base_getTemporaryPaymasterData :: "operation \<Rightarrow> paymaster_params option res" where
  "base_getTemporaryPaymasterData op = Inr None"

definition getCounterFactualAddress :: "node \<Rightarrow> ('z account_state_scheme) account_impl \<Rightarrow> ('z account_state_scheme, string) act" where
  "getCounterFactualAddress N I =
     bindM (im_getFactoryData I) (\<lambda>fd.
       case fd of
         None \<Rightarrow> throwM (JsError ''no counter factual address if not factory'' None)
       | Some f \<Rightarrow> liftE (bindE (hx_concat (nd_hex N) [fp_factory f, or_else (fp_factoryData f) ''0x'']) (nd_getSenderAddress N)))"

definition getAccountAddress ::
  "node \<Rightarrow> account_params \<Rightarrow> ('z account_state_scheme) account_impl \<Rightarrow> ('z account_state_scheme, string) act" where
  "getAccountAddress N A I = lookM (\<lambda>s.
     case senderAddress s of
       Some a \<Rightarrow> retM a
     | None \<Rightarrow>
         bindM (case ap_accountAddress A of Some a \<Rightarrow> retM a | None \<Rightarrow> getCounterFactualAddress N I) (\<lambda>a.
         thenM (modifyM (\<lambda>t. t\<lparr>senderAddress := Some a\<rparr>)) (retM a)))"

definition init_account :: "node \<Rightarrow> account_params \<Rightarrow> ('z account_state_scheme) account_impl \<Rightarrow> ('z account_state_scheme, unit) act" where
  "init_account N A I =
     bindM (liftE (nd_getCode N (ap_entryPointAddress A))) (\<lambda>code.
       if code = ''0x'' then throwM (JsError (''entryPoint not deployed at '' @ ap_entryPointAddress A) None)
       else bindM (getAccountAddress N A I) (\<lambda>_. retM ()))"

definition checkAccountPhantom ::
  "node \<Rightarrow> account_params \<Rightarrow> ('z account_state_scheme) account_impl \<Rightarrow> ('z account_state_scheme, bool) act" where
  "checkAccountPhantom N A I = lookM (\<lambda>s.
     if \<not> isPhantom s then retM False
     else bindM (getAccountAddress N A I) (\<lambda>a.
          bindM (liftE (nd_getCode N a)) (\<lambda>code.
          thenM (if length code > 2 then modifyM (\<lambda>t. t\<lparr>isPhantom := False\<rparr>) else retM ())
          (getM isPhantom))))"

definition getRequiredFactoryData ::
  "node \<Rightarrow> account_params \<Rightarrow> ('z account_state_scheme) account_impl \<Rightarrow> ('z account_state_scheme, factory_params option) act" where
  "getRequiredFactoryData N A I =
     bindM (checkAccountPhantom N A I) (\<lambda>phantom. if phantom then im_getFactoryData I else retM None)"

definition getVerificationGasLimit :: int where
  "getVerificationGasLimit = 100000"

definition encodeUserOpCallDataAndGasLimit ::
  "node \<Rightarrow> account_params \<Rightarrow> ('z account_state_scheme) account_impl \<Rightarrow> tx_details \<Rightarrow> ('z account_state_scheme, string \<times> int) act" where
  "encodeUserOpCallDataAndGasLimit N A I d =
     bindM (im_encodeExecute I (td_target d) (or_else (td_callValue d) 0) (td_callData d)) (\<lambda>callData'.
     bindM (case td_callGas d of
              Some g \<Rightarrow> retM g
            | None \<Rightarrow> bindM (getAccountAddress N A I) (\<lambda>a. liftE (nd_estimateGas N (ap_entryPointAddress A) a (Some callData')))) (\<lambda>callGasLimit'.
       retM (callData', callGasLimit')))"

definition base_getUserOpHash :: "node \<Rightarrow> account_params \<Rightarrow> operation \<Rightarrow> string res" where
  "base_getUserOpHash N A op =
     bindE (nd_chainId N) (\<lambda>chainId. getUserOpHash (nd_hex N) op (ap_entryPointAddress A) chainId)"

definition estimateCreationGas :: "node \<Rightarrow> factory_params option \<Rightarrow> int res" where
  "estimateCreationGas N factoryParams =
     (case factoryParams of
        None \<Rightarrow> Inr 0
      | Some f \<Rightarrow> bindE (nd_senderCreator N) (\<lambda>creator. nd_estimateGas N creator (fp_factory f) (fp_factoryData f)))"

text \<open>The fees, from the node where the caller gives none; \<^verbatim>\<open>undefined\<close> when the node has none either.\<close>

definition fill_fees :: "node \<Rightarrow> tx_details \<Rightarrow> (int option \<times> int option) res" where
  "fill_fees N d =
     (if td_feePerGas d = None \<or> td_priorityFeePerGas d = None then
        bindE (nd_feeData N) (\<lambda>(fee, priority).
          Inr (if td_feePerGas d = None then fee else td_feePerGas d,
               if td_priorityFeePerGas d = None then priority else td_priorityFeePerGas d))
      else Inr (td_feePerGas d, td_priorityFeePerGas d))"

text \<open>An operation before it is signed; a fee that is \<^verbatim>\<open>undefined\<close> is 0 in the operation and noted,
  because every use of it as a number throws.\<close>

record unsigned_op =
  un_op :: operation
  un_fees :: bool

definition with_paymaster :: "account_params \<Rightarrow> operation \<Rightarrow> operation res" where
  "with_paymaster A op =
     (case ap_paymasterAPI A of
        None \<Rightarrow> Inr op
      | Some api \<Rightarrow> bindE (api op) (\<lambda>pmFields.
          case pmFields of
            None \<Rightarrow> Inr op
          | Some f \<Rightarrow> Inr (op\<lparr>paymaster := Some (pp_paymaster f), paymasterPostOpGasLimit := Some (pp_paymasterPostOpGasLimit f),
              paymasterVerificationGasLimit := Some (pp_paymasterVerificationGasLimit f), paymasterData := pp_paymasterData f\<rparr>)))"

definition createUnsignedUserOp ::
  "node \<Rightarrow> account_params \<Rightarrow> ('z account_state_scheme) account_impl \<Rightarrow> tx_details \<Rightarrow> ('z account_state_scheme, unsigned_op) act" where
  "createUnsignedUserOp N A I d =
     bindM (encodeUserOpCallDataAndGasLimit N A I d) (\<lambda>(callData', callGasLimit').
     bindM (getRequiredFactoryData N A I) (\<lambda>factoryParams.
     bindM (liftE (estimateCreationGas N factoryParams)) (\<lambda>initGas.
     bindM (liftE (fill_fees N d)) (\<lambda>(fee, priority).
     bindM (getAccountAddress N A I) (\<lambda>a.
     bindM (case td_opNonce d of Some n \<Rightarrow> retM n | None \<Rightarrow> im_getNonce I) (\<lambda>n.
     let partialUserOp = \<lparr>sender = a, nonce = n, factory = map_option fp_factory factoryParams,
           factoryData = Option.bind factoryParams fp_factoryData, paymaster = None, paymasterData = None,
           maxFeePerGas = or_else fee 0, maxPriorityFeePerGas = or_else priority 0, callGasLimit = callGasLimit',
           verificationGasLimit = getVerificationGasLimit + initGas, paymasterVerificationGasLimit = None,
           paymasterPostOpGasLimit = None, callData = Some callData', signature = None, preVerificationGas = None,
           eip7702Auth = None, op_chainId = None, builderFee = None, executionData = None, authorizationData = None,
           nonceKey = None, authorizationList = Some []\<rparr>
     in bindM (liftE (with_paymaster A partialUserOp)) (\<lambda>op.
          retM \<lparr>un_op = op\<lparr>preVerificationGas := Some 60000, signature := Some []\<rparr>, un_fees = (fee \<noteq> None \<and> priority \<noteq> None)\<rparr>)))))))"

definition signUserOp ::
  "node \<Rightarrow> account_params \<Rightarrow> ('z account_state_scheme) account_impl \<Rightarrow> unsigned_op \<Rightarrow> operation res" where
  "signUserOp N A I u =
     (if \<not> un_fees u then Inl (JsError ''invalid BigNumber value'' None)
      else bindE (base_getUserOpHash N A (un_op u)) (\<lambda>userOpHash'.
           bindE (im_signUserOpHash I userOpHash') (\<lambda>sig. Inr ((un_op u)\<lparr>signature := Some sig\<rparr>))))"

definition createSignedUserOp ::
  "node \<Rightarrow> account_params \<Rightarrow> ('z account_state_scheme) account_impl \<Rightarrow> tx_details \<Rightarrow> ('z account_state_scheme, operation) act" where
  "createSignedUserOp N A I d = bindM (createUnsignedUserOp N A I d) (\<lambda>u. liftE (signUserOp N A I u))"

text \<open>\<^verbatim>\<open>getUserOpReceipt\<close>: the clock is read before every poll; \<open>clock i\<close> is its \<open>i\<close>-th reading and
  \<open>polled i\<close> the transactions of the events that the \<open>i\<close>-th query finds. The number of polls is bounded
  by \<open>fuel\<close>.\<close>

fun poll_receipt :: "nat \<Rightarrow> int \<Rightarrow> (nat \<Rightarrow> int) \<Rightarrow> (nat \<Rightarrow> string list res) \<Rightarrow> nat \<Rightarrow> string option res option" where
  "poll_receipt 0 endtime clock polled i = None"
| "poll_receipt (Suc fuel) endtime clock polled i =
     (if clock i < endtime then
        (case polled i of
           Inl e \<Rightarrow> Some (Inl e)
         | Inr (h # hs) \<Rightarrow> Some (Inr (Some h))
         | Inr [] \<Rightarrow> poll_receipt fuel endtime clock polled (Suc i))
      else Some (Inr None))"

definition getUserOpReceipt :: "nat \<Rightarrow> int \<Rightarrow> int \<Rightarrow> (nat \<Rightarrow> int) \<Rightarrow> (nat \<Rightarrow> string list res) \<Rightarrow> string option res option" where
  "getUserOpReceipt fuel now timeout clock polled = poll_receipt fuel (now + timeout) clock polled 0"

section \<open>SimpleAccountAPI\<close>

record simple_state = account_state +
  accountContract :: "string option"
  connectedFactory :: "string option"

record simple_params =
  sp_account :: account_params
  sp_factoryAddress :: "string option"
  sp_owner :: "string res"
  sp_index :: int
  sp_encodeCreate :: "string \<Rightarrow> int \<Rightarrow> string res"
    \<comment> \<open>call data of \<^verbatim>\<open>createAccount\<close>\<close>
  sp_encodeExecute :: "string \<Rightarrow> int \<Rightarrow> string \<Rightarrow> string res"
    \<comment> \<open>call data of \<^verbatim>\<open>execute\<close>\<close>
  sp_sign :: "string \<Rightarrow> string res"
    \<comment> \<open>\<^verbatim>\<open>ecsign\<close> with the key of the owner, as a signature of the RPC interface\<close>

definition simple_getFactoryData :: "simple_params \<Rightarrow> ('z simple_state_scheme, factory_params option) act" where
  "simple_getFactoryData P = lookM (\<lambda>s.
     bindM (case connectedFactory s of
              Some f \<Rightarrow> retM f
            | None \<Rightarrow> (case sp_factoryAddress P of
                Some f \<Rightarrow> if f \<noteq> [] then thenM (modifyM (\<lambda>t. t\<lparr>connectedFactory := Some f\<rparr>)) (retM f)
                          else throwM (JsError ''no factory to get initCode'' None)
              | None \<Rightarrow> throwM (JsError ''no factory to get initCode'' None))) (\<lambda>f.
     bindM (liftE (sp_owner P)) (\<lambda>owner.
     bindM (liftE (sp_encodeCreate P owner (sp_index P))) (\<lambda>fd.
       retM (Some \<lparr>fp_factory = f, fp_factoryData = Some fd\<rparr>)))))"

text \<open>\<open>getAccountAddress\<close> and \<open>checkAccountPhantom\<close> only call the factory method of the account.\<close>

definition simple_factory_only :: "simple_params \<Rightarrow> ('z simple_state_scheme) account_impl" where
  "simple_factory_only P = \<lparr>im_getFactoryData = simple_getFactoryData P, im_getNonce = throwM (JsError [] None),
     im_encodeExecute = (\<lambda>t v d. throwM (JsError [] None)), im_signUserOpHash = (\<lambda>h. Inl (JsError [] None))\<rparr>"

definition getAccountContract :: "node \<Rightarrow> simple_params \<Rightarrow> ('z simple_state_scheme, string) act" where
  "getAccountContract N P = lookM (\<lambda>s.
     case accountContract s of
       Some c \<Rightarrow> retM c
     | None \<Rightarrow> bindM (getAccountAddress N (sp_account P) (simple_factory_only P)) (\<lambda>a.
         thenM (modifyM (\<lambda>t. t\<lparr>accountContract := Some a\<rparr>)) (retM a)))"

definition simple_getNonce :: "node \<Rightarrow> simple_params \<Rightarrow> ('z simple_state_scheme, int) act" where
  "simple_getNonce N P =
     bindM (checkAccountPhantom N (sp_account P) (simple_factory_only P)) (\<lambda>phantom.
       if phantom then retM 0
       else bindM (getAccountContract N P) (\<lambda>c. liftE (nd_accountNonce N c)))"

definition simple_encodeExecute :: "node \<Rightarrow> simple_params \<Rightarrow> string \<Rightarrow> int \<Rightarrow> string \<Rightarrow> ('z simple_state_scheme, string) act" where
  "simple_encodeExecute N P target value data =
     bindM (getAccountContract N P) (\<lambda>_. liftE (sp_encodeExecute P target value data))"

definition simple_account :: "node \<Rightarrow> simple_params \<Rightarrow> ('z simple_state_scheme) account_impl" where
  "simple_account N P = \<lparr>im_getFactoryData = simple_getFactoryData P, im_getNonce = simple_getNonce N P,
     im_encodeExecute = simple_encodeExecute N P, im_signUserOpHash = sp_sign P\<rparr>"

definition new_simple_account :: simple_state where
  "new_simple_account = \<lparr>senderAddress = None, isPhantom = True, accountContract = None, connectedFactory = None\<rparr>"

section \<open>Sending and waiting\<close>

definition validateChainId :: "string \<Rightarrow> int \<Rightarrow> (string \<Rightarrow> string) \<Rightarrow> string res \<Rightarrow> unit res" where
  "validateChainId bundlerUrl chainId show_chain chain =
     bindE chain (\<lambda>c. if parseInt None c \<noteq> Some chainId
       then Inl (JsError (''bundler '' @ bundlerUrl @ '' is on chainId '' @ show_chain c @ '', but provider is on chainId '' @ show_int chainId) None)
       else Inr ())"

definition verifyAllNecessaryFields :: "string option \<Rightarrow> string option \<Rightarrow> int option \<Rightarrow> unit res" where
  "verifyAllNecessaryFields tx_to' data value =
     (if tx_to' = None then Inl (JsError ''Missing call target'' None)
      else if data = None \<and> value = None then Inl (JsError ''Missing call data or value'' None) else Inr ())"

record op_response =
  or_hash :: string
  or_from :: string
  or_nonce :: int
  or_gasLimit :: int
  or_data :: string
  or_chainId :: int
  or_wait :: listener
    \<comment> \<open>the listener that \<^verbatim>\<open>wait\<close> starts\<close>

definition constructUserOpTransactionResponse :: "hex_lib \<Rightarrow> string \<Rightarrow> int \<Rightarrow> operation \<Rightarrow> op_response res" where
  "constructUserOpTransactionResponse H entryPointAddress chainId op =
     bindE (getUserOpHash H op entryPointAddress chainId) (\<lambda>userOpHash'.
     bindE (toNumber (nonce op)) (\<lambda>n.
     bindE (case callData op of Some d \<Rightarrow> hx_hexValue H d | None \<Rightarrow> Inl (JsError ''invalid hexlify value'' None)) (\<lambda>data.
       Inr \<lparr>or_hash = userOpHash', or_from = sender op, or_nonce = n, or_gasLimit = callGasLimit op, or_data = data,
            or_chainId = chainId, or_wait = start_listener (new_listener userOpHash')\<rparr>)))"

text \<open>\<^verbatim>\<open>ERC4337EthersSigner.sendTransaction\<close>; \<open>send\<close> is \<^verbatim>\<open>sendUserOpToBundler\<close> with \<^verbatim>\<open>unwrapError\<close>.\<close>

definition sendTransaction ::
  "node \<Rightarrow> account_params \<Rightarrow> ('z account_state_scheme) account_impl \<Rightarrow> string \<Rightarrow> int \<Rightarrow> (operation \<Rightarrow> string res) \<Rightarrow>
     string option \<Rightarrow> string option \<Rightarrow> int option \<Rightarrow> int option \<Rightarrow> ('z account_state_scheme, op_response) act" where
  "sendTransaction N A I entryPointAddress chainId send tx_to' data value gasLimit =
     thenM (liftE (verifyAllNecessaryFields tx_to' data value))
     (bindM (createSignedUserOp N A I \<lparr>td_target = or_else tx_to' [], td_callData = or_else data [], td_callValue = value,
          td_callGas = gasLimit, td_feePerGas = None, td_priorityFeePerGas = None, td_opNonce = None\<rparr>) (\<lambda>op.
      bindM (liftE (constructUserOpTransactionResponse (nd_hex N) entryPointAddress chainId op)) (\<lambda>response.
      bindM (liftE (send op)) (\<lambda>_. retM response))))"

end
