(* ===== verification/ClientSound.thy ===== *)
theory ClientSound
  imports ClientSDK
begin

text \<open>
  What the client promises: the contract of the abstract methods of an account (a locale, with
  \<^verbatim>\<open>SimpleAccountAPI\<close> as its instance), that all operations of an account have one sender, that an
  operation deploys its account exactly while there is none, that the client waits for the hash it
  has signed, and that polling for a receipt ends.
\<close>

section \<open>The contract of an account\<close>

lemma address_known: "getAccountAddress N A I s = (Inr a, t) \<Longrightarrow> senderAddress t = Some a"
  by (auto simp: getAccountAddress_def monad_simps split: option.splits prod.splits sum.splits)

lemma with_paymaster_frame:
  "with_paymaster A op = Inr op' \<Longrightarrow> sender op' = sender op \<and> factory op' = factory op \<and> nonce op' = nonce op"
  by (auto simp: with_paymaster_def bindE_Inr_iff split: option.splits)

text \<open>The steps of a creation that succeeds.\<close>

definition asked_nonce :: "('z account_state_scheme) account_impl \<Rightarrow> tx_details \<Rightarrow> ('z account_state_scheme, int) act" where
  "asked_nonce I d = (case td_opNonce d of Some n \<Rightarrow> retM n | None \<Rightarrow> im_getNonce I)"

lemma created_parts:
  assumes "createUnsignedUserOp N A I d s = (Inr u, t)"
  obtains s1 fp s2 s3 where "\<exists>cd. encodeUserOpCallDataAndGasLimit N A I d s = (Inr cd, s1)"
    and "getRequiredFactoryData N A I s1 = (Inr fp, s2)"
    and "getAccountAddress N A I s2 = (Inr (sender (un_op u)), s3)"
    and "asked_nonce I d s3 = (Inr (nonce (un_op u)), t)"
    and "factory (un_op u) = map_option fp_factory fp"
  using assms unfolding createUnsignedUserOp_def Let_def case_prod_beta returns_iffs asked_nonce_def [symmetric]
  by (elim exE conjE) (auto dest!: with_paymaster_frame)

text \<open>No method forgets the address of the account, or that it is deployed.\<close>

locale account_api =
  fixes I :: "('z account_state_scheme) account_impl"
  assumes keep_address:
      "keeps (\<lambda>s. senderAddress s = Some a) (im_getFactoryData I)"
      "keeps (\<lambda>s. senderAddress s = Some a) (im_getNonce I)"
      "keeps (\<lambda>s. senderAddress s = Some a) (im_encodeExecute I t v d)"
    and keep_deployed:
      "keeps (\<lambda>s. \<not> isPhantom s) (im_getFactoryData I)"
      "keeps (\<lambda>s. \<not> isPhantom s) (im_getNonce I)"
      "keeps (\<lambda>s. \<not> isPhantom s) (im_encodeExecute I t v d)"
begin

lemma keep_address_base:
  "keeps (\<lambda>s. senderAddress s = Some a) (getAccountAddress N A I)"
  "keeps (\<lambda>s. senderAddress s = Some a) (checkAccountPhantom N A I)"
  "keeps (\<lambda>s. senderAddress s = Some a) (getRequiredFactoryData N A I)"
  "keeps (\<lambda>s. senderAddress s = Some a) (encodeUserOpCallDataAndGasLimit N A I d)"
  "keeps (\<lambda>s. senderAddress s = Some a) (init_account N A I)"
proof -
  show g: "keeps (\<lambda>s. senderAddress s = Some a) (getAccountAddress N A I)"
    by (rule keepsI) (simp add: getAccountAddress_def monad_simps)
  show c: "keeps (\<lambda>s. senderAddress s = Some a) (checkAccountPhantom N A I)"
    unfolding checkAccountPhantom_def by (auto intro!: keeps_intros g)
  show "keeps (\<lambda>s. senderAddress s = Some a) (getRequiredFactoryData N A I)"
    unfolding getRequiredFactoryData_def by (intro keeps_intros c keep_address)
  show "keeps (\<lambda>s. senderAddress s = Some a) (encodeUserOpCallDataAndGasLimit N A I d)"
    unfolding encodeUserOpCallDataAndGasLimit_def by (auto intro!: keeps_intros keep_address g split: option.split)
  show "keeps (\<lambda>s. senderAddress s = Some a) (init_account N A I)"
    unfolding init_account_def by (intro keeps_intros g)
qed

lemma keep_deployed_base: "keeps (\<lambda>s. \<not> isPhantom s) (getAccountAddress N A I)"
  unfolding getAccountAddress_def getCounterFactualAddress_def
  by (auto intro!: keeps_intros keep_deployed split: option.split)

lemma keep_address_create: "keeps (\<lambda>s. senderAddress s = Some a) (createUnsignedUserOp N A I d)"
  unfolding createUnsignedUserOp_def Let_def
  by (auto intro!: keeps_intros keep_address keep_address_base split: option.split)

lemma created_sender:
  assumes "createUnsignedUserOp N A I d s = (Inr u, t)"
  shows "senderAddress t = Some (sender (un_op u))"
proof -
  obtain s2 s3 where a: "getAccountAddress N A I s2 = (Inr (sender (un_op u)), s3)"
    and n: "asked_nonce I d s3 = (Inr (nonce (un_op u)), t)" using created_parts [OF assms] by blast
  have "keeps (\<lambda>s. senderAddress s = Some x) (asked_nonce I d)" for x
    unfolding asked_nonce_def by (auto intro: keeps_intros keep_address split: option.split)
  from keepsD [OF this address_known [OF a]] show ?thesis using n by simp
qed

end

section \<open>The simple account keeps the contract\<close>

lemma keeps_option: "(v = None \<Longrightarrow> keeps J m) \<Longrightarrow> (\<And>x. v = Some x \<Longrightarrow> keeps J (f x)) \<Longrightarrow> keeps J (case v of None \<Rightarrow> m | Some x \<Rightarrow> f x)"
  by (cases v) auto

lemma simple_factory_frame:
  "keeps (\<lambda>s. senderAddress s = x) (simple_getFactoryData P)" "keeps (\<lambda>s. isPhantom s = b) (simple_getFactoryData P)"
  unfolding simple_getFactoryData_def by (auto intro!: keeps_intros keeps_option)

lemma simple_frame:
  assumes "\<And>t x. J t \<Longrightarrow> J (t\<lparr>accountContract := x\<rparr>)"
    and g: "keeps J (getAccountAddress N (sp_account P) (simple_factory_only P))"
    and c: "keeps J (checkAccountPhantom N (sp_account P) (simple_factory_only P))"
  shows "keeps J (simple_getNonce N P)" and "keeps J (simple_encodeExecute N P target v d)"
proof -
  have k: "keeps J (getAccountContract N P)"
    unfolding getAccountContract_def by (auto intro!: keeps_intros keeps_option g assms(1))
  show "keeps J (simple_getNonce N P)" unfolding simple_getNonce_def by (intro keeps_intros c k)
  show "keeps J (simple_encodeExecute N P target v d)" unfolding simple_encodeExecute_def by (intro keeps_intros k)
qed

text \<open>Making the call data does not ask for the code of the account.\<close>

lemma simple_address_phantom:
  assumes "im_getFactoryData I = simple_getFactoryData P"
  shows "keeps (\<lambda>s. isPhantom s = b) (getAccountAddress N A I)"
  unfolding getAccountAddress_def getCounterFactualAddress_def assms
  using simple_factory_frame(2) [of b] by (auto intro!: keeps_intros keeps_option)

lemma simple_encode_phantom:
  "keeps (\<lambda>s. isPhantom s = b) (encodeUserOpCallDataAndGasLimit N A (simple_account N P) d)"
proof -
  have g: "keeps (\<lambda>s. isPhantom s = b) (getAccountAddress N A' (simple_account N P))"
    "keeps (\<lambda>s. isPhantom s = b) (getAccountAddress N A' (simple_factory_only P))" for A'
    by (simp_all add: simple_address_phantom simple_account_def simple_factory_only_def)
  then have "keeps (\<lambda>s. isPhantom s = b) (getAccountContract N P)"
    unfolding getAccountContract_def by (auto intro!: keeps_intros keeps_option)
  then have "keeps (\<lambda>s. isPhantom s = b) (im_encodeExecute (simple_account N P) target v cd)" for target v cd
    by (simp add: simple_account_def simple_encodeExecute_def) (intro keeps_intros)
  then show ?thesis unfolding encodeUserOpCallDataAndGasLimit_def by (auto intro!: keeps_intros keeps_option g)
qed

lemma address_frame:
  "keeps (\<lambda>s. senderAddress s = Some a) (getAccountAddress N A (simple_factory_only P))"
  "keeps (\<lambda>s. senderAddress s = Some a) (checkAccountPhantom N A (simple_factory_only P))"
  "keeps (\<lambda>s. \<not> isPhantom s) (getAccountAddress N A (simple_factory_only P))"
  "keeps (\<lambda>s. \<not> isPhantom s) (checkAccountPhantom N A (simple_factory_only P))"
proof -
  show g: "keeps (\<lambda>s. senderAddress s = Some a) (getAccountAddress N A (simple_factory_only P))"
    by (rule keepsI) (simp add: getAccountAddress_def monad_simps)
  show "keeps (\<lambda>s. senderAddress s = Some a) (checkAccountPhantom N A (simple_factory_only P))"
    unfolding checkAccountPhantom_def by (auto intro!: keeps_intros g)
  show p: "keeps (\<lambda>s. \<not> isPhantom s) (getAccountAddress N A (simple_factory_only P))"
    unfolding getAccountAddress_def getCounterFactualAddress_def simple_factory_only_def
    using simple_factory_frame(2) [of False] by (auto intro!: keeps_intros keeps_option)
  show "keeps (\<lambda>s. \<not> isPhantom s) (checkAccountPhantom N A (simple_factory_only P))"
    unfolding checkAccountPhantom_def by (auto intro!: keeps_intros p)
qed

interpretation simple: account_api "simple_account N P" for N P
proof
  show "keeps (\<lambda>s. senderAddress s = Some a) (im_getFactoryData (simple_account N P))" for a
    by (simp add: simple_account_def simple_factory_frame)
  show "keeps (\<lambda>s. \<not> isPhantom s) (im_getFactoryData (simple_account N P))"
    using simple_factory_frame(2) [of False] by (simp add: simple_account_def)
  show "keeps (\<lambda>s. senderAddress s = Some a) (im_getNonce (simple_account N P))"
    "keeps (\<lambda>s. senderAddress s = Some a) (im_encodeExecute (simple_account N P) t v d)" for a t v d
    by (simp_all add: simple_account_def simple_frame address_frame)
  show "keeps (\<lambda>s. \<not> isPhantom s) (im_getNonce (simple_account N P))"
    "keeps (\<lambda>s. \<not> isPhantom s) (im_encodeExecute (simple_account N P) t v d)" for t v d
    by (simp_all add: simple_account_def simple_frame address_frame)
qed

lemma simple_account_simps [simp]:
  "im_getFactoryData (simple_account N P) = simple_getFactoryData P" "im_getNonce (simple_account N P) = simple_getNonce N P"
  "im_encodeExecute (simple_account N P) = simple_encodeExecute N P" "im_signUserOpHash (simple_account N P) = sp_sign P"
  by (simp_all add: simple_account_def)

section \<open>One account, one sender\<close>

text \<open>The use of an account: calls of its API, each with the node as it is then.\<close>

inductive client_step :: "simple_params \<Rightarrow> simple_state \<Rightarrow> simple_state \<Rightarrow> bool" for P where
  cl_init: "client_step P s (snd (init_account N (sp_account P) (simple_account N P) s))"
| cl_address: "client_step P s (snd (getAccountAddress N (sp_account P) (simple_account N P) s))"
| cl_phantom: "client_step P s (snd (checkAccountPhantom N (sp_account P) (simple_account N P) s))"
| cl_create: "client_step P s (snd (createUnsignedUserOp N (sp_account P) (simple_account N P) d s))"

lemma createSigned_created:
  "createSignedUserOp N A I d s = (Inr op, t) \<longleftrightarrow> (\<exists>u. createUnsignedUserOp N A I d s = (Inr u, t) \<and> signUserOp N A I u = Inr op)"
  by (auto simp: createSignedUserOp_def returns_iffs)

lemma signUserOp_parts:
  "signUserOp N A I u = Inr op \<longleftrightarrow> un_fees u \<and> (\<exists>h sig. base_getUserOpHash N A (un_op u) = Inr h \<and>
     im_signUserOpHash I h = Inr sig \<and> op = (un_op u)\<lparr>signature := Some sig\<rparr>)"
  by (auto simp: signUserOp_def bindE_Inr_iff)

text \<open>all the operations that one account object ever makes have the same sender, whatever is
  called in between, whichever calls fail, and however the answers of the node change, even the one
  for the counterfactual address.\<close>

theorem one_account_one_sender:
  fixes s :: simple_state
  assumes "createSignedUserOp N1 (sp_account P) (simple_account N1 P) d1 s = (Inr op1, s1)" and "(client_step P)\<^sup>*\<^sup>* s1 s2"
    and "createSignedUserOp N2 (sp_account P) (simple_account N2 P) d2 s2 = (Inr op2, s3)"
  shows "sender op2 = sender op1"
proof -
  have s1: "senderAddress s1 = Some (sender op1)"
    using assms(1) simple.created_sender by (auto simp: createSigned_created signUserOp_parts)
  have "senderAddress v = Some a" if "client_step P u v" "senderAddress u = Some a" for u v a
    using that
    by (induction rule: client_step.induct)
       (auto dest: keepsD [OF simple.keep_address_base(1)] keepsD [OF simple.keep_address_base(2)]
          keepsD [OF simple.keep_address_base(5)] keepsD [OF simple.keep_address_create])
  note step = this
  from assms(2) have "senderAddress s2 = Some (sender op1)"
    by (induction rule: rtranclp_induct) (use s1 step in blast)+
  then have "senderAddress s3 = Some (sender op1)"
    using assms(3) keepsD [OF simple.keep_address_create, of s2 "sender op1" N2 "sp_account P" N2 P d2]
    by (auto simp: createSigned_created)
  moreover have "senderAddress s3 = Some (sender op2)"
    using assms(3) simple.created_sender by (auto simp: createSigned_created signUserOp_parts)
  ultimately show ?thesis by simp
qed

section \<open>Deploying the account\<close>

lemma phantom_steps:
  assumes "checkAccountPhantom N A I s = (Inr b, t)" and "isPhantom s"
  obtains a t1 code where "getAccountAddress N A I s = (Inr a, t1)" and "nd_getCode N a = Inr code"
    and "if length code > 2 then t = t1\<lparr>isPhantom := False\<rparr> \<and> \<not> b else t = t1 \<and> b = isPhantom t1"
proof -
  let ?l = "\<lambda>code. thenM (if length code > 2 then modifyM (\<lambda>t. t\<lparr>isPhantom := False\<rparr>) else retM ()) (getM isPhantom)"
  from assms have "bindM (getAccountAddress N A I) (\<lambda>a. bindM (liftE (nd_getCode N a)) ?l) s = (Inr b, t)"
    by (simp add: checkAccountPhantom_def lookM_def)
  then obtain a t1 where a: "getAccountAddress N A I s = (Inr a, t1)" and "bindM (liftE (nd_getCode N a)) ?l t1 = (Inr b, t)"
    by (rule bindM_InrD)
  then obtain code where c: "nd_getCode N a = Inr code" and l: "?l code t1 = (Inr b, t)"
    by (auto simp: bindM_Inr_iff liftE_Inr_iff)
  from l have "if length code > 2 then t = t1\<lparr>isPhantom := False\<rparr> \<and> \<not> b else t = t1 \<and> b = isPhantom t1"
    by (cases "length code > 2") (auto simp: monad_simps)
  with a c show thesis by (rule that)
qed

lemma phantom_checked:
  assumes "checkAccountPhantom N A I s = (Inr b, t)"
  shows "isPhantom t = b" and "b \<Longrightarrow> \<exists>a code. senderAddress t = Some a \<and> nd_getCode N a = Inr code \<and> length code \<le> 2"
    and "\<not> isPhantom s \<Longrightarrow> \<not> b"
proof -
  have "isPhantom t = b \<and> (b \<longrightarrow> (\<exists>a code. senderAddress t = Some a \<and> nd_getCode N a = Inr code \<and> length code \<le> 2)) \<and>
    (\<not> isPhantom s \<longrightarrow> \<not> b)"
  proof (cases "isPhantom s")
    case True
    obtain a t1 code where "getAccountAddress N A I s = (Inr a, t1)" "nd_getCode N a = Inr code"
      "if length code > 2 then t = t1\<lparr>isPhantom := False\<rparr> \<and> \<not> b else t = t1 \<and> b = isPhantom t1"
      by (rule phantom_steps [OF assms True])
    then show ?thesis using address_known True by (cases "length code > 2") fastforce+
  qed (use assms in \<open>auto simp: checkAccountPhantom_def returns_iffs\<close>)
  then show "isPhantom t = b" "b \<Longrightarrow> \<exists>a code. senderAddress t = Some a \<and> nd_getCode N a = Inr code \<and> length code \<le> 2"
    "\<not> isPhantom s \<Longrightarrow> \<not> b" by blast+
qed

lemma phantom_iff_no_code:
  assumes "checkAccountPhantom N A I s = (Inr b, t)" and "isPhantom s"
    and "keeps isPhantom (getAccountAddress N A I)"
  shows "\<exists>a code. senderAddress t = Some a \<and> nd_getCode N a = Inr code \<and> b = (length code \<le> 2)"
proof -
  obtain a t1 code where a: "getAccountAddress N A I s = (Inr a, t1)" and c: "nd_getCode N a = Inr code"
    and t: "if length code > 2 then t = t1\<lparr>isPhantom := False\<rparr> \<and> \<not> b else t = t1 \<and> b = isPhantom t1"
    by (rule phantom_steps [OF assms(1,2)])
  have "isPhantom t1" using keepsD [OF assms(3,2)] a by simp
  then show ?thesis using address_known [OF a] c t by (cases "length code > 2") auto
qed

lemma phantom_stays:
  "isPhantom s \<Longrightarrow> senderAddress s = Some a \<Longrightarrow> nd_getCode N a = Inr code \<Longrightarrow> length code \<le> 2 \<Longrightarrow>
     checkAccountPhantom N A I s = (Inr True, s)"
  by (simp add: checkAccountPhantom_def getAccountAddress_def monad_simps)

text \<open>C23: an operation of a simple account deploys it exactly if there is no account yet: for an account
  object that has not seen the account deployed, as every new one, the operation carries a factory if
  and only if the node has no code at the sender, and then, unless the caller gives a nonce, its nonce
  is 0; once the object has seen code there, it never asks again and adds no factory. The node writes
  code as hexadecimal text, \<^verbatim>\<open>0x\<close> if there is none.\<close>

theorem deploys_exactly_when_missing:
  assumes "createSignedUserOp N (sp_account P) (simple_account N P) d s = (Inr op, t)"
    and "\<And>a code. nd_getCode N a = Inr code \<Longrightarrow> startsWith code ''0x''"
  shows "(factory op \<noteq> None \<longleftrightarrow> isPhantom s \<and> nd_getCode N (sender op) = Inr ''0x'') \<and>
    (factory op \<noteq> None \<and> td_opNonce d = None \<longrightarrow> nonce op = 0)"
proof -
  let ?I = "simple_account N P" and ?A = "sp_account P"
  obtain u sig where u: "createUnsignedUserOp N ?A ?I d s = (Inr u, t)" "op = (un_op u)\<lparr>signature := sig\<rparr>"
    using assms(1) by (auto simp: createSigned_created signUserOp_parts)
  obtain s1 fp s2 s3 where e: "\<exists>cd. encodeUserOpCallDataAndGasLimit N ?A ?I d s = (Inr cd, s1)"
    and f: "getRequiredFactoryData N ?A ?I s1 = (Inr fp, s2)"
    and a: "getAccountAddress N ?A ?I s2 = (Inr (sender (un_op u)), s3)"
    and n: "asked_nonce ?I d s3 = (Inr (nonce (un_op u)), t)"
    and fac: "factory (un_op u) = map_option fp_factory fp" using created_parts [OF u(1)] by blast
  have s1: "isPhantom s1 = isPhantom s" using e keepsD [OF simple_encode_phantom [of "isPhantom s" N ?A P d], of s] by auto
  obtain b s0 where b: "checkAccountPhantom N ?A ?I s1 = (Inr b, s0)"
    and g: "(if b then simple_getFactoryData P else retM None) s0 = (Inr fp, s2)"
    using f by (auto simp: getRequiredFactoryData_def bindM_Inr_iff cong: if_cong)
  have empty: "length code \<le> 2 \<longleftrightarrow> code = ''0x''" if "nd_getCode N c = Inr code" for c code
    using assms(2) [OF that] by (cases code; cases "tl code"; cases "tl (tl code)") (auto simp: startsWith_def)
  have b_iff: "\<exists>c code. senderAddress s0 = Some c \<and> nd_getCode N c = Inr code \<and> b = (code = ''0x'')" if "isPhantom s"
  proof -
    have "\<exists>c code. senderAddress s0 = Some c \<and> nd_getCode N c = Inr code \<and> b = (length code \<le> 2)"
    proof (rule phantom_iff_no_code [OF b])
      show "isPhantom s1" using s1 that by simp
      show "keeps isPhantom (getAccountAddress N ?A ?I)" using simple_address_phantom [where b = True, of ?I P N ?A] by simp
    qed
    then show ?thesis using empty by blast
  qed
  have fp: "fp \<noteq> None \<longleftrightarrow> b" using g by (cases b) (auto simp: simple_getFactoryData_def returns_iffs split: option.splits)
  have sender: "sender (un_op u) = c \<and> s3 = s2" if "senderAddress s0 = Some c" for c
  proof -
    have "senderAddress s2 = Some c"
      using g that keepsD [OF simple_factory_frame(1), of s0 "Some c" P] by (cases b) (auto simp: retM_Inr_iff)
    then show ?thesis using a by (auto simp: getAccountAddress_def monad_simps)
  qed
  have "factory op \<noteq> None \<longleftrightarrow> isPhantom s \<and> nd_getCode N (sender op) = Inr ''0x''"
    using fac fp u(2) b_iff sender phantom_checked(3) [OF b] s1 by (cases "isPhantom s") auto
  moreover have "nonce op = 0" if "factory op \<noteq> None" "td_opNonce d = None"
  proof -
    have "b" using that(1) fac fp u(2) by simp
    then obtain c code where c: "senderAddress s0 = Some c" "nd_getCode N c = Inr code" "length code \<le> 2" "isPhantom s0"
      using phantom_checked(1,2) [OF b] by blast
    then have "isPhantom s2" "senderAddress s2 = Some c"
      using g \<open>b\<close> keepsD [OF simple_factory_frame(1), of s0 "Some c" P] keepsD [OF simple_factory_frame(2), of s0 True P] by auto
    then show ?thesis using n u(2) c that(2) sender
      by (auto simp: asked_nonce_def simple_getNonce_def returns_iffs phantom_stays split: option.splits)
  qed
  ultimately show ?thesis by blast
qed

section \<open>Hash and signature\<close>

lemma getUserOpHash_signature [simp]: "getUserOpHash H (op\<lparr>signature := x\<rparr>) e c = getUserOpHash H op e c"
proof -
  have "pack_paymaster H (op\<lparr>signature := x\<rparr>) = pack_paymaster H op" "pack_initCode H (op\<lparr>signature := x\<rparr>) = pack_initCode H op"
    by (simp_all add: pack_paymaster_def pack_initCode_def cong: option.case_cong if_cong)
  then have "encodeUserOp H (op\<lparr>signature := x\<rparr>) True = encodeUserOp H op True"
    by (auto simp: encodeUserOp_def packUserOp_def bindE_def split: sum.split)
  then show ?thesis by (simp add: getUserOpHash_def)
qed

text \<open>C16: the client waits for what it has signed: the response to a transaction carries, and its
  \<^verbatim>\<open>wait\<close> listens for, exactly the hash that the owner has signed for the operation sent, although
  the one is computed from the signed and the other from the unsigned operation, as long as the
  account and the provider are configured for the same entry point and chain.\<close>

theorem client_waits_for_signed_hash:
  assumes "sendTransaction N A I (ap_entryPointAddress A) chainId send to data value gas s = (Inr r, t)" and "nd_chainId N = Inr chainId"
  shows "\<exists>op sig. (\<exists>h. send op = Inr h) \<and> signature op = Some sig \<and> im_signUserOpHash I (or_hash r) = Inr sig \<and>
    or_from r = sender op \<and> li_userOpHash (or_wait r) = or_hash r"
  using assms
  by (auto simp: sendTransaction_def returns_iffs createSigned_created signUserOp_parts base_getUserOpHash_def bindE_Inr_iff
      constructUserOpTransactionResponse_def start_listener_def new_listener_def)

section \<open>Polling for a receipt\<close>

text \<open>C37: polling for a receipt ends: if the clock advances by at least \<open>interval > 0\<close> between two
  readings, \<open>k + 1\<close> polls are enough for a timeout of at most \<open>k\<close> intervals; and a receipt that is
  returned was found by a query made before the timeout.\<close>

theorem receipt_poll_ends:
  assumes "0 < interval" and "\<forall>i. clock i + interval \<le> clock (Suc i)" and "now \<le> clock 0" and "timeout \<le> int k * interval"
  shows "\<exists>r. getUserOpReceipt (Suc k) now timeout clock polled = Some r \<and>
    (\<forall>h. r = Inr (Some h) \<longrightarrow> (\<exists>i hs. clock i < now + timeout \<and> polled i = Inr (h # hs)))"
proof -
  have late: "now + int i * interval \<le> clock i" for i
  proof (induction i)
    case (Suc i)
    then show ?case using assms(2) [rule_format, of i] by (simp add: distrib_right)
  qed (use assms(3) in simp)
  have "\<exists>r. poll_receipt (Suc (k - i)) (now + timeout) clock polled i = Some r \<and>
      (\<forall>h. r = Inr (Some h) \<longrightarrow> (\<exists>i hs. clock i < now + timeout \<and> polled i = Inr (h # hs)))" if "i \<le> k" for i
    using that
  proof (induction "k - i" arbitrary: i)
    case 0
    then have "\<not> clock i < now + timeout" using late [of k] assms(4) by simp
    then show ?case by simp
  next
    case (Suc n)
    then have k: "k - i = Suc (k - Suc i)" "n = k - Suc i" "Suc i \<le> k" by auto
    have IH: "\<exists>r. poll_receipt (Suc (k - Suc i)) (now + timeout) clock polled (Suc i) = Some r \<and>
      (\<forall>h. r = Inr (Some h) \<longrightarrow> (\<exists>i hs. clock i < now + timeout \<and> polled i = Inr (h # hs)))"
      using Suc.hyps(1) [of "Suc i"] k by simp
    show ?case
    proof (cases "clock i < now + timeout")
      case True
      then show ?thesis using IH unfolding k(1) poll_receipt.simps(2) [of "Suc (k - Suc i)"]
        by (cases "polled i"; cases "projr (polled i)") (simp_all del: poll_receipt.simps, blast+)
    qed simp
  qed
  from this [of 0] show ?thesis by (simp add: getUserOpReceipt_def)
qed

section \<open>Examples\<close>

definition client_lib :: hex_lib where
  "client_lib = plain_hex\<lparr>hx_abi_encode := (\<lambda>ts vs. Inr ''0x0102'')\<rparr>"

definition node_example :: node where
  "node_example = \<lparr>nd_hex = client_lib, nd_getCode = (\<lambda>a. Inr ''0x''), nd_estimateGas = (\<lambda>f t d. Inr 1000),
     nd_feeData = Inr (Some 7, Some 2), nd_chainId = Inr 1337, nd_senderCreator = Inr ''0xc'',
     nd_getSenderAddress = (\<lambda>c. Inr ''0xaa''), nd_accountNonce = (\<lambda>a. Inr 5)\<rparr>"

definition simple_example :: simple_params where
  "simple_example = \<lparr>sp_account = \<lparr>ap_entryPointAddress = ''0xee'', ap_accountAddress = None, ap_paymasterAPI = None\<rparr>,
     sp_factoryAddress = Some ''0xfa'', sp_owner = Inr ''0x01'', sp_index = 0, sp_encodeCreate = (\<lambda>o' i. Inr ''0x02''),
     sp_encodeExecute = (\<lambda>t v d. Inr ''0x03''), sp_sign = (\<lambda>h. Inr ''0x5151'')\<rparr>"

definition details_example :: tx_details where
  "details_example = \<lparr>td_target = ''0xbb'', td_callData = ''0x'', td_callValue = Some 1, td_callGas = None,
     td_feePerGas = None, td_priorityFeePerGas = None, td_opNonce = None\<rparr>"

abbreviation signed_example where
  "signed_example s \<equiv> createSignedUserOp node_example (sp_account simple_example) (simple_account node_example simple_example)
     details_example (s :: simple_state)"

lemma signed_example_value:
  "(case signed_example new_simple_account of (r, t) \<Rightarrow>
      (map_sum (\<lambda>e. ()) (\<lambda>op. (sender op, factory op, nonce op, callData op)) r, map_sum (\<lambda>e. ()) sender (fst (signed_example t)))) =
    (Inr (''0xaa'', Some ''0xfa'', 0, Some ''0x03''), Inr ''0xaa'')"
  by code_simp

lemma signed_example_runs:
  obtains op t op' t' where "signed_example new_simple_account = (Inr op, t)" and "signed_example t = (Inr op', t')"
    and "sender op = ''0xaa''" and "factory op = Some ''0xfa''" and "nonce op = 0" and "callData op = Some ''0x03''"
proof -
  obtain x t where x: "signed_example new_simple_account = (x, t)" by fastforce
  obtain y t' where y: "signed_example t = (y, t')" by fastforce
  show thesis using that x y signed_example_value by (cases x; cases y) auto
qed

lemma one_account_one_sender_witness:
  "\<exists>op op' t t'. signed_example new_simple_account = (Inr op, t) \<and> signed_example t = (Inr op', t') \<and> sender op' = ''0xaa''"
proof -
  obtain op t op' t' where r: "signed_example new_simple_account = (Inr op, t)" "signed_example t = (Inr op', t')" "sender op = ''0xaa''"
    using signed_example_runs .
  then show ?thesis using one_account_one_sender [OF r(1) rtranclp.rtrancl_refl r(2)] by simp
qed

lemma deploys_exactly_when_missing_witness:
  "\<exists>op t. signed_example new_simple_account = (Inr op, t) \<and> nd_getCode node_example (sender op) = Inr ''0x'' \<and> nonce op = 0"
proof -
  obtain op t op' t' where r: "signed_example new_simple_account = (Inr op, t)" "factory op = Some ''0xfa''"
    using signed_example_runs .
  have "startsWith code ''0x''" if "nd_getCode node_example a = Inr code" for a code
    using that by (simp add: node_example_def startsWith_def)
  then show ?thesis using deploys_exactly_when_missing [OF r(1)] r by (simp add: details_example_def)
qed

abbreviation sent_example where
  "sent_example \<equiv> sendTransaction node_example (sp_account simple_example) (simple_account node_example simple_example)
     (ap_entryPointAddress (sp_account simple_example)) 1337 (\<lambda>op. Inr ''0x77'') (Some ''0xbb'') (Some ''0x'') (Some 1) None new_simple_account"

lemma sent_example_runs: "\<exists>r t. sent_example = (Inr r, t)"
proof -
  obtain op t op' t' where c: "signed_example new_simple_account = (Inr op, t)" "nonce op = 0" "callData op = Some ''0x03''"
    using signed_example_runs .
  then obtain h where "getUserOpHash client_lib op ''0xee'' 1337 = Inr h"
    by (auto simp: createSigned_created signUserOp_parts base_getUserOpHash_def node_example_def simple_example_def)
  moreover have "nd_hex node_example = client_lib" "ap_entryPointAddress (sp_account simple_example) = ''0xee''"
    by (simp_all add: node_example_def simple_example_def)
  moreover have "\<lparr>td_target = ''0xbb'', td_callData = ''0x'', td_callValue = Some 1, td_callGas = None, td_feePerGas = None,
      td_priorityFeePerGas = None, td_opNonce = None\<rparr> = details_example" by (simp add: details_example_def)
  ultimately show ?thesis using c
    by (simp add: sendTransaction_def verifyAllNecessaryFields_def constructUserOpTransactionResponse_def toNumber_def
        monad_simps or_else_def safe_int_def client_lib_def plain_hex_def Let_def)
qed

lemma client_waits_for_signed_hash_witness:
  "\<exists>r t. sent_example = (Inr r, t) \<and> li_userOpHash (or_wait r) = or_hash r"
proof -
  obtain r t where r: "sent_example = (Inr r, t)" using sent_example_runs by blast
  have "nd_chainId node_example = Inr 1337" by (simp add: node_example_def)
  from client_waits_for_signed_hash [OF r this] show ?thesis using r by auto
qed

lemma receipt_poll_ends_witness:
  "\<exists>r. getUserOpReceipt (Suc 6) 0 30000 (\<lambda>i. 5000 * int i) (\<lambda>i. if i = 2 then Inr [''0xt''] else Inr []) = Some r"
  using receipt_poll_ends [of 5000 "\<lambda>i. 5000 * int i" 0 30000 6 "\<lambda>i. if i = 2 then Inr [''0xt''] else Inr []"] by auto

end
