(* ===== verification/StartUp.thy ===== *)
theory StartUp
  imports BundlerServer ValidationManagerRIP7560
begin

text \<open>
  How a bundler comes up: the shapes and defaults of \<^verbatim>\<open>packages/bundler/src/BundlerConfig.ts\<close>, the
  merge of \<^verbatim>\<open>Config.ts\<close>, the checks of \<^verbatim>\<open>runBundler.ts\<close> with those of
  \<^verbatim>\<open>packages/validation-manager/src/index.ts\<close>, the wiring of \<^verbatim>\<open>modules/initServer.ts\<close>, and the
  check that \<^verbatim>\<open>BundlerServer.ts\<close> makes first. A configuration is a JSON object; \<^verbatim>\<open>process.exit(1)\<close>
  is an error with the message that is printed before. Numbers of a configuration are whole.
\<close>

section \<open>Shapes and defaults\<close>

datatype ow_type = OwNumber | OwString | OwBoolean | OwStrings | OwOneOf "string list"

fun ow_ok :: "ow_type \<Rightarrow> js_value \<Rightarrow> bool" where
  "ow_ok OwNumber v = (case v of JsNum n \<Rightarrow> True | _ \<Rightarrow> False)"
| "ow_ok OwString v = is_text v"
| "ow_ok OwBoolean v = (case v of JsBool b \<Rightarrow> True | _ \<Rightarrow> False)"
| "ow_ok OwStrings v = (case v of JsArr vs \<Rightarrow> list_all is_text vs | _ \<Rightarrow> False)"
| "ow_ok (OwOneOf ss) v = (case v of JsStr s \<Rightarrow> s \<in> set ss | _ \<Rightarrow> False)"

text \<open>A key, whether it is optional, and its type.\<close>

type_synonym shape = "(string \<times> bool \<times> ow_type) list"

definition pvg_override_keys :: "string list" where
  "pvg_override_keys = [''fixedGasOverhead'', ''perUserOpGasOverhead'', ''perUserOpWordGasOverhead'', ''zeroByteGasCost'',
     ''nonZeroByteGasCost'', ''expectedBundleSize'', ''estimationSignatureSize'', ''estimationPaymasterDataSize'']"

definition DebugBundlerConfigShape :: shape where
  "DebugBundlerConfigShape = map (\<lambda>k. (k, True, OwNumber)) pvg_override_keys"

definition BundlerConfigShape :: shape where
  "BundlerConfigShape = [(''chainId'', False, OwNumber), (''beneficiary'', False, OwString), (''entryPoint'', False, OwString),
     (''senderCreator'', False, OwString), (''gasFactor'', False, OwString), (''minBalance'', False, OwString),
     (''mnemonic'', False, OwString), (''network'', False, OwString), (''port'', False, OwString),
     (''privateApiPort'', False, OwString), (''unsafe'', False, OwBoolean), (''tracerRpcUrl'', True, OwString),
     (''debugRpc'', True, OwBoolean), (''conditionalRpc'', False, OwBoolean), (''whitelist'', True, OwStrings),
     (''blacklist'', True, OwStrings), (''maxBundleGas'', False, OwNumber), (''minStake'', False, OwString),
     (''minUnstakeDelay'', False, OwNumber), (''autoBundleInterval'', False, OwNumber),
     (''autoBundleMempoolSize'', False, OwNumber), (''rip7560'', False, OwBoolean),
     (''rip7560Mode'', False, OwOneOf [''PULL'', ''PUSH'']), (''gethDevMode'', False, OwBoolean),
     (''eip7702Support'', False, OwBoolean)] @ map (\<lambda>k. (k, True, OwNumber)) pvg_override_keys"

definition bundlerConfigDefault :: "js_value obj" where
  "bundlerConfigDefault = [(''port'', JsStr ''3000''), (''privateApiPort'', JsStr ''3001''),
     (''entryPoint'', JsStr ''0x4337084D9E255Ff0702461CF8895CE9E3b5Ff108''),
     (''senderCreator'', JsStr ''0x449ED7C3e6Fee6a97311d4b55475DF59C44AdD33''),
     (''unsafe'', JsBool False), (''conditionalRpc'', JsBool False), (''minStake'', JsStr ''1000000000000000000''),
     (''minUnstakeDelay'', JsNum 86400), (''rip7560'', JsBool False), (''rip7560Mode'', JsStr ''PULL''),
     (''gethDevMode'', JsBool True), (''eip7702Support'', JsBool True)]"

definition shape_keys :: "shape \<Rightarrow> string list" where
  "shape_keys sh = map fst sh"

definition exactShape :: "shape \<Rightarrow> js_value obj \<Rightarrow> bool" where
  "exactShape sh fs \<longleftrightarrow>
     list_all (\<lambda>(k, optional', t). case obj_get fs k of None \<Rightarrow> optional' | Some v \<Rightarrow> ow_ok t v) sh \<and>
     list_all (\<lambda>k. k \<in> set (shape_keys sh)) (obj_keys fs)"

section \<open>Merging\<close>

definition getCommandLineParams :: "js_value obj \<Rightarrow> js_value obj" where
  "getCommandLineParams programOpts =
     map (\<lambda>k. (k, js_field programOpts k)) (filter (\<lambda>k. js_field programOpts k \<noteq> JsNull) (shape_keys BundlerConfigShape))"

definition mergeConfigs :: "js_value obj list \<Rightarrow> js_value obj res" where
  "mergeConfigs sources =
     (let mergedConfig = foldl spread [] sources in
      if exactShape BundlerConfigShape mergedConfig then Inr mergedConfig
      else Inl (JsError ''ArgumentError'' None))"

text \<open>\<^verbatim>\<open>/^[\w-]+$/\<close> names a network of Infura; anything else is a URL.\<close>

definition getNetworkProvider :: "string \<Rightarrow> string \<Rightarrow> string" where
  "getNetworkProvider infuraId url =
     (if url \<noteq> [] \<and> list_all (\<lambda>c. word_char c \<or> c = CHR ''-'') url
      then ''https://'' @ url @ ''.infura.io/v3/'' @ infuraId else url)"

definition resolveConfiguration ::
  "js_value obj option res \<Rightarrow> (string \<Rightarrow> string res) \<Rightarrow> js_value obj \<Rightarrow> (js_value obj \<times> string option) res" where
  "resolveConfiguration file readMnemonic programOpts =
     bindE file (\<lambda>fileConfig.
     bindE (mergeConfigs [bundlerConfigDefault, or_else fileConfig [], getCommandLineParams programOpts]) (\<lambda>config.
       if js_field config ''network'' = JsStr ''hardhat'' then Inr (config, None)
       else case readMnemonic (js_text (js_field config ''mnemonic'')) of
           Inr wallet \<Rightarrow> Inr (config, Some wallet)
         | Inl e \<Rightarrow> Inl (JsError (''Unable to read --mnemonic '' @ js_text (js_field config ''mnemonic'') @ '': '' @ err_message e) None)))"

section \<open>What the node supports\<close>

record node_features =
  nf_chainId :: "int res"
  nf_signerBalance :: "int res"
  nf_fund :: "unit res"
  nf_rpcError :: "string \<Rightarrow> int option"
    \<comment> \<open>the error code that a call of the method with empty objects ends with\<close>
  nf_traceWith :: "string \<Rightarrow> bool"
    \<comment> \<open>whether \<^verbatim>\<open>debug_traceCall\<close> with a tracer by name succeeds\<close>
  nf_clientVersion :: "unit res"
  nf_usedOpcodes :: bool
    \<comment> \<open>whether a trace of an empty call, or the error it ends with, has \<^verbatim>\<open>usedOpcodes\<close>\<close>
  nf_nonceManager :: "string res"
  nf_stakeManager :: "string res"
  nf_entryPoint :: "string res"
  nf_senderCreator :: "string res"
  nf_code :: "string \<Rightarrow> string res"
  nf_opHash :: "string \<Rightarrow> unit res"
  nf_parseEther :: "string \<Rightarrow> int res"

definition supportsRpcMethod :: "node_features \<Rightarrow> string \<Rightarrow> bool" where
  "supportsRpcMethod N method \<longleftrightarrow> nf_rpcError N method = Some (- 32602)"

definition supportsNativeTracer :: "node_features \<Rightarrow> string \<Rightarrow> bool" where
  "supportsNativeTracer N nativeTracer \<longleftrightarrow> nf_traceWith N nativeTracer"

definition supportsDebugTraceCall :: "node_features \<Rightarrow> bool \<Rightarrow> bool res" where
  "supportsDebugTraceCall N rip = bindE (nf_clientVersion N) (\<lambda>_. if rip then Inr True else Inr (nf_usedOpcodes N))"

section \<open>initServer\<close>

definition truthy :: "js_value \<Rightarrow> bool" where
  "truthy v \<longleftrightarrow> (case v of JsNull \<Rightarrow> False | JsBool b \<Rightarrow> b | JsNum n \<Rightarrow> n \<noteq> 0 | JsStr s \<Rightarrow> s \<noteq> [] | _ \<Rightarrow> True)"

definition cfg_flag :: "js_value obj \<Rightarrow> string \<Rightarrow> bool" where
  "cfg_flag c k = truthy (js_field c k)"

definition cfg_text :: "js_value obj \<Rightarrow> string \<Rightarrow> string" where
  "cfg_text c k = js_text (js_field c k)"

definition cfg_number :: "js_value obj \<Rightarrow> string \<Rightarrow> int" where
  "cfg_number c k = (case js_field c k of JsNum n \<Rightarrow> n | _ \<Rightarrow> 0)"

definition cfg_texts :: "js_value obj \<Rightarrow> string \<Rightarrow> string list" where
  "cfg_texts c k = (case js_field c k of JsArr vs \<Rightarrow> map js_text vs | _ \<Rightarrow> [])"

definition number_or :: "js_value obj \<Rightarrow> string \<Rightarrow> rat \<Rightarrow> rat" where
  "number_or c k x = (case js_field c k of JsNum n \<Rightarrow> of_int n | _ \<Rightarrow> x)"

text \<open>
  \<^verbatim>\<open>Object.assign({}, ChainConfigs[config.chainId] ?? {}, config)\<close>: the prices a configuration can
  override. For a chain without an entry the prices that no configuration can give are missing and
  every result of the calculator is \<^verbatim>\<open>NaN\<close>, which is \<open>None\<close> here.
\<close>

definition mergedPvgcConfig :: "js_value obj \<Rightarrow> pvg_config option" where
  "mergedPvgcConfig c = map_option (\<lambda>base. base\<lparr>
       fixedGasOverhead := number_or c ''fixedGasOverhead'' (fixedGasOverhead base),
       perUserOpGasOverhead := number_or c ''perUserOpGasOverhead'' (perUserOpGasOverhead base),
       perUserOpWordGasOverhead := number_or c ''perUserOpWordGasOverhead'' (perUserOpWordGasOverhead base),
       expectedBundleSize := number_or c ''expectedBundleSize'' (expectedBundleSize base),
       estimationSignatureSize := nat \<lfloor>number_or c ''estimationSignatureSize'' (of_nat (estimationSignatureSize base))\<rfloor>,
       estimationPaymasterDataSize := nat \<lfloor>number_or c ''estimationPaymasterDataSize'' (of_nat (estimationPaymasterDataSize base))\<rfloor>\<rparr>)
     (ChainConfigs (cfg_number c ''chainId''))"

record modules =
  md_exec :: exec_state
  md_execConfig :: exec_config
  md_bundleConfig :: bundle_config
  md_pvgc :: "pvg_config option"
  md_validation :: "(vm_env \<Rightarrow> vm_env) \<times> parser"
    \<comment> \<open>what the configuration sets of the validation manager for ERC-4337, and the parser\<close>

definition new_exec_state :: "ethers_lib \<Rightarrow> rep_state \<Rightarrow> exec_state" where
  "new_exec_state L r =
     (let events = pool_state.extend (init_pool L r) (events_state.fields None None None);
          deposit = events_state.extend events (deposit_state.fields []);
          rip = deposit_state.extend deposit (rip_state.fields [])
      in rip_state.extend rip (exec_state.fields None None 0 0))"

definition initServer :: "node_features \<Rightarrow> ethers_lib \<Rightarrow> string res \<Rightarrow> (string \<Rightarrow> nat \<Rightarrow> bool res) \<Rightarrow> js_value obj \<Rightarrow> modules res" where
  "initServer N L send_wei seen c =
     bindE (nf_parseEther N (cfg_text c ''minStake'')) (\<lambda>minStake'.
     bindE (nf_parseEther N (cfg_text c ''minBalance'')) (\<lambda>minBalance'.
       let rip = cfg_flag c ''rip7560'';
           mode = cfg_text c ''rip7560Mode'';
           s0 = new_exec_state L (init_rep BundlerReputationParams minStake' (cfg_number c ''minUnstakeDelay''));
           s1 = addBlacklist (cfg_texts c ''blacklist'') (addWhitelist (cfg_texts c ''whitelist'') s0);
           s2 = (if rip \<and> mode = ''PUSH''
                 then setAutoBundler (cfg_number c ''autoBundleInterval'') (cfg_number c ''autoBundleMempoolSize'') s1 else s1);
           native = js_field c ''tracerRpcUrl'' = JsNull
       in Inr \<lparr>md_exec = s2,
            md_execConfig = \<lparr>rip7560 = rip, useRip7560Mode = Some mode, gethDevMode = cfg_flag c ''gethDevMode'',
              signer_send_wei = send_wei, receipt_seen = seen\<rparr>,
            md_bundleConfig = \<lparr>beneficiary = cfg_text c ''beneficiary'', minSignerBalance = minBalance',
              maxBundleGas = cfg_number c ''maxBundleGas'', conditionalRpc = cfg_flag c ''conditionalRpc'', mergeToAccountRootHash = False\<rparr>,
            md_pvgc = mergedPvgcConfig c,
            md_validation =
              (if rip then (id, new_parser L AA_ENTRY_POINT AA_SENDER_CREATOR (Some AA_NONCE_MANAGER))
               else (\<lambda>V. V\<lparr>ve_entryPoint := cfg_text c ''entryPoint'', ve_unsafe := cfg_flag c ''unsafe'', ve_native := native\<rparr>,
                     new_parser L (cfg_text c ''entryPoint'') (cfg_text c ''senderCreator'') None))\<rparr>))"

section \<open>runBundler\<close>

definition fatal :: "string \<Rightarrow> js_error" where
  "fatal msg = JsError (''FATAL: '' @ msg) None"

definition is_test_chain :: "int \<Rightarrow> bool" where
  "is_test_chain chainId \<longleftrightarrow> chainId \<in> {31337, 1337}"

text \<open>Lines 121 to 133: on a test node the debug methods are on by default and the signer is funded.\<close>

definition prepare_test_node :: "node_features \<Rightarrow> int \<Rightarrow> js_value obj \<Rightarrow> js_value obj res" where
  "prepare_test_node N chainId c =
     (if is_test_chain chainId then
        let c1 = (if js_field c ''debugRpc'' = JsNull then AList.update ''debugRpc'' (JsBool True) c else c) in
        bindE (nf_signerBalance N) (\<lambda>balance.
        bindE (if balance = 0 then nf_fund N else Inr ()) (\<lambda>_. Inr c1))
      else Inr c)"

text \<open>Lines 135 to 159.\<close>

definition check_node :: "node_features \<Rightarrow> js_value obj \<Rightarrow> unit res" where
  "check_node N c =
     (if cfg_flag c ''conditionalRpc'' \<and> \<not> supportsRpcMethod N ''eth_sendRawTransactionConditional''
      then Inl (fatal ''--conditionalRpc requires a node that support eth_sendRawTransactionConditional'')
      else if cfg_flag c ''unsafe'' then
        (if js_field c ''tracerRpcUrl'' \<noteq> JsNull then Inl (fatal ''--unsafe and --tracerRpcUrl are mutually exclusive'') else Inr ())
      else if js_field c ''tracerRpcUrl'' \<noteq> JsNull then
        (if \<not> supportsNativeTracer N ''prestateTracer''
         then Inl (fatal ''--tracerRpcUrl requires the network provider to support prestateTracer'') else Inr ())
      else bindE (supportsDebugTraceCall N (cfg_flag c ''rip7560'')) (\<lambda>ok.
         if ok then Inr () else Inl (fatal (''full validation requires a node with '' @
           (if cfg_flag c ''rip7560'' then ''eth_traceRip7560Validation'' else ''debug_traceCall'') @
           ''. for local UNSAFE mode: use --unsafe''))))"

fun includes_text :: "string \<Rightarrow> string \<Rightarrow> bool" where
  "includes_text [] p = (p = [])"
| "includes_text (x # xs) p = (startsWith (x # xs) p \<or> includes_text xs p)"

text \<open>Lines 161 to 175: two failures of the deployment are taken for a contract that is there already.\<close>

definition deploy_rip_contracts :: "node_features \<Rightarrow> unit res" where
  "deploy_rip_contracts N =
     (case bindE (nf_nonceManager N) (\<lambda>nm.
            if toLowerCase nm \<noteq> toLowerCase AA_NONCE_MANAGER
            then Inl (JsError (''NonceManager deployed at '' @ nm @ '' does not match constant AA_NONCE_MANAGER='' @ AA_NONCE_MANAGER) None)
            else bindE (nf_stakeManager N) (\<lambda>sm.
              if toLowerCase sm \<noteq> toLowerCase AA_STAKE_MANAGER
              then Inl (JsError (''StakeManager deployed at '' @ sm @ '' does not match constant AA_STAKE_MANAGER='' @ AA_STAKE_MANAGER) None)
              else Inr ())) of
        Inr u \<Rightarrow> Inr u
      | Inl e \<Rightarrow> if includes_text (err_message e) ''replacement fee too low'' \<or> includes_text (err_message e) ''already known''
                 then Inr () else Inl e)"

text \<open>Lines 177 to 185.\<close>

definition override_entry_point :: "node_features \<Rightarrow> int \<Rightarrow> js_value obj \<Rightarrow> js_value obj res" where
  "override_entry_point N chainId c =
     (if cfg_flag c ''rip7560'' then Inr c
      else bindE (nf_entryPoint N) (\<lambda>ep.
        if toLowerCase ep \<noteq> toLowerCase (cfg_text c ''entryPoint'') \<and> is_test_chain chainId
        then bindE (nf_senderCreator N) (\<lambda>creator.
               Inr (AList.update ''senderCreator'' (JsStr creator) (AList.update ''entryPoint'' (JsStr ep) c)))
        else Inr c))"

definition execManagerConfig :: "js_value obj \<Rightarrow> js_value obj \<Rightarrow> js_value obj" where
  "execManagerConfig programOpts c =
     (if js_field programOpts ''auto'' = JsBool True
      then AList.update ''autoBundleInterval'' (JsNum 0) (AList.update ''autoBundleMempoolSize'' (JsNum 0) c) else c)"

record started =
  st_config :: "js_value obj"
  st_modules :: modules
  st_debug :: bool

definition runBundler ::
  "node_features \<Rightarrow> ethers_lib \<Rightarrow> string res \<Rightarrow> (string \<Rightarrow> nat \<Rightarrow> bool res) \<Rightarrow> js_value obj option res \<Rightarrow>
     (string \<Rightarrow> string res) \<Rightarrow> js_value obj \<Rightarrow> started res" where
  "runBundler N L send_wei seen file readMnemonic programOpts =
     bindE (resolveConfiguration file readMnemonic programOpts) (\<lambda>(config0, wallet).
     bindE (nf_chainId N) (\<lambda>chainId.
     bindE (prepare_test_node N chainId config0) (\<lambda>config1.
     bindE (check_node N config1) (\<lambda>_.
     bindE (if cfg_flag config1 ''rip7560'' then deploy_rip_contracts N else Inr ()) (\<lambda>_.
     bindE (override_entry_point N chainId config1) (\<lambda>config.
     bindE (initServer N L send_wei seen (execManagerConfig programOpts config)) (\<lambda>m.
       Inr \<lparr>st_config = config, st_modules = m, st_debug = cfg_flag config ''debugRpc''\<rparr>)))))))"

section \<open>The check of a starting server\<close>

definition preflightCheck :: "node_features \<Rightarrow> (js_error \<Rightarrow> string) \<Rightarrow> js_value obj \<Rightarrow> unit res" where
  "preflightCheck N reason c =
     (if cfg_flag c ''rip7560'' then Inr ()
      else bindE (nf_code N (cfg_text c ''entryPoint'')) (\<lambda>code.
        if code = ''0x'' then Inl (fatal (''entrypoint not deployed at '' @ cfg_text c ''entryPoint''))
        else case nf_opHash N (cfg_text c ''entryPoint'') of
            Inl e \<Rightarrow> Inl (fatal (''Invalid entryPoint contract at '' @ cfg_text c ''entryPoint'' @ ''. wrong version? '' @ reason e))
          | Inr _ \<Rightarrow>
              bindE (nf_signerBalance N) (\<lambda>bal.
              if bal = 0 then Inl (fatal ''cannot run with zero balance'')
              else bindE (nf_parseEther N (cfg_text c ''minBalance'')) (\<lambda>_. Inr ()))))"

section \<open>Which source a setting comes from\<close>

lemma obj_get_spread:
  "obj_get (spread base fs) k = (if k \<in> set (obj_keys fs) then Some (js_field fs k) else obj_get base k)"
proof -
  have "obj_get (foldl (\<lambda>acc k. AList.update k (js_field fs k) acc) base ks) k =
      (if k \<in> set ks then Some (js_field fs k) else obj_get base k)" for ks
    by (induction ks arbitrary: base) auto
  then show ?thesis by (simp add: spread_def)
qed

lemma obj_get_spread_empty: "obj_get (spread [] fs) k = obj_get fs k"
  unfolding obj_get_spread obj_get_keys by (cases "obj_get fs k") (simp_all add: js_field_def or_else_def)

lemma exactShape_keys: "exactShape sh fs \<Longrightarrow> obj_get fs k \<noteq> None \<Longrightarrow> k \<in> set (shape_keys sh)"
  unfolding exactShape_def obj_get_keys [symmetric] by (auto simp: list_all_iff)

lemma exactShape_typed: "exactShape sh fs \<Longrightarrow> (k, opt, t) \<in> set sh \<Longrightarrow> obj_get fs k = Some v \<Longrightarrow> ow_ok t v"
  by (fastforce simp: exactShape_def list_all_iff)

text \<open>C32: where a setting comes from: when the three sources can be merged, every setting has the
  value of the command line if that has one, else the one of the file, else the default; no
  source has a setting the shape does not know; and every setting has the type of the shape.\<close>

theorem config_precedence:
  assumes "mergeConfigs [bundlerConfigDefault, file, getCommandLineParams opts] = Inr config"
  shows "obj_get config k =
      (if k \<in> set (shape_keys BundlerConfigShape) \<and> js_field opts k \<noteq> JsNull then Some (js_field opts k)
       else if k \<in> set (obj_keys file) then Some (js_field file k) else obj_get bundlerConfigDefault k) \<and>
    set (obj_keys file) \<subseteq> set (shape_keys BundlerConfigShape) \<and> exactShape BundlerConfigShape config"
proof -
  have c: "config = spread (spread (spread [] bundlerConfigDefault) file) (getCommandLineParams opts)"
    and ok: "exactShape BundlerConfigShape config"
    using assms by (auto simp: mergeConfigs_def Let_def split: if_splits)
  have get: "obj_get config k = (if k \<in> set (obj_keys (getCommandLineParams opts)) then Some (js_field (getCommandLineParams opts) k)
      else if k \<in> set (obj_keys file) then Some (js_field file k) else obj_get bundlerConfigDefault k)" for k
    unfolding c obj_get_spread [of _ "getCommandLineParams opts"] obj_get_spread [of _ "file"] obj_get_spread_empty ..
  have cli: "k \<in> set (obj_keys (getCommandLineParams opts)) \<longleftrightarrow> k \<in> set (shape_keys BundlerConfigShape) \<and> js_field opts k \<noteq> JsNull" for k
    by (auto simp: getCommandLineParams_def)
  have val: "js_field (getCommandLineParams opts) k = js_field opts k" if "k \<in> set (obj_keys (getCommandLineParams opts))" for k
    using that [unfolded cli] by (subst js_field_def) (simp add: getCommandLineParams_def map_of_map_restrict or_else_def)
  have "k \<in> set (shape_keys BundlerConfigShape)" if "k \<in> set (obj_keys file)" for k
    using exactShape_keys [OF ok, of k] get [of k] that by (auto split: if_splits)
  then show ?thesis using get [of k] cli [of k] val [of k] ok by auto
qed

section \<open>What a started bundler can rely on\<close>

lemma prepared_config:
  assumes "prepare_test_node N chainId c = Inr c1"
  shows "c1 = (if is_test_chain chainId \<and> js_field c ''debugRpc'' = JsNull then AList.update ''debugRpc'' (JsBool True) c else c)"
  using assms by (auto simp: prepare_test_node_def bindE_Inr_iff Let_def split: if_splits)

lemma js_field_update [simp]: "js_field (AList.update k v c) k' = (if k' = k then v else js_field c k')"
  by (simp add: js_field_def or_else_def)

lemma overridden_config:
  assumes "override_entry_point N chainId c = Inr c1" and "k \<notin> {''entryPoint'', ''senderCreator''}"
  shows "js_field c1 k = js_field c k"
  using assms by (auto simp: override_entry_point_def bindE_Inr_iff split: if_splits)

text \<open>C29: a bundler only starts if its mode can work: one that validates ERC-4337 operations (neither
  unsafe nor in RIP-7560 mode) has a node that can trace, with the native prestate tracer if there is a
  tracer of its own; a tracer of its own excludes the unsafe mode, and conditional bundles have a node
  for them. The debug methods are on only if they are configured, or on a test chain when nothing is
  configured. In RIP-7560 mode the source takes the ability to trace for granted.\<close>

theorem start_checks:
  assumes "runBundler N L send_wei seen file readMnemonic opts = Inr st"
  shows "(cfg_flag (st_config st) ''conditionalRpc'' \<longrightarrow> supportsRpcMethod N ''eth_sendRawTransactionConditional'') \<and>
    (\<not> cfg_flag (st_config st) ''unsafe'' \<and> \<not> cfg_flag (st_config st) ''rip7560'' \<longrightarrow>
       (if js_field (st_config st) ''tracerRpcUrl'' = JsNull then supportsDebugTraceCall N False = Inr True
        else supportsNativeTracer N ''prestateTracer'')) \<and>
    (cfg_flag (st_config st) ''unsafe'' \<longrightarrow> js_field (st_config st) ''tracerRpcUrl'' = JsNull) \<and>
    (st_debug st \<longrightarrow> (\<exists>config wallet. resolveConfiguration file readMnemonic opts = Inr (config, wallet) \<and>
       (js_field config ''debugRpc'' = JsBool True \<or>
        js_field config ''debugRpc'' = JsNull \<and> (\<exists>n. nf_chainId N = Inr n \<and> is_test_chain n))))"
proof -
  obtain c0 w n c1 m where c0: "resolveConfiguration file readMnemonic opts = Inr (c0, w)" and n: "nf_chainId N = Inr n"
    and c1: "prepare_test_node N n c0 = Inr c1" and ok: "check_node N c1 = Inr ()"
    and o': "override_entry_point N n c1 = Inr (st_config st)" and st: "st_debug st = cfg_flag (st_config st) ''debugRpc''"
    using assms by (auto simp: runBundler_def bindE_Inr_iff)
  have k: "js_field (st_config st) k = js_field c1 k" if "k \<notin> {''entryPoint'', ''senderCreator''}" for k
    using overridden_config [OF o' that] .
  have f: "cfg_flag (st_config st) k = cfg_flag c1 k" if "k \<notin> {''entryPoint'', ''senderCreator''}" for k
    using k [OF that] by (simp add: cfg_flag_def)
  have d: "js_field c0 ''debugRpc'' = JsBool True \<or> js_field c0 ''debugRpc'' = JsNull \<and> is_test_chain n"
    if "cfg_flag c1 ''debugRpc''"
  proof (cases "js_field c0 ''debugRpc'' = JsNull")
    case True
    then show ?thesis using that prepared_config [OF c1] by (cases "is_test_chain n") (auto simp: cfg_flag_def truthy_def)
  next
    case False
    obtain fileConfig where "mergeConfigs [bundlerConfigDefault, fileConfig, getCommandLineParams opts] = Inr c0"
      using c0 by (auto simp: resolveConfiguration_def bindE_Inr_iff split: if_splits sum.splits)
    then have "exactShape BundlerConfigShape c0" by (auto simp: mergeConfigs_def Let_def split: if_splits)
    moreover have "(''debugRpc'', True, OwBoolean) \<in> set BundlerConfigShape" by (simp add: BundlerConfigShape_def)
    moreover from False have "obj_get c0 ''debugRpc'' = Some (js_field c0 ''debugRpc'')"
      by (cases "obj_get c0 ''debugRpc''") (simp_all add: js_field_def or_else_def)
    ultimately have "ow_ok OwBoolean (js_field c0 ''debugRpc'')" by (rule exactShape_typed)
    then obtain b where "js_field c0 ''debugRpc'' = JsBool b" by (auto split: js_value.splits)
    then show ?thesis using that prepared_config [OF c1] False by (auto simp: cfg_flag_def truthy_def)
  qed
  have ck: "cfg_flag c1 ''conditionalRpc'' \<longrightarrow> supportsRpcMethod N ''eth_sendRawTransactionConditional''"
    "\<not> cfg_flag c1 ''unsafe'' \<and> \<not> cfg_flag c1 ''rip7560'' \<longrightarrow>
       (if js_field c1 ''tracerRpcUrl'' = JsNull then supportsDebugTraceCall N False = Inr True else supportsNativeTracer N ''prestateTracer'')"
    "cfg_flag c1 ''unsafe'' \<longrightarrow> js_field c1 ''tracerRpcUrl'' = JsNull"
    using ok by (auto simp: check_node_def bindE_Inr_iff split: if_splits)
  have d': "\<exists>config wallet. resolveConfiguration file readMnemonic opts = Inr (config, wallet) \<and>
       (js_field config ''debugRpc'' = JsBool True \<or>
        js_field config ''debugRpc'' = JsNull \<and> (\<exists>n. nf_chainId N = Inr n \<and> is_test_chain n))" if "st_debug st"
    using d that st f [of "''debugRpc''"] c0 n by auto
  show ?thesis
    using ck d' f [of "''conditionalRpc''"] f [of "''unsafe''"] f [of "''rip7560''"] k [of "''tracerRpcUrl''"] by simp
qed

lemma initServer_depends:
  assumes "\<not> (cfg_flag c ''rip7560'' \<and> cfg_text c ''rip7560Mode'' = ''PUSH'')"
    and "\<And>k. k \<notin> {''autoBundleInterval'', ''autoBundleMempoolSize''} \<Longrightarrow> js_field c' k = js_field c k"
  shows "initServer N L send_wei seen c' = initServer N L send_wei seen c"
proof -
  have p: "mergedPvgcConfig c' = mergedPvgcConfig c"
    unfolding mergedPvgcConfig_def number_or_def cfg_number_def by (simp add: assms(2))
  have "\<not> (cfg_flag c' ''rip7560'' \<and> cfg_text c' ''rip7560Mode'' = ''PUSH'')"
    using assms(1) by (simp add: cfg_flag_def cfg_text_def assms(2))
  with assms(1) show ?thesis
    unfolding initServer_def Let_def p cfg_flag_def cfg_text_def cfg_texts_def cfg_number_def by (simp add: assms(2))
qed

lemma new_exec_state_parts [simp]:
  "autoBundleInterval (new_exec_state L r) = None" "maxMempoolSize (new_exec_state L r) = 0"
  by (simp_all add: new_exec_state_def Let_def rip_state.defs exec_state.defs)

text \<open>outside the PUSH mode of RIP-7560 the settings for automatic bundling, and \<^verbatim>\<open>--auto\<close>, have no
  effect at all: the modules are the same whatever they say, no timer is set, and with ERC-4337 an
  operation that is admitted is bundled at once.\<close>

theorem auto_bundling_ignored:
  assumes "\<not> (cfg_flag c ''rip7560'' \<and> cfg_text c ''rip7560Mode'' = ''PUSH'')"
    and "\<forall>k. k \<notin> {''autoBundleInterval'', ''autoBundleMempoolSize''} \<longrightarrow> js_field c' k = js_field c k"
    and "initServer N L send_wei seen (execManagerConfig opts c) = Inr m"
  shows "initServer N L send_wei seen c' = Inr m \<and> autoBundleInterval (md_exec m) = None \<and>
    (\<not> cfg_flag c ''rip7560'' \<longrightarrow> attemptBundle (md_execConfig m) bm False (md_exec m) = attemptBundle (md_execConfig m) bm True (md_exec m))"
proof -
  have e: "js_field (execManagerConfig opts c) k = js_field c k" if "k \<notin> {''autoBundleInterval'', ''autoBundleMempoolSize''}" for k
    using that by (simp add: execManagerConfig_def)
  have m: "initServer N L send_wei seen c = Inr m"
    using initServer_depends [OF assms(1), of "execManagerConfig opts c"] e assms(3) by simp
  then have auto: "autoBundleInterval (md_exec m) = None" "maxMempoolSize (md_exec m) = 0"
    "rip7560 (md_execConfig m) = cfg_flag c ''rip7560''"
    using assms(1) by (auto simp: initServer_def bindE_Inr_iff Let_def addBlacklist_def addWhitelist_def)
  then show ?thesis
    using initServer_depends [OF assms(1), of c'] assms(2) m by (simp add: attemptBundle_def bindM_def getM_def)
qed

section \<open>An example\<close>

definition file_example :: "js_value obj" where
  "file_example = [(''chainId'', JsNum 1337), (''beneficiary'', JsStr ''0xbb''), (''gasFactor'', JsStr ''1''), (''minBalance'', JsStr ''0''),
     (''mnemonic'', JsStr ''m.txt''), (''network'', JsStr ''http://localhost:8545''), (''maxBundleGas'', JsNum 5000000),
     (''autoBundleInterval'', JsNum 3), (''autoBundleMempoolSize'', JsNum 10), (''port'', JsStr ''4000'')]"

definition opts_example :: "js_value obj" where
  "opts_example = [(''port'', JsStr ''5000''), (''unsafe'', JsNull), (''auto'', JsBool True)]"

definition config_example :: "js_value obj" where
  "config_example = [(''port'', JsStr ''5000''), (''privateApiPort'', JsStr ''3001''),
     (''entryPoint'', JsStr ''0x4337084D9E255Ff0702461CF8895CE9E3b5Ff108''),
     (''senderCreator'', JsStr ''0x449ED7C3e6Fee6a97311d4b55475DF59C44AdD33''),
     (''unsafe'', JsBool False), (''conditionalRpc'', JsBool False), (''minStake'', JsStr ''1000000000000000000''),
     (''minUnstakeDelay'', JsNum 86400), (''rip7560'', JsBool False), (''rip7560Mode'', JsStr ''PULL''),
     (''gethDevMode'', JsBool True), (''eip7702Support'', JsBool True), (''chainId'', JsNum 1337),
     (''beneficiary'', JsStr ''0xbb''), (''gasFactor'', JsStr ''1''), (''minBalance'', JsStr ''0''), (''mnemonic'', JsStr ''m.txt''),
     (''network'', JsStr ''http://localhost:8545''), (''maxBundleGas'', JsNum 5000000), (''autoBundleInterval'', JsNum 3),
     (''autoBundleMempoolSize'', JsNum 10)]"

lemma config_example_merged: "mergeConfigs [bundlerConfigDefault, file_example, getCommandLineParams opts_example] = Inr config_example"
  by code_simp

lemma config_example_fields:
  "js_field config_example ''network'' = JsStr ''http://localhost:8545''" "cfg_flag config_example ''conditionalRpc'' = False"
  "cfg_flag config_example ''unsafe'' = False" "js_field config_example ''tracerRpcUrl'' = JsNull"
  "cfg_flag config_example ''rip7560'' = False" "js_field config_example ''debugRpc'' = JsNull"
  "cfg_text config_example ''entryPoint'' = ''0x4337084D9E255Ff0702461CF8895CE9E3b5Ff108''"
  by (simp_all add: config_example_def js_field_def or_else_def cfg_flag_def cfg_text_def truthy_def)

lemma config_precedence_witness:
  "obj_get config_example ''port'' = Some (JsStr ''5000'') \<and> exactShape BundlerConfigShape config_example"
proof -
  have "''port'' \<in> set (shape_keys BundlerConfigShape) \<and> js_field opts_example ''port'' = JsStr ''5000''" by code_simp
  then show ?thesis using config_precedence [OF config_example_merged, of "''port''"] by simp
qed

definition node_features_example :: node_features where
  "node_features_example = \<lparr>nf_chainId = Inr 1337, nf_signerBalance = Inr 5, nf_fund = Inr (), nf_rpcError = (\<lambda>m. None),
     nf_traceWith = (\<lambda>t. False), nf_clientVersion = Inr (), nf_usedOpcodes = True, nf_nonceManager = Inr AA_NONCE_MANAGER,
     nf_stakeManager = Inr AA_STAKE_MANAGER, nf_entryPoint = Inr ''0xee'', nf_senderCreator = Inr ''0xcc'',
     nf_code = (\<lambda>a. Inr ''0x1234''), nf_opHash = (\<lambda>a. Inr ()), nf_parseEther = (\<lambda>s. Inr 1)\<rparr>"

lemma started_example:
  obtains st where "runBundler node_features_example base_lib (Inr ''0xtx'') (\<lambda>h i. Inr True) (Inr (Some file_example)) (\<lambda>f. Inr ''0xw'') opts_example = Inr st"
    and "st_debug st"
proof -
  have "toLowerCase ''0xee'' \<noteq> toLowerCase (cfg_text config_example ''entryPoint'')"
    unfolding config_example_fields by code_simp
  then show thesis
    using that config_example_merged config_example_fields
    by (simp add: runBundler_def resolveConfiguration_def or_else_def prepare_test_node_def check_node_def override_entry_point_def
        initServer_def supportsDebugTraceCall_def node_features_example_def is_test_chain_def Let_def cfg_flag_def cfg_text_def truthy_def)
qed

lemma start_checks_witness:
  "\<exists>st. runBundler node_features_example base_lib (Inr ''0xtx'') (\<lambda>h i. Inr True) (Inr (Some file_example)) (\<lambda>f. Inr ''0xw'') opts_example = Inr st \<and>
     (cfg_flag (st_config st) ''unsafe'' \<or> cfg_flag (st_config st) ''rip7560'' \<or>
      js_field (st_config st) ''tracerRpcUrl'' \<noteq> JsNull \<or> supportsDebugTraceCall node_features_example False = Inr True)"
proof -
  obtain st where st: "runBundler node_features_example base_lib (Inr ''0xtx'') (\<lambda>h i. Inr True) (Inr (Some file_example)) (\<lambda>f. Inr ''0xw'') opts_example = Inr st"
    using started_example by blast
  from start_checks [OF st] show ?thesis using st by auto
qed

lemma auto_bundling_ignored_witness:
  "\<exists>m. initServer node_features_example base_lib (Inr ''0xtx'') (\<lambda>h i. Inr True) config_example = Inr m \<and> autoBundleInterval (md_exec m) = None"
proof -
  have n: "\<not> (cfg_flag config_example ''rip7560'' \<and> cfg_text config_example ''rip7560Mode'' = ''PUSH'')"
    using config_example_fields by simp
  obtain m where "initServer node_features_example base_lib (Inr ''0xtx'') (\<lambda>h i. Inr True) (execManagerConfig opts_example config_example) = Inr m"
    by (simp add: initServer_def node_features_example_def Let_def)
  from auto_bundling_ignored [OF n _ this, of config_example] show ?thesis by auto
qed

end
