(* ===== verification/NodeHelpers.thy ===== *)
theory NodeHelpers
  imports StartUp
begin

text \<open>
  Helpers around a node: \<^verbatim>\<open>DeterministicDeployer.ts\<close> and \<^verbatim>\<open>postExecCheck.ts\<close> of
  \<^verbatim>\<open>packages/utils/src\<close>, \<^verbatim>\<open>checkRulesViolations\<close> of
  \<^verbatim>\<open>packages/validation-manager/src/index.ts\<close>, and the error text of
  \<^verbatim>\<open>packages/sdk/src/ERC4337EthersSigner.ts\<close>.
\<close>

section \<open>DeterministicDeployer\<close>

definition proxyAddress :: string where
  "proxyAddress = ''0x4e59b44847b379578588920ca78fbf26c0b4956c''"

definition deploymentSignerAddress :: string where
  "deploymentSignerAddress = ''0x3fab184622dc19b6109349b94811493bf2a45362''"

definition deploymentGasPrice :: int where
  "deploymentGasPrice = 100000000000"

definition deploymentGasLimit :: int where
  "deploymentGasLimit = 100000"

datatype ctr_code = CtrCode string | CtrFactory "js_value list \<Rightarrow> string res"
  \<comment> \<open>constructor code, or a factory by the data of its deployment for constructor parameters\<close>

record send_tx =
  sx_to :: string
  sx_data :: string
  sx_value :: int

text \<open>The node as it is seen by the deployer, with the effects of what is sent to it.\<close>

record 's deploy_node =
  dn_hex :: hex_lib
  dn_code :: "'s \<Rightarrow> string \<Rightarrow> string"
  dn_balance :: "'s \<Rightarrow> string \<Rightarrow> int"
  dn_send :: "send_tx \<Rightarrow> ('s, unit) act"
  dn_sendWait :: "send_tx \<Rightarrow> ('s, unit) act"
  dn_sendDeployer :: "('s, unit) act"
    \<comment> \<open>the raw transaction \<^verbatim>\<open>deploymentTransaction\<close>, mined\<close>
  dn_checksum :: "string \<Rightarrow> string"
  dn_salt :: "string \<Rightarrow> string res"
    \<comment> \<open>\<^verbatim>\<open>hexlify\<close> of a salt\<close>

definition isContractDeployed :: "'s deploy_node \<Rightarrow> string \<Rightarrow> ('s, bool) act" where
  "isContractDeployed N address = getM (\<lambda>s. length (dn_code N s address) > 2)"

definition isDeployerDeployed :: "'s deploy_node \<Rightarrow> ('s, bool) act" where
  "isDeployerDeployed N = isContractDeployed N proxyAddress"

definition deployFactory :: "'s deploy_node \<Rightarrow> ('s, unit) act" where
  "deployFactory N =
     bindM (isContractDeployed N proxyAddress) (\<lambda>deployed.
     if deployed then retM ()
     else
       bindM (getM (\<lambda>s. dn_balance N s deploymentSignerAddress)) (\<lambda>bal.
       let neededBalance = deploymentGasLimit * deploymentGasPrice in
       thenM (if bal < neededBalance
              then dn_sendWait N \<lparr>sx_to = deploymentSignerAddress, sx_data = ''0x'', sx_value = neededBalance\<rparr> else retM ())
       (thenM (dn_sendDeployer N)
       (bindM (isContractDeployed N proxyAddress) (\<lambda>ok.
          if ok then retM () else throwM (JsError ''raw TX didn't deploy deployer!'' None))))))"

definition getCtrCode :: "ctr_code \<Rightarrow> js_value list \<Rightarrow> string res" where
  "getCtrCode ctrCode ps =
     (case ctrCode of
        CtrFactory f \<Rightarrow> f ps
      | CtrCode c \<Rightarrow> if ps \<noteq> [] then Inl (JsError ''constructor params can only be passed to ContractFactory'' None) else Inr c)"

definition saltEncoded :: "'s deploy_node \<Rightarrow> string \<Rightarrow> string res" where
  "saltEncoded N salt = bindE (dn_salt N salt) (\<lambda>h. hx_zeroPad (dn_hex N) h 32)"

definition getDeployTransaction :: "'s deploy_node \<Rightarrow> ctr_code \<Rightarrow> string \<Rightarrow> js_value list \<Rightarrow> ('s, send_tx) act" where
  "getDeployTransaction N ctrCode salt ps =
     thenM (deployFactory N)
     (bindM (liftE (saltEncoded N salt)) (\<lambda>encoded.
      bindM (liftE (getCtrCode ctrCode ps)) (\<lambda>ctrEncoded.
      bindM (liftE (hx_concat (dn_hex N) [encoded, ctrEncoded])) (\<lambda>data.
        retM \<lparr>sx_to = proxyAddress, sx_data = data, sx_value = 0\<rparr>))))"

definition getDeterministicDeployAddress :: "'s deploy_node \<Rightarrow> ctr_code \<Rightarrow> string \<Rightarrow> js_value list \<Rightarrow> string res" where
  "getDeterministicDeployAddress N ctrCode salt ps =
     (let H = dn_hex N in
      bindE (saltEncoded N salt) (\<lambda>encoded.
      bindE (getCtrCode ctrCode ps) (\<lambda>ctrCode1.
      bindE (hx_keccak H ctrCode1) (\<lambda>codeHash.
      bindE (bindE (hx_concat H [''0xff'', proxyAddress, encoded, codeHash]) (hx_keccak H)) (\<lambda>h.
        Inr (dn_checksum N (''0x'' @ drop (length h - 40) h)))))))"

definition deterministicDeploy :: "'s deploy_node \<Rightarrow> ctr_code \<Rightarrow> string \<Rightarrow> js_value list \<Rightarrow> ('s, string) act" where
  "deterministicDeploy N ctrCode salt ps =
     bindM (liftE (getDeterministicDeployAddress N ctrCode salt ps)) (\<lambda>addr'.
     bindM (isContractDeployed N addr') (\<lambda>deployed.
     thenM (if deployed then retM () else bindM (getDeployTransaction N ctrCode salt ps) (dn_send N))
     (retM addr')))"

section \<open>postExecutionCheck\<close>

record mined_event =
  mv_actualGasUsed :: int
  mv_success :: bool
  mv_receiptGasUsed :: "int res"
  mv_ops :: "packed_user_op list res"

record execution_check =
  xc_gasUsed :: int
  xc_gasPaid :: int
  xc_success :: bool
  xc_userOp :: "packed_user_op option"

text \<open>The operation reported is the first one of the bundle.\<close>

definition postExecutionCheck :: "mined_event list res \<Rightarrow> execution_check res" where
  "postExecutionCheck query =
     bindE query (\<lambda>req.
       case req of
         [] \<Rightarrow> Inr \<lparr>xc_gasUsed = 0, xc_gasPaid = 0, xc_success = False, xc_userOp = None\<rparr>
       | e # es \<Rightarrow>
           bindE (mv_receiptGasUsed e) (\<lambda>receiptGas.
           bindE (mv_ops e) (\<lambda>ops.
           bindE (toNumber (mv_actualGasUsed e)) (\<lambda>gasPaid.
           bindE (toNumber receiptGas) (\<lambda>gasUsed'.
             Inr \<lparr>xc_gasUsed = gasUsed', xc_gasPaid = gasPaid, xc_success = mv_success e,
                  xc_userOp = (case ops of [] \<Rightarrow> None | p # ps \<Rightarrow> Some p)\<rparr>)))))"

section \<open>checkRulesViolations\<close>

text \<open>The validation manager it makes gets an empty object for a gas calculator, so the validation
  throws at the first use of it, after the checks before the simulation.\<close>

definition checkRulesViolations :: "node_features \<Rightarrow> vm_env \<Rightarrow> operation \<Rightarrow> validate_user_op_result res" where
  "checkRulesViolations N V op =
     bindE (supportsDebugTraceCall N False) (\<lambda>supportsTrace.
     if \<not> supportsTrace then Inl (JsError ''This provider does not support stack tracing'' None)
     else bindE (nf_senderCreator N) (\<lambda>creator.
          bindE (check_authorizations V op) (\<lambda>_.
          bindE (packUserOp (ve_hex V) op) (\<lambda>_.
            Inl (JsError ''this.preVerificationGasCalculator._calculate is not a function'' None)))))"

section \<open>The error of a refused operation\<close>

text \<open>\<^verbatim>\<open>/FailedOp\((.*)\)/\<close>: after the first \<^verbatim>\<open>FailedOp(\<close> with a closing parenthesis on the rest
  of its line, the text up to the last one of that line.\<close>

definition up_to_last :: "char \<Rightarrow> string \<Rightarrow> string option" where
  "up_to_last c s = (if c \<in> set s then Some (rev (drop 1 (dropWhile (\<lambda>x. x \<noteq> c) (rev s)))) else None)"

fun match_FailedOp :: "string \<Rightarrow> string option" where
  "match_FailedOp [] = None"
| "match_FailedOp (c # s) =
     (if startsWith (c # s) ''FailedOp(''
      then (case up_to_last CHR '')'' (takeWhile (\<lambda>x. x \<notin> {CHR 0x0A, CHR 0x0D}) (drop 9 (c # s))) of
              Some r \<Rightarrow> Some r | None \<Rightarrow> match_FailedOp s)
      else match_FailedOp s)"

fun split_comma :: "string \<Rightarrow> string list" where
  "split_comma [] = [[]]"
| "split_comma (c # s) = (if c = CHR '','' then [] # split_comma s
     else (case split_comma s of [] \<Rightarrow> [[c]] | w # ws \<Rightarrow> (c # w) # ws))"

definition nth_or_undefined :: "string list \<Rightarrow> nat \<Rightarrow> string" where
  "nth_or_undefined ws i = (if i < length ws then ws ! i else ''undefined'')"

text \<open>The message of the error that \<^verbatim>\<open>unwrapError\<close> makes of the message in the body of a response.\<close>

definition unwrapError :: "string option \<Rightarrow> string" where
  "unwrapError message =
     (let (failedOpMessage, paymasterInfo) =
        (case message of
           None \<Rightarrow> (''undefined'', [])
         | Some m \<Rightarrow>
             if includes_text m ''FailedOp'' then
               (case match_FailedOp m of
                  None \<Rightarrow> (m, [])
                | Some args \<Rightarrow> (nth_or_undefined (split_comma args) 2,
                    ''(paymaster address: '' @ nth_or_undefined (split_comma args) 1 @ '')''))
             else (m, []))
      in ''The bundler has failed to include UserOperation in a batch: '' @ failedOpMessage @ '' '' @ paymasterInfo @ '')'')"

section \<open>Properties\<close>

text \<open>Deploying is idempotent: once the contract is there, deploying it again sends nothing and
  returns the same address.\<close>

lemma deploy_again:
  assumes "deterministicDeploy N c salt ps s = (Inr a, t)" and "length (dn_code N t a) > 2"
  shows "deterministicDeploy N c salt ps t = (Inr a, t)"
  using assms by (auto simp: deterministicDeploy_def isContractDeployed_def returns_iffs getM_def)

text \<open>A deployment starts with the factory: a transaction is only sent to the proxy when there is one.\<close>

lemma deploy_transaction_needs_proxy:
  assumes "getDeployTransaction N c salt ps s = (Inr tx, t)"
  shows "sx_to tx = proxyAddress \<and> length (dn_code N t proxyAddress) > 2"
  using assms
  by (auto simp: getDeployTransaction_def deployFactory_def isContractDeployed_def returns_iffs getM_def throwM_def Let_def
      split: if_splits)

text \<open>The rule checker can never return a result.\<close>

lemma checkRulesViolations_throws: "\<exists>e. checkRulesViolations N V op = Inl e"
proof -
  have "checkRulesViolations N V op \<noteq> Inr r" for r by (auto simp: checkRulesViolations_def bindE_Inr_iff)
  then show ?thesis by (cases "checkRulesViolations N V op") auto
qed

text \<open>An error of the current entry point has two arguments, so its reason is lost.\<close>

lemma unwrapError_loses_reason:
  "unwrapError (Some ''FailedOp(0,AA21 no funds)'') =
     ''The bundler has failed to include UserOperation in a batch: undefined (paymaster address: AA21 no funds))''"
  by code_simp

end
