(* ===== verification/ClientProvider.thy ===== *)
theory ClientProvider
  imports ClientSound NodeHelpers RpcSound
begin

text \<open>
  What wraps the account API of \<open>ClientSDK\<close>: \<^verbatim>\<open>HttpRpcClient.ts\<close>, which puts an operation on the
  wire, the other methods of \<^verbatim>\<open>ERC4337EthersProvider.ts\<close> and \<^verbatim>\<open>ERC4337EthersSigner.ts\<close>, and
  \<^verbatim>\<open>wrapProvider\<close> of \<^verbatim>\<open>Provider.ts\<close>. The client and the server of the repository meet here: an
  operation that the client makes and sends passes the checks of the method handler.
\<close>

section \<open>HttpRpcClient\<close>

text \<open>The object of an operation, with the fields of \<^verbatim>\<open>createUnsignedUserOp\<close> in their order; a field
  that is \<^verbatim>\<open>undefined\<close> is not on the wire. An EIP-7702 tuple, which other operations may have, is last.\<close>

definition client_fields :: "(authorization \<Rightarrow> js_value) \<Rightarrow> operation \<Rightarrow> js_value obj" where
  "client_fields auth_js op =
     [(''sender'', JsStr (sender op)), (''nonce'', JsNum (nonce op))] @
     js_opt ''factory'' (map_option JsStr (factory op)) @ js_opt ''factoryData'' (map_option JsStr (factoryData op)) @
     js_opt ''callData'' (map_option JsStr (callData op)) @
     [(''callGasLimit'', JsNum (callGasLimit op)), (''verificationGasLimit'', JsNum (verificationGasLimit op)),
      (''maxFeePerGas'', JsNum (maxFeePerGas op)), (''maxPriorityFeePerGas'', JsNum (maxPriorityFeePerGas op))] @
     js_opt ''authorizationList'' (map_option (\<lambda>as. JsArr (map auth_js as)) (authorizationList op)) @
     js_opt ''paymaster'' (map_option JsStr (paymaster op)) @
     js_opt ''paymasterPostOpGasLimit'' (map_option JsNum (paymasterPostOpGasLimit op)) @
     js_opt ''paymasterVerificationGasLimit'' (map_option JsNum (paymasterVerificationGasLimit op)) @
     js_opt ''paymasterData'' (map_option JsStr (paymasterData op)) @
     js_opt ''preVerificationGas'' (map_option JsNum (preVerificationGas op)) @
     js_opt ''signature'' (map_option JsStr (signature op)) @
     js_opt ''eip7702Auth'' (map_option auth_js (eip7702Auth op))"

text \<open>\<open>initializing\<close> is the promise of the constructor, the outcome of \<open>validateChainId\<close>; \<open>rpc\<close> is the
  connection to the bundler.\<close>

definition send_hexlified ::
  "hex_lib \<Rightarrow> string \<Rightarrow> unit res \<Rightarrow> (string \<Rightarrow> js_value list \<Rightarrow> ('s, js_value) act) \<Rightarrow> string \<Rightarrow> js_value \<Rightarrow> ('s, js_value) act" where
  "send_hexlified H ep initializing rpc method value =
     thenM (liftE initializing)
     (bindM (liftE (deepHexlify H value)) (\<lambda>hexified. rpc method [hexified, JsStr ep]))"

definition sendUserOpToBundler ::
  "hex_lib \<Rightarrow> (authorization \<Rightarrow> js_value) \<Rightarrow> string \<Rightarrow> unit res \<Rightarrow> (string \<Rightarrow> js_value list \<Rightarrow> ('s, js_value) act) \<Rightarrow>
     operation \<Rightarrow> ('s, js_value) act" where
  "sendUserOpToBundler H auth_js ep initializing rpc op =
     send_hexlified H ep initializing rpc ''eth_sendUserOperation'' (JsObj (client_fields auth_js op))"

definition estimateUserOpGas ::
  "hex_lib \<Rightarrow> string \<Rightarrow> unit res \<Rightarrow> (string \<Rightarrow> js_value list \<Rightarrow> ('s, js_value) act) \<Rightarrow> js_value obj \<Rightarrow> ('s, js_value) act" where
  "estimateUserOpGas H ep initializing rpc fs =
     send_hexlified H ep initializing rpc ''eth_estimateUserOperationGas'' (JsObj fs)"

section \<open>ERC4337EthersProvider and ERC4337EthersSigner\<close>

record provider_state = simple_state +
  initializedBlockNumber :: "int option"
  signer_address :: "string option"

definition new_provider :: provider_state where
  "new_provider = \<lparr>senderAddress = None, isPhantom = True, accountContract = None, connectedFactory = None,
     initializedBlockNumber = None, signer_address = None\<rparr>"

definition provider_init ::
  "node \<Rightarrow> account_params \<Rightarrow> provider_state account_impl \<Rightarrow> int res \<Rightarrow> (provider_state, unit) act" where
  "provider_init N A I block =
     bindM (liftE block) (\<lambda>n.
     thenM (modifyM (\<lambda>s. s\<lparr>initializedBlockNumber := Some n\<rparr>)) (init_account N A I))"

definition perform :: "(string \<Rightarrow> js_value \<Rightarrow> js_value res) \<Rightarrow> string \<Rightarrow> js_value \<Rightarrow> js_value res" where
  "perform original method ps =
     (if method = ''sendTransaction'' \<or> method = ''getTransactionReceipt''
      then Inl (JsError ''Should not get here. Investigate.'' None) else original method ps)"

definition getSenderAccountAddress ::
  "node \<Rightarrow> account_params \<Rightarrow> ('z account_state_scheme) account_impl \<Rightarrow> ('z account_state_scheme, string) act" where
  "getSenderAccountAddress N A I = getAccountAddress N A I"

text \<open>Both wait for the receipt of an operation by its hash; the listener they start is returned. Their
  confirmations and timeout do not show in it.\<close>

definition provider_getTransactionReceipt ::
  "node \<Rightarrow> account_params \<Rightarrow> ('z account_state_scheme) account_impl \<Rightarrow> string \<Rightarrow> ('z account_state_scheme, listener) act" where
  "provider_getTransactionReceipt N A I h =
     bindM (getSenderAccountAddress N A I) (\<lambda>a. retM (start_listener (new_listener h)))"

definition waitForTransaction ::
  "node \<Rightarrow> account_params \<Rightarrow> ('z account_state_scheme) account_impl \<Rightarrow> string \<Rightarrow> ('z account_state_scheme, listener) act" where
  "waitForTransaction N A I h = bindM (getSenderAccountAddress N A I) (\<lambda>a. retM (start_listener (new_listener h)))"

text \<open>The rest of \<^verbatim>\<open>wait\<close> of a response, once its listener has resolved to a receipt.\<close>

definition wait_resolved ::
  "node \<Rightarrow> account_params \<Rightarrow> ('z account_state_scheme) account_impl \<Rightarrow> operation \<Rightarrow> op_receipt \<Rightarrow> ('z account_state_scheme, op_receipt) act" where
  "wait_resolved N A I op receipt =
     thenM (if factory op \<noteq> None then bindM (checkAccountPhantom N A I) (\<lambda>_. retM ()) else retM ()) (retM receipt)"

definition signer_getAddress ::
  "node \<Rightarrow> account_params \<Rightarrow> provider_state account_impl \<Rightarrow> (provider_state, string) act" where
  "signer_getAddress N A I = lookM (\<lambda>s.
     case signer_address s of
       Some a \<Rightarrow> retM a
     | None \<Rightarrow> bindM (getSenderAccountAddress N A I) (\<lambda>a.
         thenM (modifyM (\<lambda>t. t\<lparr>signer_address := Some a\<rparr>)) (retM a)))"

definition signUserOperation :: "node \<Rightarrow> account_params \<Rightarrow> (string \<Rightarrow> string res) \<Rightarrow> operation \<Rightarrow> string res" where
  "signUserOperation N A signMessage op = bindE (base_getUserOpHash N A op) signMessage"

definition signer_connect :: "unit res" where
  "signer_connect = Inl (JsError ''changing providers is not supported'' None)"

definition signTransaction :: "string res" where
  "signTransaction = Inl (JsError ''not implemented'' None)"

section \<open>wrapProvider\<close>

record client_config =
  cc_entryPointAddress :: string
  cc_bundlerUrl :: string
  cc_walletAddress :: "string option"
  cc_paymasterAPI :: "(operation \<Rightarrow> paymaster_params option res) option"

record wrapped_provider =
  wp_account :: simple_params
  wp_chainId :: int
  wp_state :: provider_state

text \<open>The owner with its signing and the encoders of the contracts are those of \<open>P\<close>. The node is read
  after the factory has been deployed; \<open>node_of\<close> is the node in a state of the chain.\<close>

definition wrap_params :: "client_config \<Rightarrow> simple_params \<Rightarrow> string \<Rightarrow> simple_params" where
  "wrap_params cfg P factoryAddress =
     P\<lparr>sp_account := \<lparr>ap_entryPointAddress = cc_entryPointAddress cfg, ap_accountAddress = None, ap_paymasterAPI = cc_paymasterAPI cfg\<rparr>,
       sp_factoryAddress := Some factoryAddress, sp_index := 0\<rparr>"

definition wrapProvider ::
  "'s deploy_node \<Rightarrow> ('s \<Rightarrow> node) \<Rightarrow> ('s \<Rightarrow> int res) \<Rightarrow> ctr_code \<Rightarrow> client_config \<Rightarrow> simple_params \<Rightarrow> ('s, wrapped_provider) act" where
  "wrapProvider D node_of block_of factoryCode cfg P =
     bindM (deterministicDeploy D factoryCode ''0'' [JsStr (cc_entryPointAddress cfg)]) (\<lambda>factoryAddress.
     lookM (\<lambda>s.
       let N = node_of s; P' = wrap_params cfg P factoryAddress in
       bindM (liftE (nd_chainId N)) (\<lambda>chainId.
       case provider_init N (sp_account P') (simple_account N P') (block_of s) new_provider of
         (Inl e, _) \<Rightarrow> throwM e
       | (Inr _, st) \<Rightarrow> retM \<lparr>wp_account = P', wp_chainId = chainId, wp_state = st\<rparr>)))"

text \<open>The documented wallet address of the configuration is not used.\<close>

lemma wrapProvider_ignores_wallet:
  "wrapProvider D node_of block_of code (cfg\<lparr>cc_walletAddress := a\<rparr>) P = wrapProvider D node_of block_of code cfg P"
  by (simp add: wrapProvider_def wrap_params_def)

section \<open>The server understands the client\<close>

lemma hexlified_field:
  "deepHexlify_fields H fs = Inr gs \<Longrightarrow>
     (case obj_get fs k of None \<Rightarrow> obj_get gs k = None | Some v \<Rightarrow> \<exists>w. deepHexlify H v = Inr w \<and> obj_get gs k = Some w)"
proof (induction fs arbitrary: gs)
  case (Cons f fs)
  obtain k' v where f: "f = (k', v)" by fastforce
  obtain w hs where w: "deepHexlify H v = Inr w" "deepHexlify_fields H fs = Inr hs" "gs = (k', w) # hs"
    using Cons.prems f by (auto simp: bindE_Inr_iff)
  show ?case using Cons.IH [OF w(2)] w(1,3) f by (auto split: option.splits)
qed simp

lemma hexlified_text: "deepHexlify_fields H fs = Inr gs \<Longrightarrow> obj_get fs k = Some (JsStr t) \<Longrightarrow> js_field gs k = JsStr t"
  using hexlified_field [of H fs gs k] by (simp add: js_field_def or_else_def)

lemma hexlified_missing: "deepHexlify_fields H fs = Inr gs \<Longrightarrow> obj_get fs k = None \<Longrightarrow> js_field gs k = JsNull"
  using hexlified_field [of H fs gs k] by (simp add: js_field_def or_else_def)

text \<open>\<^verbatim>\<open>hexlify\<close> of a number is hex text, and so is what is left without its leading zero.\<close>

definition hexlify_law :: "hex_lib \<Rightarrow> bool" where
  "hexlify_law H \<longleftrightarrow> (\<forall>n h. hx_hexlify_int H n = Inr h \<longrightarrow> HEX_REGEX h)"

lemma strip_zero_hex: "HEX_REGEX s \<Longrightarrow> HEX_REGEX (strip_zero s)"
  by (auto simp: HEX_REGEX_def strip_zero_def startsWith_def toLowerCase_def lower_char_def list_all_iff dest: in_set_dropD
      dest!: set_drop_subset_set_drop [of 2 3, simplified, THEN subsetD])

lemma hexlified_number:
  assumes "deepHexlify_fields H fs = Inr gs" and "obj_get fs k = Some (JsNum n)" and "hexlify_law H"
  shows "\<exists>t. js_field gs k = JsStr t \<and> HEX_REGEX t"
  using hexlified_field [OF assms(1), of k] assms(2,3) strip_zero_hex
  by (auto simp: js_field_def or_else_def hexlify_law_def bindE_Inr_iff)

lemma with_paymaster_fields:
  assumes "with_paymaster A op = Inr op'" and "paymaster op = None" "paymasterPostOpGasLimit op = None"
    "paymasterVerificationGasLimit op = None" "paymasterData op = None"
  shows "(if paymaster op' = None then paymasterPostOpGasLimit op' = None \<and> paymasterVerificationGasLimit op' = None \<and> paymasterData op' = None
      else paymasterPostOpGasLimit op' \<noteq> None \<and> paymasterVerificationGasLimit op' \<noteq> None) \<and>
    factoryData op' = factoryData op \<and> factory op' = factory op \<and> callData op' = callData op \<and> eip7702Auth op' = eip7702Auth op \<and>
    authorizationList op' = authorizationList op"
  using assms by (auto simp: with_paymaster_def bindE_Inr_iff split: option.splits)

text \<open>What an operation of a simple account has, whatever the node answered.\<close>

definition complete_op :: "operation \<Rightarrow> bool" where
  "complete_op op \<longleftrightarrow> callData op \<noteq> None \<and> signature op \<noteq> None \<and> preVerificationGas op \<noteq> None \<and> eip7702Auth op = None \<and>
     (factory op = None \<longleftrightarrow> factoryData op = None) \<and>
     (if paymaster op = None then paymasterPostOpGasLimit op = None \<and> paymasterVerificationGasLimit op = None \<and> paymasterData op = None
      else paymasterPostOpGasLimit op \<noteq> None \<and> paymasterVerificationGasLimit op \<noteq> None)"

lemma simple_factory_complete:
  assumes "getRequiredFactoryData N A (simple_account N P) s = (Inr fp, t)"
  shows "fp = None \<longleftrightarrow> Option.bind fp fp_factoryData = None"
  using assms by (auto simp: getRequiredFactoryData_def simple_getFactoryData_def returns_iffs split: if_splits)

lemma created_complete:
  fixes s :: "'z simple_state_scheme"
  assumes "createSignedUserOp N A (simple_account N P) d s = (Inr op, t)"
  shows "complete_op op"
proof -
  obtain u sig where u: "createUnsignedUserOp N A (simple_account N P) d s = (Inr u, t)" and op: "op = (un_op u)\<lparr>signature := Some sig\<rparr>"
    using assms by (auto simp: createSigned_created signUserOp_parts)
  from u obtain fp op0 op1 and s1 s2 :: "'z simple_state_scheme" where fp: "getRequiredFactoryData N A (simple_account N P) s1 = (Inr fp, s2)"
    and pm: "with_paymaster A op0 = Inr op1" and un: "un_op u = op1\<lparr>preVerificationGas := Some 60000, signature := Some []\<rparr>"
    and op0: "factory op0 = map_option fp_factory fp" "factoryData op0 = Option.bind fp fp_factoryData" "callData op0 \<noteq> None"
      "eip7702Auth op0 = None" "paymaster op0 = None" "paymasterPostOpGasLimit op0 = None"
      "paymasterVerificationGasLimit op0 = None" "paymasterData op0 = None"
    unfolding createUnsignedUserOp_def Let_def case_prod_beta returns_iffs by (elim exE conjE) simp
  show ?thesis
    using with_paymaster_fields [OF pm op0(5-8)] op0 simple_factory_complete [OF fp] op un
    by (cases fp) (auto simp: complete_op_def split: if_splits)
qed

text \<open>The texts that come from outside, the node, the owner and the paymaster, have the shape of hex data
  and addresses.\<close>

definition texts_ok :: "operation \<Rightarrow> bool" where
  "texts_ok op \<longleftrightarrow> HEX_REGEX (sender op) \<and> HEX_REGEX (or_else (callData op) ''0x'') \<and> HEX_REGEX (or_else (signature op) ''0x'') \<and>
     (case factory op of None \<Rightarrow> True | Some a \<Rightarrow> matches_addr a) \<and> (case paymaster op of None \<Rightarrow> True | Some a \<Rightarrow> matches_addr a)"

lemma obj_get_opt: "obj_get (js_opt k v) k' = (if k = k' then v else None)"
  by (simp add: js_opt_def split: option.split)

lemma obj_get_append: "obj_get (xs @ ys) k = (case obj_get xs k of Some v \<Rightarrow> Some v | None \<Rightarrow> obj_get ys k)"
  by (simp add: map_add_def map_of_append split: option.split)

lemma client_fields_get:
  "obj_get (client_fields auth_js op) ''sender'' = Some (JsStr (sender op))"
  "obj_get (client_fields auth_js op) ''nonce'' = Some (JsNum (nonce op))"
  "obj_get (client_fields auth_js op) ''callGasLimit'' = Some (JsNum (callGasLimit op))"
  "obj_get (client_fields auth_js op) ''verificationGasLimit'' = Some (JsNum (verificationGasLimit op))"
  "obj_get (client_fields auth_js op) ''maxFeePerGas'' = Some (JsNum (maxFeePerGas op))"
  "obj_get (client_fields auth_js op) ''maxPriorityFeePerGas'' = Some (JsNum (maxPriorityFeePerGas op))"
  "obj_get (client_fields auth_js op) ''callData'' = map_option JsStr (callData op)"
  "obj_get (client_fields auth_js op) ''signature'' = map_option JsStr (signature op)"
  "obj_get (client_fields auth_js op) ''factory'' = map_option JsStr (factory op)"
  "obj_get (client_fields auth_js op) ''factoryData'' = map_option JsStr (factoryData op)"
  "obj_get (client_fields auth_js op) ''paymaster'' = map_option JsStr (paymaster op)"
  "obj_get (client_fields auth_js op) ''paymasterData'' = map_option JsStr (paymasterData op)"
  "obj_get (client_fields auth_js op) ''paymasterPostOpGasLimit'' = map_option JsNum (paymasterPostOpGasLimit op)"
  "obj_get (client_fields auth_js op) ''paymasterVerificationGasLimit'' = map_option JsNum (paymasterVerificationGasLimit op)"
  "obj_get (client_fields auth_js op) ''preVerificationGas'' = map_option JsNum (preVerificationGas op)"
  "obj_get (client_fields auth_js op) ''eip7702Auth'' = map_option auth_js (eip7702Auth op)"
  by (simp_all only: client_fields_def obj_get_append obj_get_opt map_of.simps map_of_eq_None_iff prod.case fst_conv snd_conv fun_upd_def
      option.case if_True if_False simp_thms list.inject char.inject list.distinct) (simp_all split: option.split)

lemma client_request_ok:
  assumes "complete_op op" and "texts_ok op" and "hexlify_law H"
    and gs: "deepHexlify_fields H (client_fields auth_js op) = Inr gs"
  shows "fields_ok True True gs" and "js_field gs ''eip7702Auth'' = JsNull"
proof -
  note get = client_fields_get [of auth_js op]
  note str = hexlified_text [OF gs] and missing = hexlified_missing [OF gs] and number = hexlified_number [OF gs _ assms(3)]
  have numbers: "hex_field gs k"
    if "k \<in> {''nonce'', ''callGasLimit'', ''verificationGasLimit'', ''maxFeePerGas'', ''maxPriorityFeePerGas'', ''preVerificationGas''}" for k
  proof -
    have "\<exists>n. obj_get (client_fields auth_js op) k = Some (JsNum n)"
      using that assms(1) by (auto simp: get complete_op_def)
    then show ?thesis using number [of k] by (auto simp: hex_field_def)
  qed
  have texts: "hex_field gs k" if "k \<in> {''sender'', ''callData'', ''signature''}" for k
    using that assms(1,2) str [of k] by (auto simp: get complete_op_def texts_ok_def hex_field_def or_else_def)
  have "\<forall>k\<in>set (handler_fields True True). hex_field gs k"
    using numbers texts by (auto simp: handler_fields_def)
  moreover have "entity_fields_ok gs ''factory'' [''factoryData''] []"
    using assms(1,2) str [of "''factory''"] str [of "''factoryData''"] missing [of "''factory''"] missing [of "''factoryData''"]
    by (auto simp: get complete_op_def texts_ok_def entity_fields_ok_def split: option.splits)
  moreover have "entity_fields_ok gs ''paymaster'' [''paymasterPostOpGasLimit'', ''paymasterVerificationGasLimit''] [''paymasterData'']"
  proof (cases "paymaster op")
    case None
    then show ?thesis
      using assms(1) missing by (auto simp: get complete_op_def entity_fields_ok_def)
  next
    case (Some a)
    then show ?thesis
      using assms(1,2) str [of "''paymaster''"] number [of "''paymasterPostOpGasLimit''"] number [of "''paymasterVerificationGasLimit''"]
      by (auto simp: get complete_op_def texts_ok_def entity_fields_ok_def)
  qed
  ultimately show "fields_ok True True gs" by (simp add: fields_ok_def)
  show "js_field gs ''eip7702Auth'' = JsNull" using missing assms(1) by (simp add: get complete_op_def)
qed

text \<open>C15: client and server fit together: when a client makes an operation of a simple account and
  sends it, with or without a factory and a paymaster, the request passes every check of shape that
  the method handler makes, and the server passes the operation on to its execution manager, in
  unchanged state.\<close>

theorem client_request_reaches_manager:
  assumes "createSignedUserOp N A (simple_account N P) d s = (Inr op, t)" and "texts_ok op" and "hexlify_law (nd_hex N)"
    and "toLowerCase (ap_entryPointAddress A) = toLowerCase (cfg_entryPoint R)"
    and "sendUserOpToBundler (nd_hex N) auth_js (ap_entryPointAddress A) (Inr ()) wire op w = (Inr answer, w')"
  shows "\<exists>fs. wire ''eth_sendUserOperation'' [JsObj fs, JsStr (ap_entryPointAddress A)] w = (Inr answer, w') \<and>
    rpc_sendUserOperation R ec bm vm bal (JsObj fs) (JsStr (ap_entryPointAddress A)) st =
      thenM (sendUserOperation ec bm vm bal (rpc_op R fs) (ap_entryPointAddress A) False)
        (liftE (callGetUserOpHashWithCode R (rpc_op R fs))) st"
proof -
  obtain gs where gs: "deepHexlify_fields (nd_hex N) (client_fields auth_js op) = Inr gs"
    and wire: "wire ''eth_sendUserOperation'' [JsObj gs, JsStr (ap_entryPointAddress A)] w = (Inr answer, w')"
    using assms(5) by (auto simp: sendUserOpToBundler_def send_hexlified_def returns_iffs bindE_Inr_iff)
  note ok = client_request_ok [OF created_complete [OF assms(1)] assms(2,3) gs]
  have "check_7702_support R (JsObj gs) = Inr ()" using ok(2) by (simp add: check_7702_support_def js_props_def)
  moreover have "validateParameters R (JsObj gs) (JsStr (ap_entryPointAddress A)) True True = Inr ()"
    using ok(1) assms(4) by (simp add: validateParameters_Inr_iff js_props_def)
  ultimately have "rpc_sendUserOperation R ec bm vm bal (JsObj gs) (JsStr (ap_entryPointAddress A)) st =
      thenM (sendUserOperation ec bm vm bal (rpc_op R gs) (ap_entryPointAddress A) False)
        (liftE (callGetUserOpHashWithCode R (rpc_op R gs))) st"
    by (simp add: rpc_sendUserOperation_def js_props_def Let_def thenM_def bindM_def [of "liftE _"] liftE_def [of "Inr _"])
  then show ?thesis using wire by blast
qed

section \<open>An account is deployed once\<close>

context account_api
begin

lemma keep_deployed_check: "keeps (\<lambda>s. \<not> isPhantom s) (checkAccountPhantom N A I)"
  unfolding checkAccountPhantom_def by (auto intro!: keeps_intros keep_deployed_base)

lemma keep_deployed_encode: "keeps (\<lambda>s. \<not> isPhantom s) (encodeUserOpCallDataAndGasLimit N A I d)"
  unfolding encodeUserOpCallDataAndGasLimit_def
  by (auto intro!: keeps_intros keep_deployed keep_deployed_base split: option.split)

lemma keep_deployed_create:
  "keeps (\<lambda>s. \<not> isPhantom s) (createUnsignedUserOp N A I d)" "keeps (\<lambda>s. \<not> isPhantom s) (init_account N A I)"
  unfolding createUnsignedUserOp_def init_account_def getRequiredFactoryData_def Let_def
  by (auto intro!: keeps_intros keep_deployed keep_deployed_base keep_deployed_check keep_deployed_encode split: option.split)

lemma created_deployed:
  assumes "createUnsignedUserOp N A I d s = (Inr u, t)" and "\<not> isPhantom s"
  shows "factory (un_op u) = None"
proof -
  obtain s1 x fp s2 where e: "encodeUserOpCallDataAndGasLimit N A I d s = (Inr x, s1)"
    and g: "getRequiredFactoryData N A I s1 = (Inr fp, s2)" and f: "factory (un_op u) = map_option fp_factory fp"
    using assms(1) unfolding createUnsignedUserOp_def Let_def case_prod_beta returns_iffs
    by (elim exE conjE) (auto dest!: with_paymaster_frame)
  have "\<not> isPhantom s1" using keepsD [OF keep_deployed_encode assms(2), of N A d] e by simp
  then have "fp = None" using g by (simp add: getRequiredFactoryData_def checkAccountPhantom_def monad_simps)
  then show ?thesis using f by simp
qed

end

lemma client_keeps:
  assumes "(client_step P)\<^sup>*\<^sup>* s t"
  shows "senderAddress s = Some a \<Longrightarrow> senderAddress t = Some a" and "\<not> isPhantom s \<Longrightarrow> \<not> isPhantom t"
proof -
  have "(senderAddress u = Some a \<longrightarrow> senderAddress v = Some a) \<and> (\<not> isPhantom u \<longrightarrow> \<not> isPhantom v)" if "client_step P u v" for u v
    using that
    by (induction rule: client_step.induct)
       (auto dest: keepsD [OF simple.keep_address_base(1)] keepsD [OF simple.keep_address_base(2)]
          keepsD [OF simple.keep_address_base(5)] keepsD [OF simple.keep_address_create]
          keepsD [OF simple.keep_deployed_base] keepsD [OF simple.keep_deployed_check] keepsD [OF simple.keep_deployed_create(1)]
          keepsD [OF simple.keep_deployed_create(2)])
  note step = this
  from assms have "(senderAddress s = Some a \<longrightarrow> senderAddress t = Some a) \<and> (\<not> isPhantom s \<longrightarrow> \<not> isPhantom t)"
    by (induction rule: rtranclp_induct) (use step in blast)+
  then show "senderAddress s = Some a \<Longrightarrow> senderAddress t = Some a" "\<not> isPhantom s \<Longrightarrow> \<not> isPhantom t" by blast+
qed

text \<open>C22: an account is deployed once: after \<^verbatim>\<open>wait\<close> of an operation that deploys its account has
  seen code at its sender, no later operation of that account object carries a factory again, and
  all have the sender that was deployed, whatever is called in between and whatever the node
  answers then.\<close>

theorem account_deployed_once:
  fixes s :: simple_state
  assumes "createSignedUserOp N1 (sp_account P) (simple_account N1 P) d1 s = (Inr op1, s1)" and "factory op1 \<noteq> None"
    and "(client_step P)\<^sup>*\<^sup>* s1 s2" and "wait_resolved N2 (sp_account P) (simple_account N2 P) op1 r s2 = (Inr r', s3)"
    and "nd_getCode N2 (sender op1) = Inr code" and "2 < length code" and "(client_step P)\<^sup>*\<^sup>* s3 s4"
    and "createSignedUserOp N3 (sp_account P) (simple_account N3 P) d2 s4 = (Inr op2, s5)"
  shows "factory op2 = None \<and> sender op2 = sender op1"
proof -
  have "senderAddress s1 = Some (sender op1)"
    using assms(1) simple.created_sender by (auto simp: createSigned_created signUserOp_parts)
  then have s2: "senderAddress s2 = Some (sender op1)" using client_keeps(1) [OF assms(3)] by blast
  have "\<not> isPhantom s3 \<and> senderAddress s3 = Some (sender op1)"
    using assms(2,4,5,6) s2
    by (auto simp: wait_resolved_def returns_iffs checkAccountPhantom_def getAccountAddress_def monad_simps split: if_splits)
  then have s4: "\<not> isPhantom s4" "senderAddress s4 = Some (sender op1)"
    using client_keeps [OF assms(7)] by blast+
  obtain u where u: "createUnsignedUserOp N3 (sp_account P) (simple_account N3 P) d2 s4 = (Inr u, s5)"
      "factory op2 = factory (un_op u)" "sender op2 = sender (un_op u)"
    using assms(8) by (auto simp: createSigned_created signUserOp_parts)
  have "senderAddress s5 = Some (sender op1)"
    using keepsD [OF simple.keep_address_create s4(2), of N3 "sp_account P" N3 P d2] u(1) by simp
  then show ?thesis
    using simple.created_deployed [OF u(1) s4(1)] simple.created_sender [OF u(1)] u(2,3) by simp
qed

section \<open>Examples\<close>

lemma hex_char_digit: "0 \<le> n \<Longrightarrow> n < 16 \<Longrightarrow> hex_char (hex_digit n)"
proof -
  assume "0 \<le> n" "n < 16"
  then have "n \<in> set [0..15]" by auto
  moreover have "list_all (\<lambda>n. hex_char (hex_digit n)) [0..15]" by code_simp
  ultimately show ?thesis by (simp add: list_all_iff)
qed

lemma hex_of_regex: "HEX_REGEX (hex_of k n)"
proof -
  have "list_all hex_char (hex_digits j n)" for j n by (induction j arbitrary: n) (simp_all add: hex_char_digit)
  then show ?thesis by (simp add: HEX_REGEX_def hex_of_def toLowerCase_def lower_char_def)
qed

lemma client_lib_hexlify: "hexlify_law client_lib"
  by (auto simp: hexlify_law_def client_lib_def plain_hex_def hex_of_regex)

definition factory_example :: simple_params where
  "factory_example = simple_example\<lparr>sp_factoryAddress := Some ''0x00000000fa''\<rparr>"

abbreviation deploying_example where
  "deploying_example s \<equiv> createSignedUserOp node_example (sp_account factory_example) (simple_account node_example factory_example)
     details_example (s :: simple_state)"

lemma deploying_example_value:
  "map_sum (\<lambda>e. ()) (\<lambda>op. (sender op, factory op, callData op, signature op, paymaster op,
      isl (deepHexlify_fields client_lib (client_fields (\<lambda>a. JsNull) op)))) (fst (deploying_example new_simple_account)) =
    Inr (''0xaa'', Some ''0x00000000fa'', Some ''0x03'', Some ''0x5151'', None, False)"
  by code_simp

lemma deploying_example_runs:
  obtains op t gs where "deploying_example new_simple_account = (Inr op, t)" and "factory op = Some ''0x00000000fa''" and "sender op = ''0xaa''"
    and "texts_ok op" and "deepHexlify_fields client_lib (client_fields (\<lambda>a. JsNull) op) = Inr gs"
proof -
  obtain x t where x: "deploying_example new_simple_account = (x, t)" by fastforce
  with deploying_example_value obtain op where op: "x = Inr op" "sender op = ''0xaa''" "factory op = Some ''0x00000000fa''"
    "callData op = Some ''0x03''" "signature op = Some ''0x5151''" "paymaster op = None"
    and d: "\<not> isl (deepHexlify_fields client_lib (client_fields (\<lambda>a. JsNull) op))"
    by (cases x) auto
  have "HEX_REGEX ''0xaa'' \<and> HEX_REGEX ''0x03'' \<and> HEX_REGEX ''0x5151'' \<and> matches_addr ''0x00000000fa''" by code_simp
  then have "texts_ok op" by (simp add: texts_ok_def op or_else_def)
  moreover obtain gs where "deepHexlify_fields client_lib (client_fields (\<lambda>a. JsNull) op) = Inr gs"
    using d by (cases "deepHexlify_fields client_lib (client_fields (\<lambda>a. JsNull) op)") auto
  ultimately show thesis using that x op by simp
qed

lemma client_request_reaches_manager_witness:
  "\<exists>op t fs. deploying_example new_simple_account = (Inr op, t) \<and>
     rpc_sendUserOperation rpc_example exec_config_example (bm_ERC4337 env_example cfg_example (Inr 5) (\<lambda>n. Inr [])) vm_example
       (\<lambda>a. Inr 0) (JsObj fs) (JsStr ''0xee'') exec_example =
     thenM (sendUserOperation exec_config_example (bm_ERC4337 env_example cfg_example (Inr 5) (\<lambda>n. Inr [])) vm_example
         (\<lambda>a. Inr 0) packable_example ''0xee'' False)
       (liftE (callGetUserOpHashWithCode rpc_example packable_example)) exec_example"
proof -
  obtain op t gs where op: "deploying_example new_simple_account = (Inr op, t)" "texts_ok op"
    and gs: "deepHexlify_fields client_lib (client_fields (\<lambda>a. JsNull) op) = Inr gs" using deploying_example_runs .
  have h: "nd_hex node_example = client_lib" "ap_entryPointAddress (sp_account factory_example) = ''0xee''"
    by (simp_all add: node_example_def factory_example_def simple_example_def)
  have ep: "toLowerCase (ap_entryPointAddress (sp_account factory_example)) = toLowerCase (cfg_entryPoint rpc_example)"
    unfolding h by (simp add: rpc_example_def) code_simp
  have law: "hexlify_law (nd_hex node_example)" by (simp add: h client_lib_hexlify)
  have sent: "sendUserOpToBundler (nd_hex node_example) (\<lambda>a. JsNull) (ap_entryPointAddress (sp_account factory_example)) (Inr ())
      (\<lambda>m ps. retM (JsStr ''0x77'')) op () = (Inr (JsStr ''0x77''), ())"
    by (simp add: sendUserOpToBundler_def send_hexlified_def h gs monad_simps)
  have r: "rpc_op rpc_example fs = packable_example" for fs by (simp add: rpc_example_def)
  note reached = client_request_reaches_manager [OF op law ep sent, of exec_config_example
      "bm_ERC4337 env_example cfg_example (Inr 5) (\<lambda>n. Inr [])" vm_example "\<lambda>a. Inr 0" exec_example]
  then show ?thesis using op(1) unfolding h r by blast
qed

lemma deployed_example_value:
  "(case deploying_example new_simple_account of (r, t) \<Rightarrow>
      (senderAddress t, isPhantom t, isl (fst (deploying_example (t\<lparr>isPhantom := False\<rparr>))))) = (Some ''0xaa'', True, False)"
  by code_simp

lemma account_deployed_once_witness:
  "\<exists>op1 op2 t u. deploying_example new_simple_account = (Inr op1, t) \<and> factory op1 = Some ''0x00000000fa'' \<and>
     deploying_example (t\<lparr>isPhantom := False\<rparr>) = (Inr op2, u) \<and> factory op2 = None"
proof -
  let ?N = "node_example\<lparr>nd_getCode := (\<lambda>a. Inr ''0x6001'')\<rparr>" and ?A = "sp_account factory_example"
  let ?r = "\<lparr>rc_transactionHash = ''0x77'', rc_status = 1, rc_blockHash = ''0xbb''\<rparr>"
  obtain op t where op: "deploying_example new_simple_account = (Inr op, t)" "factory op = Some ''0x00000000fa''" "sender op = ''0xaa''"
    using deploying_example_runs .
  then have t: "senderAddress t = Some ''0xaa''" "isPhantom t" and again: "\<not> isl (fst (deploying_example (t\<lparr>isPhantom := False\<rparr>)))"
    using deployed_example_value by auto
  obtain op2 u where op2: "deploying_example (t\<lparr>isPhantom := False\<rparr>) = (Inr op2, u)"
    using again by (cases "deploying_example (t\<lparr>isPhantom := False\<rparr>)"; cases "fst (deploying_example (t\<lparr>isPhantom := False\<rparr>))") auto
  have "wait_resolved ?N ?A (simple_account ?N factory_example) op ?r t = (Inr ?r, t\<lparr>isPhantom := False\<rparr>)"
    using op(2) t by (simp add: wait_resolved_def checkAccountPhantom_def getAccountAddress_def monad_simps)
  from account_deployed_once [OF op(1) _ rtranclp.rtrancl_refl this _ _ rtranclp.rtrancl_refl op2] op op2
  show ?thesis by auto
qed

end
