(* ===== verification/Runner.thy ===== *)
theory Runner
  imports ClientProvider
begin

text \<open>
  \<^verbatim>\<open>packages/bundler/src/runner/runop.ts\<close>: a script that makes an account, funds it and sends two
  operations from it. It puts the parts of the client together: the deployer of the factory, the
  account API, the connection to the bundler and the poll for the receipt. The state is that of the
  chain (with the bundler behind it) and that of the account object. Printing is left out;
  \<^verbatim>\<open>process.exit(1)\<close> is an error with the message printed before.
\<close>

section \<open>Environment\<close>

datatype runner_signer = NodeSigner | WalletSigner string
  \<comment> \<open>the first account of the node, or a wallet from a mnemonic\<close>

record 's runner_env =
  re_deployer :: "'s deploy_node"
  re_deployerOf :: "runner_signer \<Rightarrow> 's deploy_node"
  re_factoryCode :: ctr_code
  re_node :: "'s \<Rightarrow> node"
  re_balance :: "'s \<Rightarrow> string \<Rightarrow> int res"
  re_signerBalance :: "'s \<Rightarrow> int res"
  re_gasPrice :: "'s \<Rightarrow> int res"
  re_accounts :: "'s \<Rightarrow> string list res"
  re_wallet :: "string \<Rightarrow> string res"
    \<comment> \<open>the wallet of a mnemonic file\<close>
  re_pay :: "runner_signer \<Rightarrow> string \<Rightarrow> int \<Rightarrow> ('s, unit) act"
  re_rpc :: "string \<Rightarrow> js_value list \<Rightarrow> ('s, js_value) act"
  re_bundlerChain :: "'s \<Rightarrow> string res"
  re_polls :: "'s \<Rightarrow> string \<Rightarrow> int \<times> (nat \<Rightarrow> int) \<times> (nat \<Rightarrow> string list res)"
    \<comment> \<open>for a hash: the time, the readings of the clock and the answers of the polls from there on\<close>
  re_owner :: "string \<Rightarrow> simple_params"
    \<comment> \<open>signing with a private key, and the encoders of the contracts\<close>
  re_auth_js :: "authorization \<Rightarrow> js_value"
  re_now :: int
  re_startBundler :: "js_value obj \<Rightarrow> unit res"
    \<comment> \<open>a bundler in the same process, see \<open>self_bundler\<close>\<close>

record runner =
  ru_account :: simple_params
  ru_chainId :: int
  ru_initializing :: "unit res"
    \<comment> \<open>the promise of the bundler connection\<close>

record run_opts =
  ro_mnemonic :: "string option"
  ro_bundlerUrl :: string
  ro_entryPoint :: string
  ro_nonce :: "int option"
  ro_deployFactory :: bool
  ro_selfBundler :: bool

definition on_chain :: "('s, 'a) act \<Rightarrow> ('s \<times> 'z, 'a) act" where
  "on_chain m = (\<lambda>(c, a). case m c of (r, c') \<Rightarrow> (r, (c', a)))"

definition on_account :: "('s \<Rightarrow> ('z, 'a) act) \<Rightarrow> ('s \<times> 'z, 'a) act" where
  "on_account f = (\<lambda>(c, a). case f c a of (r, a') \<Rightarrow> (r, (c, a')))"

section \<open>Runner\<close>

definition ENTRY_POINT :: string where
  "ENTRY_POINT = ''0x4337084D9E255Ff0702461CF8895CE9E3b5Ff108''"

definition runner_init :: "'s runner_env \<Rightarrow> string \<Rightarrow> string \<Rightarrow> string \<Rightarrow> int \<Rightarrow> runner_signer option \<Rightarrow> ('s, runner) act" where
  "runner_init E bundlerUrl ownerKey ep index deploymentSigner = lookM (\<lambda>s.
     bindM (liftE (nd_chainId (re_node E s))) (\<lambda>chainId.
     bindM (liftE (getDeterministicDeployAddress (re_deployer E) (re_factoryCode E) ''0'' [JsStr ep])) (\<lambda>accountDeployer.
     bindM (isContractDeployed (re_deployer E) accountDeployer) (\<lambda>deployed.
     thenM (if deployed then retM ()
            else case deploymentSigner of
                None \<Rightarrow> throwM (JsError (''AccountDeployer not deployed at '' @ accountDeployer @ ''. run with --deployFactory'') None)
              | Some sg \<Rightarrow> bindM (deterministicDeploy (re_deployerOf E sg) (re_factoryCode E) ''0'' [JsStr ep]) (\<lambda>_. retM ()))
     (getM (\<lambda>t. \<lparr>ru_account = (re_owner E ownerKey)\<lparr>
           sp_account := \<lparr>ap_entryPointAddress = ep, ap_accountAddress = None, ap_paymasterAPI = None\<rparr>,
           sp_factoryAddress := Some accountDeployer, sp_index := index\<rparr>,
         ru_chainId = chainId,
         ru_initializing = validateChainId bundlerUrl chainId (\<lambda>c. case parseInt None c of None \<Rightarrow> ''NaN'' | Some n \<Rightarrow> show_int n)
           (re_bundlerChain E t)\<rparr>))))))"

definition runner_getAddress :: "'s runner_env \<Rightarrow> runner \<Rightarrow> ('s \<times> simple_state, string) act" where
  "runner_getAddress E ru =
     on_account (\<lambda>c. getCounterFactualAddress (re_node E c) (simple_account (re_node E c) (ru_account ru)))"

text \<open>\<^verbatim>\<open>/paid (\d+) expected (\d+)/\<close>\<close>

fun match_paid :: "string \<Rightarrow> (string \<times> string) option" where
  "match_paid [] = None"
| "match_paid (c # s) =
     (let after = drop 5 (c # s); paid = takeWhile digit_char after; rest = dropWhile digit_char after;
          expected = takeWhile digit_char (drop 10 rest)
      in if startsWith (c # s) ''paid '' \<and> paid \<noteq> [] \<and> startsWith rest '' expected '' \<and> expected \<noteq> []
         then Some (paid, expected) else match_paid s)"

text \<open>
  The quotient of two positive doubles: its significand of 53 bits and the scale \<open>2 ^ k\<close> by which it
  is to be divided. The numerator is shifted so far that the quotient has more than 54 bits, and a
  remainder counts as one more bit, so that the rounding is that of the exact quotient.
\<close>

definition quotient53 :: "int \<Rightarrow> int \<Rightarrow> int \<times> nat" where
  "quotient53 p q =
     (let k = 110 + exp53 q; n = p * 2 ^ k in
      (round53 (2 * (n div q) + (if n mod q = 0 then 0 else 1)), Suc k))"

text \<open>\<^verbatim>\<open>Math.floor(parseInt(text) / 1e9)\<close>, and \<^verbatim>\<open>Math.floor(paid / expected * 100)\<close> as it prints.\<close>

definition to_gwei :: "string \<Rightarrow> int" where
  "to_gwei ds = (let (m, k) = quotient53 (round53 (radix_value 10 ds)) (10 ^ 9) in m div 2 ^ k)"

definition percent_text :: "int \<Rightarrow> int \<Rightarrow> string" where
  "percent_text paid expected =
     (if expected = 0 then (if paid = 0 then ''NaN'' else ''Infinity'')
      else let (m, k) = quotient53 paid expected in show_int (round53 (m * 100) div 2 ^ k))"

definition parseExpectedGas :: "js_error \<Rightarrow> js_error" where
  "parseExpectedGas e =
     (case match_paid (err_message e) of
        None \<Rightarrow> e
      | Some (p, q) \<Rightarrow>
          (let paid = to_gwei p; expected = to_gwei q in
           JsError (''Error: Paid '' @ show_int paid @ '', expected '' @ show_int expected @ '' . Paid '' @
             percent_text paid expected @ ''%, missing '' @ show_int (expected - paid) @ '' '') None))"

definition run_details :: "string \<Rightarrow> string \<Rightarrow> tx_details" where
  "run_details target data = \<lparr>td_target = target, td_callData = data, td_callValue = None, td_callGas = None,
     td_feePerGas = None, td_priorityFeePerGas = None, td_opNonce = None\<rparr>"

text \<open>The poll has the default timeout of 30 and the interval of 5 seconds, so 7 readings of the clock
  are enough.\<close>

definition await_receipt :: "'s runner_env \<Rightarrow> string \<Rightarrow> ('s, string option) act" where
  "await_receipt E h = lookM (\<lambda>s.
     case re_polls E s h of (now, clock, polled) \<Rightarrow>
       liftE (or_else (getUserOpReceipt 7 now 30000 clock polled) (Inr None)))"

definition runUserOp ::
  "'s runner_env \<Rightarrow> runner \<Rightarrow> string \<Rightarrow> string \<Rightarrow> ('s \<times> simple_state, string \<times> string option) act" where
  "runUserOp E ru target data =
     (let P = ru_account ru; A = sp_account P in
      bindM (on_account (\<lambda>c. createSignedUserOp (re_node E c) A (simple_account (re_node E c) P) (run_details target data))) (\<lambda>op.
        catchM
          (bindM (on_chain (lookM (\<lambda>c. sendUserOpToBundler (nd_hex (re_node E c)) (re_auth_js E) (ap_entryPointAddress A)
              (ru_initializing ru) (re_rpc E) op))) (\<lambda>h.
           bindM (on_chain (await_receipt E (js_text h))) (\<lambda>txid. retM (js_text h, txid))))
          (\<lambda>e. throwM (parseExpectedGas e))))"

section \<open>The script\<close>

text \<open>The bundler in the same process: \<^verbatim>\<open>runBundler\<close> with the options of its \<open>argv\<close>, and the check
  that \<^verbatim>\<open>asyncStart\<close> makes.\<close>

definition self_bundler_opts :: "string \<Rightarrow> js_value obj" where
  "self_bundler_opts ep = [(''config'', JsStr ''./localconfig/bundler.config.json''), (''unsafe'', JsBool True), (''auto'', JsBool True),
     (''entryPoint'', JsStr ep)]"

definition self_bundler ::
  "node_features \<Rightarrow> ethers_lib \<Rightarrow> string res \<Rightarrow> (string \<Rightarrow> nat \<Rightarrow> bool res) \<Rightarrow> js_value obj option res \<Rightarrow> (string \<Rightarrow> string res) \<Rightarrow>
     (js_error \<Rightarrow> string) \<Rightarrow> js_value obj \<Rightarrow> unit res" where
  "self_bundler N L send_wei seen config_file readMnemonic reason opts =
     bindE (runBundler N L send_wei seen config_file readMnemonic opts) (\<lambda>st. preflightCheck N reason (st_config st))"

definition one_ether :: int where
  "one_ether = 10 ^ 18"

definition hardhat_account :: string where
  "hardhat_account = ''0xf39Fd6e51aad88F6F4ce6aB8827279cffFb92266''"

definition start_self_bundler :: "'s runner_env \<Rightarrow> run_opts \<Rightarrow> ('s, unit) act" where
  "start_self_bundler E opts = lookM (\<lambda>s.
     bindM (liftE (re_signerBalance E s)) (\<lambda>signerBalance.
     bindM (liftE (re_balance E s hardhat_account)) (\<lambda>bal.
     thenM (if bal < one_ether \<and> signerBalance \<ge> 10000 * one_ether
            then re_pay E NodeSigner hardhat_account (one_ether - bal) else retM ())
     (liftE (re_startBundler E (self_bundler_opts (ro_entryPoint opts)))))))"

text \<open>The signer, and whether the factory is to be deployed.\<close>

definition choose_signer :: "'s runner_env \<Rightarrow> run_opts \<Rightarrow> ('s, runner_signer \<times> bool) act" where
  "choose_signer E opts =
     (case ro_mnemonic opts of
        Some f \<Rightarrow> bindM (liftE (re_wallet E f)) (\<lambda>w. retM (WalletSigner w, ro_deployFactory opts))
      | None \<Rightarrow> lookM (\<lambda>s.
          case re_accounts E s of
            Inl e \<Rightarrow> throwM (JsError ''must specify --mnemonic'' None)
          | Inr [] \<Rightarrow> throwM (JsError ''fatal: no account. use --mnemonic (needed to fund account)'' None)
          | Inr (a # as) \<Rightarrow> (case nd_chainId (re_node E s) of
                Inl e \<Rightarrow> throwM (JsError ''must specify --mnemonic'' None)
              | Inr n \<Rightarrow> retM (NodeSigner, ro_deployFactory opts \<or> is_test_chain n))))"

definition fund_account :: "'s runner_env \<Rightarrow> runner_signer \<Rightarrow> string \<Rightarrow> ('s, unit) act" where
  "fund_account E sg a = lookM (\<lambda>s.
     bindM (liftE (re_balance E s a)) (\<lambda>bal.
     bindM (liftE (nd_getCode (re_node E s) a)) (\<lambda>code.
     bindM (liftE (re_gasPrice E s)) (\<lambda>gasPrice'.
     let requiredBalance = gasPrice' * 4000000 in
     if bal < requiredBalance div 2 then re_pay E sg a (requiredBalance - bal) else retM ()))))"

definition run_main :: "'s runner_env \<Rightarrow> run_opts \<Rightarrow> ('s \<times> simple_state, (string \<times> string option) list) act" where
  "run_main E opts =
     thenM (on_chain (if ro_selfBundler opts then start_self_bundler E opts else retM ()))
     (bindM (on_chain (choose_signer E opts)) (\<lambda>(sg, deployFactory).
      bindM (on_chain (runner_init E (ro_bundlerUrl opts) (''0x'' @ replicate 64 CHR ''7'') (ro_entryPoint opts)
          (or_else (ro_nonce opts) (re_now E)) (if deployFactory then Some sg else None))) (\<lambda>ru.
      bindM (runner_getAddress E ru) (\<lambda>a.
      thenM (on_chain (fund_account E sg a))
      (bindM (getM (\<lambda>(c, _). take 10 (hx_keccak_text (nd_hex (re_node E c)) ''entryPoint()''))) (\<lambda>data.
       bindM (runUserOp E ru a data) (\<lambda>r1.
       bindM (runUserOp E ru a data) (\<lambda>r2. retM [r1, r2]))))))))"

section \<open>Lemmas\<close>

text \<open>After funding, the account has at least half of the balance that is estimated for a run.\<close>

lemma funded_enough:
  assumes "fund_account E sg a c = (Inr (), c')" and "re_gasPrice E c = Inr g" and "0 \<le> g"
    and pay: "\<And>v s s'. re_pay E sg a v s = (Inr (), s') \<Longrightarrow> re_balance E s' a = map_sum id ((+) v) (re_balance E s a)"
  shows "\<exists>b. re_balance E c' a = Inr b \<and> g * 4000000 div 2 \<le> b"
proof -
  obtain b where b: "re_balance E c a = Inr b"
    and m: "(if b < g * 4000000 div 2 then re_pay E sg a (g * 4000000 - b) else retM ()) c = (Inr (), c')"
    using assms(1,2) by (auto simp: fund_account_def returns_iffs Let_def)
  show ?thesis
  proof (cases "b < g * 4000000 div 2")
    case True
    then have "re_pay E sg a (g * 4000000 - b) c = (Inr (), c')" using m by simp
    from pay [OF this] b True assms(3) show ?thesis by auto
  next
    case False
    then show ?thesis using m b by (auto simp: retM_def)
  qed
qed

text \<open>An error without the hint is passed on as it is; the figures of the hint are whole gwei, and the
  percentage is that of doubles: 29 of 100 are 28 per cent.\<close>

lemma other_error_unchanged: "match_paid (err_message e) = None \<Longrightarrow> parseExpectedGas e = e"
  by (simp add: parseExpectedGas_def)

lemma expected_gas_example:
  "parseExpectedGas (RpcError ''AA: paid 29000000000 expected 100000000000!'' 5 []) =
     JsError ''Error: Paid 29, expected 100 . Paid 28%, missing 71 '' None"
  by code_simp

text \<open>The account is funded before the first operation is made, and both operations are made one
  after the other: the second only once the first has been answered.\<close>

lemma second_run_needs_first:
  assumes "run_main E opts s = (Inr rs, t)"
  obtains r1 r2 ru a data u v where "rs = [r1, r2]" and "runUserOp E ru a data u = (Inr r1, v)" and "runUserOp E ru a data v = (Inr r2, t)"
  using assms by (auto simp: run_main_def returns_iffs)

end
