(* ===== verification/GethTracer.thy ===== *)
theory GethTracer
  imports StartUp
begin

text \<open>
  \<^verbatim>\<open>packages/validation-manager/src/GethTracer.ts\<close>: how a call or a transaction is traced by the
  node, with which tracer, and how the source of a tracer is cut out of a function; and the rest of
  \<^verbatim>\<open>decodeHelper.ts\<close>: the methods it knows and the dump of a call tree. The text of a JavaScript
  function is a string here.
\<close>

section \<open>The text of a tracer\<close>

definition is_space :: "char \<Rightarrow> bool" where
  "is_space c \<longleftrightarrow> c \<in> {CHR '' '', CHR 0x09, CHR 0x0A, CHR 0x0B, CHR 0x0C, CHR 0x0D}"

definition skip_ws :: "string \<Rightarrow> string" where
  "skip_ws s = dropWhile is_space s"

definition expect :: "string \<Rightarrow> string \<Rightarrow> string option" where
  "expect p s = (if startsWith s p then Some (drop (length p) s) else None)"

text \<open>
  \<^verbatim>\<open>/function \w+\s*\(\s*\)\s*{\s*return\s*(\{[\s\S]+\});?\s*\}\s*$/\<close>. The front is matched from the
  left, up to the brace that opens the group. The group is greedy and the pattern ends at the end of
  the text, so its back is matched from the right: white space, a brace, white space, possibly a
  semicolon, and then the brace that closes the group.
\<close>

definition tracer_front :: "string \<Rightarrow> string option" where
  "tracer_front s =
     Option.bind (expect ''function '' s) (\<lambda>s1.
     let s2 = dropWhile word_char s1 in
     if s2 = s1 then None
     else Option.bind (expect ''('' (skip_ws s2)) (\<lambda>s3.
          Option.bind (expect '')'' (skip_ws s3)) (\<lambda>s4.
          Option.bind (expect ''{'' (skip_ws s4)) (\<lambda>s5.
          Option.bind (expect ''return'' (skip_ws s5)) (\<lambda>s6.
            if startsWith (skip_ws s6) ''{'' then Some (skip_ws s6) else None)))))"

definition tracer_back :: "string \<Rightarrow> string option" where
  "tracer_back s =
     Option.bind (expect ''}'' (skip_ws (rev s))) (\<lambda>r1.
     let r2 = skip_ws r1; r3 = (if startsWith r2 '';'' then drop 1 r2 else r2) in
     if startsWith r3 ''}'' \<and> 3 \<le> length r3 then Some (rev r3) else None)"

fun match_tracer :: "string \<Rightarrow> string option" where
  "match_tracer [] = None"
| "match_tracer (c # s) =
     (case Option.bind (tracer_front (c # s)) tracer_back of
        Some b \<Rightarrow> Some b
      | None \<Rightarrow> match_tracer s)"

text \<open>\<^verbatim>\<open>.replace(/\b(?:const|let)\b/g, '')\<close>; \<open>w\<close> tells whether the character before is one of a word.\<close>

definition word_starts :: "string \<Rightarrow> bool" where
  "word_starts s \<longleftrightarrow> (case s of [] \<Rightarrow> False | c # cs \<Rightarrow> word_char c)"

definition decl_at :: "string \<Rightarrow> nat option" where
  "decl_at s =
     (if startsWith s ''const'' \<and> \<not> word_starts (drop 5 s) then Some 5
      else if startsWith s ''let'' \<and> \<not> word_starts (drop 3 s) then Some 3 else None)"

function (sequential) strip_decls :: "bool \<Rightarrow> string \<Rightarrow> string" where
  "strip_decls w [] = []"
| "strip_decls w (c # s) =
     (case (if w then None else decl_at (c # s)) of
        Some n \<Rightarrow> strip_decls True (drop (n - 1) s)
      | None \<Rightarrow> c # strip_decls (word_char c) s)"
  by pat_completeness auto

termination
  by (relation "measure (length \<circ> snd)") auto

definition getTracerBodyString :: "string \<Rightarrow> string res" where
  "getTracerBodyString tracerFunc =
     (case match_tracer tracerFunc of
        None \<Rightarrow> Inl (JsError ''Not a simple method returning value'' None)
      | Some ret \<Rightarrow> Inr (strip_decls False ret))"

section \<open>Tracing\<close>

definition GethNativeTracerName :: string where
  "GethNativeTracerName = ''erc7562Tracer''"

definition bundlerJSTracerName :: string where
  "bundlerJSTracerName = ''bundlerCollectorTracer''"

datatype tracer_option = TracerFunc string | TracerName string

record trace_options =
  to_tracer :: "tracer_option option"
  to_stateOverrides :: "js_value option"
  to_rest :: "js_value obj"
    \<comment> \<open>the options that are only passed on\<close>

definition tracer2string :: "trace_options \<Rightarrow> trace_options res" where
  "tracer2string options =
     (case to_tracer options of
        Some (TracerFunc f) \<Rightarrow> bindE (getTracerBodyString f) (\<lambda>b. Inr (options\<lparr>to_tracer := Some (TracerName b)\<rparr>))
      | _ \<Rightarrow> Inr options)"

text \<open>\<^verbatim>\<open>.replace(/0x0(.)/, '0x$1')\<close> of a hexadecimal number.\<close>

definition gethHex :: "hex_lib \<Rightarrow> int \<Rightarrow> string" where
  "gethHex H n = (let s = hx_toHexString H n in if startsWith s ''0x0'' \<and> 3 < length s then ''0x'' @ drop 3 s else s)"

text \<open>An account of a prestate becomes a state override: the nonce in hexadecimal, the storage
  renamed; both keys are looked up as properties, so a missing one is left alone.\<close>

definition fix_account :: "(js_value \<Rightarrow> string) \<Rightarrow> js_value \<Rightarrow> js_value" where
  "fix_account to_hex v =
     (case v of
        JsObj fs \<Rightarrow>
          (let fs1 = (if js_field fs ''nonce'' \<noteq> JsNull
                      then AList.update ''nonce'' (JsStr (''0x'' @ to_hex (js_field fs ''nonce''))) fs else fs);
               fs2 = (if js_field fs1 ''storage'' \<noteq> JsNull
                      then AList.delete ''storage'' (AList.update ''state'' (js_field fs1 ''storage'') fs1) else fs1)
           in JsObj fs2)
      | _ \<Rightarrow> v)"

definition fix_prestate :: "(js_value \<Rightarrow> string) \<Rightarrow> js_value obj \<Rightarrow> js_value obj" where
  "fix_prestate to_hex preState = map (\<lambda>(k, v). (k, fix_account to_hex v)) preState"

text \<open>A transaction to trace: its gas limit, and the rest of its fields. \<open>network\<close> and the second
  provider are the requests \<^verbatim>\<open>debug_traceCall\<close> to them, with the gas limit as it is sent;
  \<open>collector\<close> is the text of the function \<^verbatim>\<open>bundlerCollectorTracer\<close>.\<close>

record trace_tx =
  tt_gasLimit :: "int option"
  tt_fields :: "js_value obj"

type_synonym tracing_node = "string option \<Rightarrow> js_value obj \<Rightarrow> trace_options \<Rightarrow> js_value res"

definition debug_traceCall ::
  "hex_lib \<Rightarrow> (js_value \<Rightarrow> string) \<Rightarrow> string \<Rightarrow> tracing_node \<Rightarrow> tracing_node option \<Rightarrow> trace_tx \<Rightarrow> trace_options \<Rightarrow> js_value res" where
  "debug_traceCall H to_hex collector network second tx options =
     (let gas = map_option (gethHex H) (tt_gasLimit tx); fs = tt_fields tx in
      case second of
        Some prestateTracerProvider \<Rightarrow>
          bindE (tracer2string options) (\<lambda>traceOptions.
          bindE (network gas fs (traceOptions\<lparr>to_tracer := Some (TracerName ''prestateTracer'')\<rparr>)) (\<lambda>preState.
          bindE (getTracerBodyString collector) (\<lambda>body.
            prestateTracerProvider gas fs (traceOptions\<lparr>to_tracer := Some (TracerName body),
              to_stateOverrides := Some (case preState of JsObj ps \<Rightarrow> JsObj (fix_prestate to_hex ps) | _ \<Rightarrow> preState)\<rparr>))))
      | None \<Rightarrow>
          (case to_tracer options of
             Some t \<Rightarrow> bindE (tracer2string options) (network gas fs)
           | None \<Rightarrow> network gas fs (options\<lparr>to_tracer := Some (TracerName GethNativeTracerName)\<rparr>)))"

definition debug_traceTransaction :: "(string \<Rightarrow> trace_options \<Rightarrow> js_value res) \<Rightarrow> string \<Rightarrow> trace_options \<Rightarrow> js_value res" where
  "debug_traceTransaction send h options = bindE (tracer2string options) (send h)"

text \<open>For a network that cannot trace a call: the transaction is mined, then traced.\<close>

definition execAndTrace ::
  "('s, string) act \<Rightarrow> ('s \<Rightarrow> string \<Rightarrow> trace_options \<Rightarrow> js_value res) \<Rightarrow> trace_options \<Rightarrow> ('s, js_value) act" where
  "execAndTrace sendUnchecked trace options =
     bindM sendUnchecked (\<lambda>h. lookM (\<lambda>s. liftE (debug_traceTransaction (trace s) h options)))"

section \<open>decodeHelper: known methods\<close>

text \<open>The items of an ABI. The functions of the list have no outputs, so there is no field for them.\<close>

record abi_input =
  ai_indexed :: "bool option"
  ai_internalType :: string
  ai_name :: string
  ai_type :: string

record abi_item =
  ab_anonymous :: "bool option"
  ab_inputs :: "abi_input list"
  ab_name :: string
  ab_stateMutability :: "string option"
  ab_type :: string

definition abi_in :: "bool option \<Rightarrow> string \<Rightarrow> string \<Rightarrow> abi_input" where
  "abi_in ix t n = \<lparr>ai_indexed = ix, ai_internalType = t, ai_name = n, ai_type = t\<rparr>"

definition abi_event :: "string \<Rightarrow> abi_input list \<Rightarrow> abi_item" where
  "abi_event n is = \<lparr>ab_anonymous = Some False, ab_inputs = is, ab_name = n, ab_stateMutability = None, ab_type = ''event''\<rparr>"

definition abi_function :: "string \<Rightarrow> abi_input list \<Rightarrow> abi_item" where
  "abi_function n is = \<lparr>ab_anonymous = None, ab_inputs = is, ab_name = n, ab_stateMutability = Some ''nonpayable'', ab_type = ''function''\<rparr>"

definition RIP7560EntryPointABI :: "abi_item list" where
  "RIP7560EntryPointABI =
     [abi_event ''RIP7560AccountDeployed''
        [abi_in (Some True) ''address'' ''sender'', abi_in (Some True) ''address'' ''paymaster'', abi_in (Some True) ''address'' ''deployer''],
      abi_event ''RIP7560TransactionEvent''
        [abi_in (Some True) ''address'' ''sender'', abi_in (Some True) ''address'' ''paymaster'',
         abi_in (Some False) ''uint256'' ''nonceKey'', abi_in (Some False) ''uint256'' ''nonceSequence'',
         abi_in (Some False) ''uint256'' ''executionStatus''],
      abi_event ''RIP7560TransactionPostOpRevertReason''
        [abi_in (Some True) ''address'' ''sender'', abi_in (Some True) ''address'' ''paymaster'',
         abi_in (Some False) ''uint256'' ''nonceKey'', abi_in (Some False) ''uint256'' ''nonceSequence'',
         abi_in (Some False) ''bytes'' ''revertReason''],
      abi_event ''RIP7560TransactionRevertReason''
        [abi_in (Some True) ''address'' ''sender'', abi_in (Some False) ''uint256'' ''nonceKey'',
         abi_in (Some False) ''uint256'' ''nonceSequence'', abi_in (Some False) ''bytes'' ''revertReason''],
      abi_function ''acceptAccount'' [abi_in None ''uint256'' ''validAfter'', abi_in None ''uint256'' ''validUntil''],
      abi_function ''acceptPaymaster''
        [abi_in None ''uint256'' ''validAfter'', abi_in None ''uint256'' ''validUntil'', abi_in None ''bytes'' ''context''],
      abi_function ''sigFailAccount'' [abi_in None ''uint256'' ''validAfter'', abi_in None ''uint256'' ''validUntil''],
      abi_function ''sigFailPaymaster''
        [abi_in None ''uint256'' ''validAfter'', abi_in None ''uint256'' ''validUntil'', abi_in None ''bytes'' ''context'']]"

text \<open>A \<^verbatim>\<open>Map\<close> by name keeps the place of the first item and the value of the last. \<open>contract_abis\<close> is the
  ABI of the contracts, which are not part of the repository's sources.\<close>

definition uniqueNames :: "abi_item list \<Rightarrow> abi_item list" where
  "uniqueNames arr = map snd (foldl (\<lambda>m item. AList.update (ab_name item) item m) [] arr)"

definition known_methods :: "abi_item list \<Rightarrow> abi_item list" where
  "known_methods contract_abis = uniqueNames (RIP7560EntryPointABI @ contract_abis)"

section \<open>decodeHelper: the dump of a call tree\<close>

definition mapAddrToName :: "js_value obj \<Rightarrow> string \<Rightarrow> string" where
  "mapAddrToName mapAddrs addr' =
     (case find (\<lambda>(name, v). v \<noteq> JsNull \<and> toLowerCase (js_text v) = toLowerCase addr') mapAddrs of
        Some (name, v) \<Rightarrow> name
      | None \<Rightarrow> addr')"

definition undefined_text :: "string option \<Rightarrow> string" where
  "undefined_text s = or_else s ''undefined''"

definition dump_accesses :: "string \<Rightarrow> string \<Rightarrow> ('v \<Rightarrow> string) \<Rightarrow> 'v obj option \<Rightarrow> string list" where
  "dump_accesses indent access show arr =
     (case arr of
        None \<Rightarrow> []
      | Some es \<Rightarrow> map (\<lambda>(idx, v). indent @ ''   - '' @ access @ ''  '' @ idx @ '': '' @ show v) es)"

definition dump_frame :: "ethers_lib \<Rightarrow> js_value obj \<Rightarrow> string \<Rightarrow> erc7562_call \<Rightarrow> string list" where
  "dump_frame L mapAddrs indent c =
     (indent @ '' '' @ mapAddrToName mapAddrs (call_from c) @ '' => '' @ call_type c @ '' '' @ mapAddrToName mapAddrs (call_to c) @
        ''.'' @ tryDetectKnownMethod L c @ '' : '' @ undefined_text (call_output c) @ '' '' @ undefined_text (call_error c) @ '' '' @
        (if outOfGas c then ''true'' else ''false'')) #
     dump_accesses indent ''reads'' join_comma (as_reads (accessedSlots c)) @
     dump_accesses indent ''writes'' show_int (as_writes (accessedSlots c))"

lemma inner_call_smaller: "x \<in> set (inner_calls c) \<Longrightarrow> size x < size c"
  using size_inner_calls [of c] size_list_estimation' [of x "inner_calls c" "size x" size] by simp

text \<open>The lines that are printed.\<close>

function (sequential) dumpCallTree :: "ethers_lib \<Rightarrow> js_value obj \<Rightarrow> string \<Rightarrow> erc7562_call \<Rightarrow> string list" where
  "dumpCallTree L mapAddrs indent c =
     (if indent = [] then [''=== dumpCallTree ===''] else []) @ dump_frame L mapAddrs indent c @
     concat (map (dumpCallTree L mapAddrs (indent @ ''  '')) (inner_calls c))"
  by pat_completeness auto

termination
  by (relation "measure (\<lambda>(L, m, i, c). size c)") (auto dest: inner_call_smaller)

declare dumpCallTree.simps [simp del]

section \<open>The text of a tracer: lemmas\<close>

lemma decl_at_word:
  "decl_at s = (if takeWhile word_char s = ''const'' then Some 5 else if takeWhile word_char s = ''let'' then Some 3 else None)"
proof -
  have w: "startsWith s p \<and> \<not> word_starts (drop (length p) s) \<longleftrightarrow> takeWhile word_char s = p" if "list_all word_char p" for p
    using that
  proof (induction p arbitrary: s)
    case Nil
    then show ?case by (cases s) (auto simp: startsWith_def word_starts_def)
  next
    case (Cons a p)
    then show ?case by (cases s) (auto simp: startsWith_def)
  qed
  have "list_all word_char ''const''" "list_all word_char ''let''" by code_simp+
  from w [OF this(1)] w [OF this(2)] show ?thesis by (simp add: decl_at_def numeral_eq_Suc)
qed

text \<open>Inside a word nothing is removed.\<close>

lemma strip_in_word:
  "strip_decls True s = takeWhile word_char s @ (case dropWhile word_char s of [] \<Rightarrow> [] | x # t \<Rightarrow> x # strip_decls False t)"
  by (induction s) auto

fun has_decl :: "bool \<Rightarrow> string \<Rightarrow> bool" where
  "has_decl w [] = False"
| "has_decl w (c # s) = (\<not> w \<and> decl_at (c # s) \<noteq> None \<or> has_decl (word_char c) s)"

lemma word_of_stripped: "word_char c \<Longrightarrow> takeWhile word_char (c # strip_decls True s) = takeWhile word_char (c # s)"
  by (auto simp: strip_in_word takeWhile_append dropWhile_eq_Cons_conv split: list.split dest: set_takeWhileD)

text \<open>No declaration keyword is left in the text of a tracer.\<close>

lemma decl_at_end: "decl_at (c # s) = Some n \<Longrightarrow> \<not> word_starts (drop (n - 1) s)"
  by (auto simp: decl_at_def numeral_eq_Suc split: if_splits)

lemma decl_at_other: "\<not> word_char c \<Longrightarrow> decl_at (c # s) = None"
  by (simp add: decl_at_word)

lemma no_decl_left: "\<not> has_decl w (strip_decls w s)"
proof (induction w s rule: strip_decls.induct)
  case (2 w c s)
  show ?case
  proof (cases "if w then None else decl_at (c # s)")
    case None
    have "w \<or> decl_at (c # strip_decls (word_char c) s) = None"
      using None word_of_stripped [of c s] decl_at_other [of c] by (cases w; cases "word_char c") (auto simp: decl_at_word)
    then show ?thesis using None 2(1) [OF None] by auto
  next
    case (Some n)
    then have n: "\<not> w" "\<not> word_starts (drop (n - 1) s)" using decl_at_end by (auto split: if_splits)
    have "\<not> has_decl True (strip_decls True (drop (n - 1) s))" using 2(2) [OF Some] .
    then have "\<not> has_decl False (strip_decls True (drop (n - 1) s))"
      using n(2) decl_at_other by (cases "drop (n - 1) s") (auto simp: word_starts_def)
    then show ?thesis using Some n(1) by simp
  qed
qed simp

lemma skip_ws_simps [simp]:
  "skip_ws [] = []" "\<not> is_space c \<Longrightarrow> skip_ws (c # s) = c # s" "is_space c \<Longrightarrow> skip_ws (c # s) = skip_ws s"
  by (simp_all add: skip_ws_def)

text \<open>What the function that the documentation asks for, one that only returns an object, is cut down
  to: that object, without declaration keywords.\<close>

lemma tracer_body_of_function:
  assumes "f \<noteq> []" and "list_all word_char f" and "b \<noteq> []"
  shows "getTracerBodyString (''function '' @ f @ ''() { return {'' @ b @ ''}; }'') = Inr (strip_decls False (''{'' @ b @ ''}''))"
proof -
  have sp: "is_space CHR '' ''" "\<not> is_space CHR ''{''" "\<not> is_space CHR ''}''" "\<not> is_space CHR ''(''" "\<not> is_space CHR '')''"
    "\<not> is_space CHR '';''" "\<not> is_space CHR ''r''" "\<not> word_char CHR ''(''" by code_simp+
  have d: "dropWhile word_char (f @ ''() { return {'' @ b @ ''}; }'') = ''() { return {'' @ b @ ''}; }''"
    using assms(2) sp(8) by (induction f) auto
  have "tracer_front (''function '' @ f @ ''() { return {'' @ b @ ''}; }'') = Some (''{'' @ b @ ''}; }'')"
    using d assms(1) sp by (simp add: tracer_front_def expect_def startsWith_def Let_def)
  moreover have "tracer_back (''{'' @ b @ ''}; }'') = Some (''{'' @ b @ ''}'')"
    using assms(3) sp by (cases b) (simp_all add: tracer_back_def expect_def startsWith_def Let_def)
  ultimately have "match_tracer (''function '' @ f @ ''() { return {'' @ b @ ''}; }'') = Some (''{'' @ b @ ''}'')"
    by simp
  then show ?thesis by (simp add: getTracerBodyString_def)
qed

section \<open>Known methods and the dump: lemmas\<close>

lemma abi_keys: "set (map fst (foldl (\<lambda>m item. AList.update (ab_name item) item m) m0 arr)) = set (map fst m0) \<union> ab_name ` set arr"
  by (induction arr arbitrary: m0) (auto simp: dom_update)

lemma unique_values:
  assumes "distinct (map fst m0)" and "\<forall>(k, v)\<in>set m0. ab_name v = k"
  shows "distinct (map fst (foldl (\<lambda>m item. AList.update (ab_name item) item m) m0 arr)) \<and>
    (\<forall>(k, v)\<in>set (foldl (\<lambda>m item. AList.update (ab_name item) item m) m0 arr). ab_name v = k)"
  using assms
proof (induction arr arbitrary: m0)
  case (Cons x arr)
  have "\<forall>(k, v)\<in>set (AList.update (ab_name x) x m0). ab_name v = k"
    using Cons.prems(2) by (induction m0) (auto split: if_splits)
  then show ?case using Cons.IH [of "AList.update (ab_name x) x m0"] Cons.prems(1) by (simp add: distinct_update)
qed simp

text \<open>No two known methods have the same name, and none is lost: of overloaded ones the last is known.\<close>

lemma uniqueNames_distinct: "distinct (map ab_name (uniqueNames arr)) \<and> ab_name ` set (uniqueNames arr) = ab_name ` set arr"
proof -
  let ?m = "foldl (\<lambda>m item. AList.update (ab_name item) item m) [] arr"
  have v: "distinct (map fst ?m)" "\<forall>(k, v)\<in>set ?m. ab_name v = k" using unique_values [of "[]" arr] by simp_all
  then have names: "map ab_name (uniqueNames arr) = map fst ?m" by (auto simp: uniqueNames_def)
  then have "ab_name ` set (uniqueNames arr) = set (map fst ?m)" by (metis list.set_map)
  then show ?thesis using v(1) abi_keys [of "[]" arr] names by simp
qed

text \<open>The dump has a line for every frame of the tree and every slot it reads or writes, and one at the top.\<close>

definition frame_lines :: "erc7562_call \<Rightarrow> nat" where
  "frame_lines c = 1 + length (or_else (as_reads (accessedSlots c)) []) + length (or_else (as_writes (accessedSlots c)) [])"

lemma dump_frame_length: "length (dump_frame L m i c) = frame_lines c"
  by (simp add: dump_frame_def dump_accesses_def frame_lines_def or_else_def split: option.split)

lemma frames_list_concat: "frames_list cs = concat (map frames cs)"
  by (induction cs) simp_all

lemma dump_length: "length (dumpCallTree L m i c) = (if i = [] then 1 else 0) + sum_list (map frame_lines (frames c))"
proof (induction L m i c rule: dumpCallTree.induct)
  case (1 L m i c)
  have "sum_list (map length (map (dumpCallTree L m (i @ ''  '')) cs)) = sum_list (map frame_lines (concat (map frames cs)))"
    if "set cs \<subseteq> set (inner_calls c)" for cs
    using that 1 by (induction cs) auto
  then show ?case
    by (subst dumpCallTree.simps) (simp add: length_concat dump_frame_length frames_list_concat)
qed

end
