(* ===== verification/Deployments.thy ===== *)
theory Deployments
  imports NodeHelpers
begin

text \<open>
  What scripts and tests use of \<^verbatim>\<open>packages/utils/src\<close>: the static interface of
  \<^verbatim>\<open>DeterministicDeployer.ts\<close> with the modules that hand it a fixed bytecode
  (\<^verbatim>\<open>deployEntryPoint.ts\<close>, \<^verbatim>\<open>RIP7712NonceManagerUtils.ts\<close>, \<^verbatim>\<open>deployStakeManager.ts\<close>) and the scripts of
  \<^verbatim>\<open>packages/bundler/deploy\<close>; \<^verbatim>\<open>waitFor\<close> and \<^verbatim>\<open>runContractScript\<close> of \<^verbatim>\<open>Utils.ts\<close>; \<^verbatim>\<open>rethrowError\<close> and
  \<^verbatim>\<open>resolveHexlify\<close> of \<^verbatim>\<open>ERC4337Utils.ts\<close>; and the option \<^verbatim>\<open>--createMnemonic\<close> of \<^verbatim>\<open>runBundler.ts\<close>.
  Bytecode is generated, so it is an argument; a contract that is connected to is its address.
\<close>

section \<open>The deployer's static interface\<close>

text \<open>The state is the field \<^verbatim>\<open>_instance\<close>.\<close>

definition deployer_init :: "'s deploy_node \<Rightarrow> ('s deploy_node option, unit) act" where
  "deployer_init N = modifyM (\<lambda>_. Some N)"

definition deployer_instance :: "'s deploy_node option \<Rightarrow> 's deploy_node res" where
  "deployer_instance i =
     (case i of None \<Rightarrow> Inl (JsError ''must call \"DeterministicDeployer.init(ethers.provider)\" first'' None)
      | Some N \<Rightarrow> Inr N)"

text \<open>The defaults of \<^verbatim>\<open>salt\<close> and \<^verbatim>\<open>params\<close>. Where the text is of a static method, \<open>N\<close> is used for the library only.\<close>

definition deployer_getAddress :: "'s deploy_node \<Rightarrow> ctr_code \<Rightarrow> string option \<Rightarrow> js_value list option \<Rightarrow> string res" where
  "deployer_getAddress N ctrCode salt ps =
     getDeterministicDeployAddress N ctrCode (or_else salt ''0'') (or_else ps [])"

definition deployer_deploy ::
  "'s deploy_node option \<Rightarrow> ctr_code \<Rightarrow> string option \<Rightarrow> js_value list option \<Rightarrow> ('s, string) act" where
  "deployer_deploy i ctrCode salt ps =
     bindM (liftE (deployer_instance i)) (\<lambda>N. deterministicDeploy N ctrCode (or_else salt ''0'') (or_else ps []))"

section \<open>Contracts of fixed bytecode\<close>

definition entryPointSalt :: string where
  "entryPointSalt = ''0x0a59dbff790c23c976a548690c27297883cc66b4c67024f9117b0238995e35e9''"

definition deployEntryPoint :: "'s deploy_node \<Rightarrow> string \<Rightarrow> ('s, string) act" where
  "deployEntryPoint N entryPointByteCode = deterministicDeploy N (CtrCode entryPointByteCode) entryPointSalt []"

definition getEntryPointAddress :: "'s deploy_node \<Rightarrow> string \<Rightarrow> string res" where
  "getEntryPointAddress N entryPointByteCode = deployer_getAddress N (CtrCode entryPointByteCode) (Some entryPointSalt) None"

definition nonceManagerSalt :: string where
  "nonceManagerSalt = ''0x90d8084deab30c2a37c45e8d47f49f2f7965183cb6990a98943ef94940681de3''"

definition deployNonceManager :: "'s deploy_node \<Rightarrow> string \<Rightarrow> ('s, string) act" where
  "deployNonceManager N nonceManagerByteCode = deterministicDeploy N (CtrCode nonceManagerByteCode) nonceManagerSalt []"

definition getNonceManagerAddress :: "'s deploy_node \<Rightarrow> string \<Rightarrow> string res" where
  "getNonceManagerAddress N nonceManagerByteCode =
     deployer_getAddress N (CtrCode nonceManagerByteCode) (Some nonceManagerSalt) None"

definition stakeManagerSalt :: string where
  "stakeManagerSalt = ''0x90d8084deab30c2a37c45e8d47f49f2f7965183cb6990a98943ef94940681de3''"

definition deployStakeManager :: "'s deploy_node \<Rightarrow> string \<Rightarrow> ('s, string) act" where
  "deployStakeManager N stakeManagerByteCode = deterministicDeploy N (CtrCode stakeManagerByteCode) stakeManagerSalt []"

definition getStakeManagerAddress :: "'s deploy_node \<Rightarrow> string \<Rightarrow> string res" where
  "getStakeManagerAddress N stakeManagerByteCode =
     deployer_getAddress N (CtrCode stakeManagerByteCode) (Some stakeManagerSalt) None"

section \<open>Deployment scripts\<close>

text \<open>\<^verbatim>\<open>process.exit(1)\<close> is an error with the message printed before.\<close>

definition deployEP :: "'s deploy_node \<Rightarrow> string \<Rightarrow> ('s \<Rightarrow> int) \<Rightarrow> ('s, unit) act" where
  "deployEP N entryPointByteCode netChainId =
     bindM (liftE (getEntryPointAddress N entryPointByteCode)) (\<lambda>epAddr.
     bindM (getM (\<lambda>s. dn_code N s epAddr)) (\<lambda>code.
     if code \<noteq> ''0x'' then retM ()
     else bindM (getM netChainId) (\<lambda>chainId.
       if chainId \<noteq> 1337 \<and> chainId \<noteq> 31337
       then throwM (JsError ''NOT deploying EntryPoint. use pre-deployed entrypoint'' None)
       else bindM (deployEntryPoint N entryPointByteCode) (\<lambda>_. retM ()))))"

definition ether :: int where
  "ether = 10 ^ 18"

definition hardhatAccount :: string where
  "hardhatAccount = ''0xf39Fd6e51aad88F6F4ce6aB8827279cffFb92266''"

definition fundsigner :: "'s deploy_node \<Rightarrow> string \<Rightarrow> ('s, unit) act" where
  "fundsigner N signer_addr =
     bindM (getM (\<lambda>s. dn_balance N s signer_addr)) (\<lambda>signerBalance.
     bindM (getM (\<lambda>s. dn_balance N s hardhatAccount)) (\<lambda>bal.
     if bal < ether \<and> signerBalance \<ge> 10000 * ether
     then dn_send N \<lparr>sx_to = hardhatAccount, sx_data = ''0x'', sx_value = ether - bal\<rparr>
     else retM ()))"

text \<open>A contract whose constructor reverts with its results: \<open>deployData\<close> is \<^verbatim>\<open>c.getDeployTransaction\<close>,
  \<open>parseError\<close> the interface of the factory.\<close>

definition runContractScript ::
  "(string \<Rightarrow> ('s, string) act) \<Rightarrow> (js_value list \<Rightarrow> string res) \<Rightarrow> (string \<Rightarrow> js_value list option res) \<Rightarrow>
   js_value list \<Rightarrow> ('s, js_value list) act" where
  "runContractScript call deployData parseError ctrParams =
     bindM (liftE (deployData ctrParams)) (\<lambda>tx.
     bindM (call tx) (\<lambda>ret.
     bindM (liftE (parseError ret)) (\<lambda>parsed.
       case parsed of None \<Rightarrow> throwM (JsError (''unable to parse script (error) response: '' @ ret) None)
       | Some args \<Rightarrow> retM args)))"

text \<open>The state is the file system.\<close>

definition createMnemonic :: "string \<Rightarrow> string \<Rightarrow> (string \<Rightarrow> string option, unit) act" where
  "createMnemonic mnemonicFile newMnemonic =
     bindM (getM (\<lambda>files. files mnemonicFile)) (\<lambda>old.
     if old \<noteq> None
     then throwM (JsError (''Can't --createMnemonic: out file '' @ mnemonicFile @ '' already exists'') None)
     else thenM (modifyM (\<lambda>files. files(mnemonicFile \<mapsto> newMnemonic)))
            (throwM (JsError (''created mnemonic file '' @ mnemonicFile) None)))"

section \<open>waitFor\<close>

record 's timers =
  tm_now :: "'s \<Rightarrow> int"
  tm_sleep :: "int \<Rightarrow> 's \<Rightarrow> 's"
    \<comment> \<open>the state after \<^verbatim>\<open>setTimeout\<close> of so many milliseconds, in which other code runs\<close>

fun waitFor_loop ::
  "nat \<Rightarrow> 's timers \<Rightarrow> ('s, 'a option) act \<Rightarrow> string \<Rightarrow> int \<Rightarrow> int \<Rightarrow> 's \<Rightarrow> ('a res \<times> 's) option" where
  "waitFor_loop 0 T func func_text interval endTime s = None"
| "waitFor_loop (Suc fuel) T func func_text interval endTime s =
     (case func s of
        (Inl e, t) \<Rightarrow> Some (Inl e, t)
      | (Inr (Some ret), t) \<Rightarrow> Some (Inr ret, t)
      | (Inr None, t) \<Rightarrow>
          if tm_now T t > endTime then Some (Inl (JsError (''Timed out waiting for '' @ func_text) None), t)
          else waitFor_loop fuel T func func_text interval endTime (tm_sleep T interval t))"

definition waitFor ::
  "nat \<Rightarrow> 's timers \<Rightarrow> ('s, 'a option) act \<Rightarrow> string \<Rightarrow> int option \<Rightarrow> int option \<Rightarrow> 's \<Rightarrow> ('a res \<times> 's) option" where
  "waitFor fuel T func func_text timeout interval s =
     waitFor_loop fuel T func func_text (or_else interval 500) (tm_now T s + or_else timeout 10000) s"

section \<open>rethrowError\<close>

text \<open>\<^verbatim>\<open>v?.k\<close>, where only objects have named properties.\<close>

definition opt_field :: "js_value \<Rightarrow> string \<Rightarrow> js_value" where
  "opt_field v k = (case v of JsObj fs \<Rightarrow> js_field fs k | _ \<Rightarrow> JsNull)"

lemma opt_field_size: "opt_field v k \<noteq> JsNull \<Longrightarrow> size (opt_field v k) < size v"
proof (cases v)
  case (JsObj fs)
  have "obj_get fs k = Some x \<Longrightarrow> size x < Suc (size_list (size_prod (\<lambda>_. 0) size) fs)" for x
    by (induction fs) (auto split: if_splits)
  then show "opt_field v k \<noteq> JsNull \<Longrightarrow> ?thesis"
    by (cases "obj_get fs k") (auto simp: opt_field_def js_field_def or_else_def JsObj)
qed (simp_all add: opt_field_def)

text \<open>The loop over \<^verbatim>\<open>data\<close>: the innermost value and the number of steps to it.\<close>

function walk_data :: "js_value \<Rightarrow> js_value \<times> nat" where
  "walk_data v =
     (if opt_field v ''data'' \<noteq> JsNull
      then (case walk_data (opt_field v ''data'') of (u, n) \<Rightarrow> (u, Suc n))
      else (v, 0))"
  by pat_completeness auto

termination
  by (relation "measure size") (simp_all add: opt_field_size)

text \<open>An assignment to a property of the object at a path.\<close>

fun set_path :: "string list \<Rightarrow> string \<Rightarrow> js_value \<Rightarrow> js_value \<Rightarrow> js_value" where
  "set_path [] k x (JsObj fs) = JsObj (AList.update k x fs)"
| "set_path (p # ps) k x (JsObj fs) = JsObj (AList.update p (set_path ps k x (js_field fs p)) fs)"
| "set_path ps k x v = v"

text \<open>Where \<^verbatim>\<open>parent\<close> is in \<^verbatim>\<open>e\<close>, and the value \<^verbatim>\<open>error\<close> when the loop ends.\<close>

definition error_start :: "js_value \<Rightarrow> js_value \<times> string list" where
  "error_start e = (if opt_field e ''error'' \<noteq> JsNull then (opt_field e ''error'', [''error'']) else (e, []))"

definition find_error :: "js_value \<Rightarrow> js_value \<times> string list" where
  "find_error e =
     (case error_start e of (v, path) \<Rightarrow>
        (case walk_data v of (u, n) \<Rightarrow> (u, if n = 0 then [] else path @ replicate (n - 1) ''data'')))"

text \<open>The error that is thrown again: \<open>Inr\<close> the error object with what was assigned to it, \<open>Inl\<close> an
  error of the function itself. Assigning to a property of a text is a \<^verbatim>\<open>TypeError\<close>.\<close>

definition rethrowError :: "hex_lib \<Rightarrow> js_value \<Rightarrow> js_value res" where
  "rethrowError H e =
     (case find_error e of (err, parent) \<Rightarrow>
        bindE (case err of JsStr s \<Rightarrow> if length s > 2 then decodeErrorReason H s else Inr None | _ \<Rightarrow> Inr None) (\<lambda>decoded.
        case decoded of
          None \<Rightarrow> Inr e
        | Some d \<Rightarrow>
            (case e of
               JsStr s \<Rightarrow> Inl (JsError (''Cannot create property 'message' on string '' @ s) None)
             | _ \<Rightarrow>
                 let e1 = set_path [] ''message'' (JsStr (de_message d)) e in
                 if de_opIndex d = None then Inr e1
                 else bindE (hx_abi_encode H [''string''] [AbiStr (de_message d)]) (\<lambda>encoded.
                      bindE (hx_concat H [ErrorSig H, encoded]) (\<lambda>errorWithMsg.
                        Inr (set_path parent ''data'' (JsStr errorWithMsg) e1))))))"

text \<open>The values of the fields may be promises.\<close>

definition resolveHexlify :: "hex_lib \<Rightarrow> (string \<times> js_value res) list \<Rightarrow> js_value res" where
  "resolveHexlify H a =
     bindE (mapE (\<lambda>(k, r). bindE r (\<lambda>v. Inr (k, v))) a) (\<lambda>fs. deepHexlify H (JsObj fs))"


section \<open>Deploying\<close>

text \<open>The scripts deploy to the address the clients compute.\<close>

lemma deployed_at_its_address:
  "deployEntryPoint N b s = (Inr a, t) \<Longrightarrow> getEntryPointAddress N b = Inr a"
  "deployNonceManager N b s = (Inr a, t) \<Longrightarrow> getNonceManagerAddress N b = Inr a"
  "deployStakeManager N b s = (Inr a, t) \<Longrightarrow> getStakeManagerAddress N b = Inr a"
  by (auto simp: deployEntryPoint_def getEntryPointAddress_def deployNonceManager_def getNonceManagerAddress_def
      deployStakeManager_def getStakeManagerAddress_def deterministicDeploy_def deployer_getAddress_def returns_iffs)

text \<open>On a chain that is not a test chain the script sends nothing.\<close>

lemma deployEP_spares_other_chains:
  assumes "cid s \<notin> {1337, 31337}"
  shows "snd (deployEP N b cid s) = s"
  using assms by (cases "getEntryPointAddress N b")
    (simp_all add: deployEP_def bindM_def liftE_def getM_def retM_def throwM_def)

text \<open>When it ends well, there is code at the address of the entry point, provided that what the
  deployment sends is mined and an account without code reads as \<^verbatim>\<open>0x\<close>.\<close>

lemma deployEP_leaves_code:
  assumes "deployEP N b cid s = (Inr (), t)" and "getEntryPointAddress N b = Inr a"
    and mined: "\<And>tx u v. getDeployTransaction N (CtrCode b) entryPointSalt [] u = (Inr tx, v) \<Longrightarrow>
      (\<exists>w. dn_send N tx v = (Inr (), w)) \<Longrightarrow> dn_code N (snd (dn_send N tx v)) a \<noteq> ''0x''"
    and short: "\<And>u. length (dn_code N u a) > 2 \<Longrightarrow> dn_code N u a \<noteq> ''0x''"
  shows "dn_code N t a \<noteq> ''0x''"
proof (cases "dn_code N s a = ''0x''")
  case False
  then show ?thesis using assms(1,2) by (simp add: deployEP_def returns_iffs getM_def)
next
  case True
  with assms(1,2) obtain d where "deployEntryPoint N b s = (Inr d, t)"
    by (auto simp: deployEP_def returns_iffs getM_def throwM_def split: if_splits)
  moreover have "getDeterministicDeployAddress N (CtrCode b) entryPointSalt [] = Inr a"
    using assms(2) by (simp add: getEntryPointAddress_def deployer_getAddress_def)
  ultimately show ?thesis using mined True
    by (fastforce simp: deployEntryPoint_def deterministicDeploy_def isContractDeployed_def returns_iffs getM_def)
qed

text \<open>Funding leaves the account of the test node with an ether, when the signer is rich and
  a payment adds to the balance it is sent to.\<close>

lemma fundsigner_tops_up:
  assumes "fundsigner N signer_addr s = (Inr (), t)" and "dn_balance N s signer_addr \<ge> 10000 * ether"
    and "\<And>tx u v. dn_send N tx u = (Inr (), v) \<Longrightarrow> dn_balance N v (sx_to tx) = dn_balance N u (sx_to tx) + sx_value tx"
  shows "dn_balance N t hardhatAccount = max ether (dn_balance N s hardhatAccount)"
  using assms(1,2) assms(3) [of "\<lparr>sx_to = hardhatAccount, sx_data = ''0x'', sx_value = ether - dn_balance N s hardhatAccount\<rparr>" s t]
  by (auto simp: fundsigner_def bindM_def getM_def retM_def split: if_splits)

lemma mnemonic_never_overwritten:
  assumes "files f = Some c" shows "snd (createMnemonic g w files) f = Some c"
  using assms by (auto simp: createMnemonic_def bindM_def getM_def throwM_def thenM_def modifyM_def)

section \<open>Waiting ends\<close>

text \<open>When nothing puts the clock back and every sleep takes its time, the loop ends after as many
  rounds as intervals fit into the timeout, and two. It yields a value only if \<open>func\<close> did, and times
  out only after the timeout.\<close>

definition poll_outcome ::
  "'s timers \<Rightarrow> ('s, 'a option) act \<Rightarrow> string \<Rightarrow> int \<Rightarrow> 'a res \<times> 's \<Rightarrow> bool" where
  "poll_outcome T func func_text endTime out =
     (case out of
        (Inr x, t) \<Rightarrow> \<exists>u. func u = (Inr (Some x), t)
      | (Inl e, t) \<Rightarrow> (\<exists>u. func u = (Inl e, t)) \<or>
          (\<exists>u. func u = (Inr None, t)) \<and> tm_now T t > endTime \<and> e = JsError (''Timed out waiting for '' @ func_text) None)"

lemma waitFor_loop_ends:
  assumes func: "\<And>u. tm_now T u \<le> tm_now T (snd (func u))"
    and sleep: "\<And>u. tm_now T u + interval \<le> tm_now T (tm_sleep T interval u)"
  shows "endTime - tm_now T s < int n * interval \<Longrightarrow>
    \<exists>out. waitFor_loop (Suc n) T func func_text interval endTime s = Some out \<and> poll_outcome T func func_text endTime out"
proof (induction n arbitrary: s)
  case 0
  obtain r t where "func s = (r, t)" by fastforce
  moreover from this func [of s] 0 have "tm_now T t > endTime" by simp
  ultimately show ?case by (cases r; cases "projr r") (auto simp: poll_outcome_def)
next
  case (Suc n)
  obtain r t where f: "func s = (r, t)" by fastforce
  have "endTime - tm_now T (tm_sleep T interval t) < int n * interval"
    using Suc.prems func [of s] sleep [of t] f by (simp add: algebra_simps)
  note IH = Suc.IH [OF this]
  show ?case
  proof (cases "r = Inr None \<and> \<not> tm_now T t > endTime")
    case True
    then show ?thesis using IH f by (simp del: waitFor_loop.simps add: waitFor_loop.simps(2) [of "Suc n"])
  next
    case False
    then show ?thesis using f by (cases r; cases "projr r") (auto simp: poll_outcome_def)
  qed
qed

lemma waitFor_ends:
  assumes "\<And>u. tm_now T u \<le> tm_now T (snd (func u))"
    and "\<And>u. tm_now T u + or_else interval 500 \<le> tm_now T (tm_sleep T (or_else interval 500) u)"
    and "0 < or_else interval 500" and "0 \<le> or_else timeout 10000"
    and "fuel = nat (or_else timeout 10000 div or_else interval 500) + 2"
  shows "\<exists>out. waitFor fuel T func func_text timeout interval s = Some out \<and>
    poll_outcome T func func_text (tm_now T s + or_else timeout 10000) out"
proof -
  let ?i = "or_else interval 500" and ?t = "or_else timeout 10000"
  have "?t < (1 + ?t div ?i) * ?i" using assms(3) mult_div_mod_eq [of ?i ?t] pos_mod_bound [OF assms(3), of ?t]
    by (simp only: distrib_right mult_1 mult.commute [of ?i])
  then have "?t < int (nat (?t div ?i) + 1) * ?i"
    using assms(3,4) by (simp add: pos_imp_zdiv_nonneg_iff)
  then show ?thesis
    using waitFor_loop_ends [of T func ?i "tm_now T s + ?t" s "nat (?t div ?i) + 1" func_text] assms(1,2,5)
    by (simp add: waitFor_def)
qed

section \<open>Rethrowing\<close>

declare walk_data.simps [simp del]

lemma walk_data_obj:
  "walk_data (JsObj fs) =
     (if js_field fs ''data'' \<noteq> JsNull then apsnd Suc (walk_data (js_field fs ''data'')) else (JsObj fs, 0))"
  by (subst walk_data.simps) (simp add: opt_field_def split: prod.split)

lemma walk_data_leaf: "(\<And>fs. v \<noteq> JsObj fs) \<Longrightarrow> walk_data v = (v, 0)"
  by (subst walk_data.simps) (simp add: opt_field_def split: js_value.split)

lemma walk_data_Suc:
  "walk_data v = (x, Suc n) \<longleftrightarrow>
     (\<exists>fs. v = JsObj fs \<and> js_field fs ''data'' \<noteq> JsNull \<and> walk_data (js_field fs ''data'') = (x, n))"
proof (cases "\<exists>fs. v = JsObj fs")
  case True
  then obtain fs where "v = JsObj fs" by blast
  then show ?thesis by (cases "walk_data (js_field fs ''data'')") (auto simp: walk_data_obj)
next
  case False
  then show ?thesis by (simp add: walk_data_leaf)
qed


lemma set_path_obj: "\<exists>gs. set_path p k x (JsObj fs) = JsObj gs"
  by (cases p) auto

lemma walk_data_set:
  "walk_data v = (JsStr t, Suc n) \<Longrightarrow> walk_data (set_path (replicate n ''data'') ''data'' (JsStr x) v) = (JsStr x, Suc n)"
proof (induction n arbitrary: v)
  case 0
  then show ?case by (auto simp: walk_data_Suc js_field_update walk_data_leaf)
next
  case (Suc n)
  then obtain fs where v: "v = JsObj fs" and w: "walk_data (js_field fs ''data'') = (JsStr t, Suc n)"
    by (auto simp: walk_data_Suc [of v])
  obtain gs where g: "js_field fs ''data'' = JsObj gs" using w by (auto simp: walk_data_Suc)
  obtain hs where "set_path (replicate n ''data'') ''data'' (JsStr x) (JsObj gs) = JsObj hs"
    using set_path_obj by blast
  then show ?case using Suc.IH [OF w] by (simp add: v g walk_data_Suc [where n = "Suc n"] js_field_update)
qed

text \<open>Neither assignment moves the place where the error data is found.\<close>

lemma find_error_obj:
  "find_error (JsObj fs) =
     (if js_field fs ''error'' \<noteq> JsNull
      then (case walk_data (js_field fs ''error'') of (u, n) \<Rightarrow> (u, if n = 0 then [] else ''error'' # replicate (n - 1) ''data''))
      else (case walk_data (JsObj fs) of (u, n) \<Rightarrow> (u, if n = 0 then [] else replicate (n - 1) ''data'')))"
  by (simp add: find_error_def error_start_def opt_field_def split: prod.split)

lemma find_error_message:
  assumes "find_error (JsObj fs) = (JsStr s, p)"
  shows "find_error (JsObj (AList.update ''message'' x fs)) = (JsStr s, p)"
  using assms by (auto simp: find_error_obj js_field_update walk_data_obj split: if_splits)

lemma find_error_data:
  assumes "find_error (JsObj fs) = (JsStr s, p)"
  shows "find_error (set_path p ''data'' (JsStr x) (JsObj fs)) \<in> {(JsStr x, p), (JsStr s, p)}"
proof (cases "js_field fs ''error'' = JsNull")
  case True
  obtain u k where k: "walk_data (JsObj fs) = (u, k)" by fastforce
  with assms True have u: "u = JsStr s" "p = (if k = 0 then [] else replicate (k - 1) ''data'')" by (auto simp: find_error_obj)
  from k u(1) have "k \<noteq> 0" by (cases "walk_data (js_field fs ''data'')") (auto simp: walk_data_obj split: if_splits)
  then obtain n where w: "walk_data (JsObj fs) = (JsStr s, Suc n)" and p: "p = replicate n ''data''"
    using k u by (cases k) auto
  obtain gs where g: "set_path p ''data'' (JsStr x) (JsObj fs) = JsObj gs" using set_path_obj by blast
  have "js_field gs ''error'' = JsNull" using g True by (cases n) (auto simp: p js_field_update)
  then show ?thesis using walk_data_set [OF w, of x] unfolding p [symmetric] g by (simp add: find_error_obj p)
next
  case False
  obtain n where w: "walk_data (js_field fs ''error'') = (JsStr s, n)"
    and p: "p = (if n = 0 then [] else ''error'' # replicate (n - 1) ''data'')"
    using assms False by (auto simp: find_error_obj split: prod.splits)
  show ?thesis
  proof (cases n)
    case 0
    then show ?thesis using w False by (simp add: p find_error_obj js_field_update)
  next
    case (Suc m)
    then obtain es where e: "js_field fs ''error'' = JsObj es" using w by (auto simp: walk_data_Suc)
    obtain gs where g: "set_path (replicate m ''data'') ''data'' (JsStr x) (JsObj es) = JsObj gs" using set_path_obj by blast
    show ?thesis using walk_data_set [OF w [unfolded Suc], of x] by (simp add: p Suc e g find_error_obj js_field_update)
  qed
qed

lemma find_error_path: "find_error (JsObj fs) = (u, k # ks) \<Longrightarrow> k = ''data'' \<or> k = ''error''"
proof -
  assume "find_error (JsObj fs) = (u, k # ks)"
  then have "k = ''error'' \<or> (\<exists>n. replicate n ''data'' = k # ks)"
    by (auto simp: find_error_obj split: if_splits prod.splits)
  then show ?thesis by (metis in_set_replicate list.set_intros(1))
qed

lemma update_same: "obj_get fs k = Some x \<Longrightarrow> AList.update k x fs = fs"
  by (induction fs) auto

lemma set_path_twice: "set_path p k x (set_path p k x v) = set_path p k x v"
  by (induction p k x v rule: set_path.induct) (simp_all add: update_same js_field_update)

lemma find_error_atom: "(\<And>fs. e \<noteq> JsObj fs) \<Longrightarrow> find_error e = (e, [])"
  by (simp add: find_error_def error_start_def opt_field_def walk_data_leaf split: js_value.split)

text \<open>Rethrowing is idempotent: the error with its message and its data rewritten is left as it is when
  it is caught and rethrown again, because the data that was written decodes to the same message.\<close>

lemma rethrow_idempotent:
  assumes sig: "length (ErrorSig H) = 10"
    and codec: "\<And>m enc. hx_abi_encode H [''string''] [AbiStr m] = Inr enc \<Longrightarrow>
      \<exists>d. enc = ''0x'' @ d \<and> hx_concat H [ErrorSig H, enc] = Inr (ErrorSig H @ d) \<and> hx_abi_decode H [''string''] enc = Inr [AbiStr m]"
    and "rethrowError H e = Inr e'"
  shows "rethrowError H e' = Inr e'"
proof -
  obtain err p where fe: "find_error e = (err, p)" by fastforce
  show ?thesis
  proof (cases "e' = e")
    case True
    then show ?thesis using assms(3) by simp
  next
    case False
    let ?decoded = "case err of JsStr s \<Rightarrow> if length s > 2 then decodeErrorReason H s else Inr None | _ \<Rightarrow> Inr None"
    obtain r where r: "?decoded = Inr r" using assms(3) fe by (cases ?decoded) (simp_all add: rethrowError_def)
    with False assms(3) fe obtain d where "r = Some d" by (cases r) (simp_all add: rethrowError_def)
    with r obtain s where err: "err = JsStr s" and s: "length s > 2" and d: "decodeErrorReason H s = Inr (Some d)"
      by (cases err) (simp_all split: if_splits)
    have "\<exists>fs. e = JsObj fs"
      using assms(3) fe err s d find_error_atom [of e] by (cases e) (auto simp: rethrowError_def)
    then obtain fs where e: "e = JsObj fs" by blast
    let ?m = "JsStr (de_message d)" let ?e1 = "JsObj (AList.update ''message'' ?m fs)"
    have f1: "find_error ?e1 = (JsStr s, p)" using find_error_message fe err e by blast
    show ?thesis
    proof (cases "de_opIndex d")
      case None
      then have "e' = ?e1" using assms(3) fe err s d e by (simp add: rethrowError_def)
      then show ?thesis using f1 s d None by (simp add: rethrowError_def update_same)
    next
      case (Some i)
      then obtain enc x where enc: "hx_abi_encode H [''string''] [AbiStr (de_message d)] = Inr enc"
        and x: "hx_concat H [ErrorSig H, enc] = Inr x" and e': "e' = set_path p ''data'' (JsStr x) ?e1"
        using assms(3) fe err s d e by (auto simp: rethrowError_def bindE_Inr_iff)
      have dec: "decodeErrorReason H x = Inr (Some \<lparr>de_message = de_message d, de_opIndex = None\<rparr>)" "length x > 2"
        using codec [OF enc] x sig by (auto simp: decodeErrorReason_def startsWith_def)
      obtain gs where g: "e' = JsObj gs" using set_path_obj e' by blast
      have gm: "obj_get gs ''message'' = Some ?m"
        using e' g f1 find_error_path by (cases p) auto
      have "find_error e' \<in> {(JsStr x, p), (JsStr s, p)}" using find_error_data [OF f1] e' by blast
      then show ?thesis
      proof
        assume "find_error e' = (JsStr x, p)"
        then show ?thesis using dec g gm by (simp add: rethrowError_def update_same)
      next
        assume "find_error e' \<in> {(JsStr s, p)}"
        then show ?thesis using s d g gm Some enc x set_path_twice [of p "''data''" "JsStr x" ?e1] e'
          by (simp add: rethrowError_def update_same)
      qed
    qed
  qed
qed

section \<open>Examples\<close>

text \<open>Geth nests the data of a revert in \<^verbatim>\<open>error.data\<close>; a text is its own encoding here.\<close>

definition rethrow_lib :: hex_lib where
  "rethrow_lib = plain_hex\<lparr>
     hx_keccak_text := (\<lambda>t. if t = ''Error(string)'' then ''0x08c379a0'' else ''0x220266b6''),
     hx_abi_encode := (\<lambda>ts vs. case vs of [AbiStr m] \<Rightarrow> Inr (''0x'' @ m) | _ \<Rightarrow> Inr ''0x''),
     hx_abi_decode := (\<lambda>ts d. Inr (if ts = [''string''] then [AbiStr (drop 2 d)] else [AbiInt 0, AbiStr (drop 2 d)]))\<rparr>"

definition geth_error :: "string \<Rightarrow> string \<Rightarrow> js_value" where
  "geth_error m d = JsObj [(''message'', JsStr m), (''error'', JsObj [(''code'', JsNum 3), (''data'', JsStr d)])]"

lemma rethrow_lib_codec:
  "length (ErrorSig rethrow_lib) = 10"
  "hx_abi_encode rethrow_lib [''string''] [AbiStr m] = Inr enc \<Longrightarrow>
    \<exists>d. enc = ''0x'' @ d \<and> hx_concat rethrow_lib [ErrorSig rethrow_lib, enc] = Inr (ErrorSig rethrow_lib @ d) \<and>
      hx_abi_decode rethrow_lib [''string''] enc = Inr [AbiStr m]"
  by (auto simp: rethrow_lib_def ErrorSig_def plain_hex_def)

lemma rethrow_example:
  "rethrowError rethrow_lib (geth_error ''reverted'' ''0x220266b6AA24'') =
     Inr (geth_error ''FailedOp: AA24'' ''0x08c379a0FailedOp: AA24'')"
  "rethrowError rethrow_lib (JsStr ''0x220266b6AA24'') =
     Inl (JsError ''Cannot create property 'message' on string 0x220266b6AA24'' None)"
proof -
  have f: "find_error (geth_error ''reverted'' ''0x220266b6AA24'') = (JsStr ''0x220266b6AA24'', [''error''])"
    by (simp add: geth_error_def find_error_obj js_field_def walk_data_obj walk_data_leaf)
  have d: "decodeErrorReason rethrow_lib ''0x220266b6AA24'' = Inr (Some \<lparr>de_message = ''FailedOp: AA24'', de_opIndex = Some 0\<rparr>)"
    by (simp add: decodeErrorReason_def rethrow_lib_def ErrorSig_def FailedOpSig_def startsWith_def)
  show "rethrowError rethrow_lib (geth_error ''reverted'' ''0x220266b6AA24'') =
      Inr (geth_error ''FailedOp: AA24'' ''0x08c379a0FailedOp: AA24'')"
    by (simp add: rethrowError_def f d) (simp add: geth_error_def js_field_def rethrow_lib_def ErrorSig_def plain_hex_def)
  show "rethrowError rethrow_lib (JsStr ''0x220266b6AA24'') =
      Inl (JsError ''Cannot create property 'message' on string 0x220266b6AA24'' None)"
    by (simp add: rethrowError_def find_error_atom d)
qed

lemma rethrow_again:
  "rethrowError rethrow_lib (geth_error ''FailedOp: AA24'' ''0x08c379a0FailedOp: AA24'') =
     Inr (geth_error ''FailedOp: AA24'' ''0x08c379a0FailedOp: AA24'')"
  by (rule rethrow_idempotent [OF rethrow_lib_codec rethrow_example(1)])

text \<open>A value that is there at the second poll is returned in the second round.\<close>

definition timers_example :: "int timers" where
  "timers_example = \<lparr>tm_now = (\<lambda>s. s), tm_sleep = (\<lambda>i s. s + i)\<rparr>"

lemma waitFor_example:
  "waitFor 22 timers_example (\<lambda>s. (Inr (if s \<ge> 500 then Some ''mined'' else None), s)) ''f'' None None 0 =
     Some (Inr ''mined'', 500)"
  "\<exists>out. waitFor 22 timers_example (\<lambda>s. (Inr (None :: string option), s)) ''f'' None None 0 = Some out"
proof -
  show "waitFor 22 timers_example (\<lambda>s. (Inr (if s \<ge> 500 then Some ''mined'' else None), s)) ''f'' None None 0 =
      Some (Inr ''mined'', 500)"
    by (simp add: waitFor_def timers_example_def numeral_eq_Suc)
  show "\<exists>out. waitFor 22 timers_example (\<lambda>s. (Inr (None :: string option), s)) ''f'' None None 0 = Some out"
    using waitFor_ends [of timers_example "\<lambda>s. (Inr (None :: string option), s)" None None 22 "''f''" 0]
    by (auto simp: timers_example_def)
qed

end
