(* ===== verification/Spec2Isabelle.thy ===== *)
theory Spec2Isabelle
  imports TracedBundles EventsManager DepositManager BundleManagerRIP7560 LegacyCompliance
    ServerSound ValidationManagerRIP7560 Runner GethTracer Deployments
begin

text \<open>
  A model of the account-abstraction bundler of this repository (ERC-4337 operations and
  native RIP-7560 transactions), of the validation rules of ERC-7562 that it enforces, and of the
  client SDK that makes operations for it.

  \<^bold>\<open>The program.\<close> A request arrives at the JSON-RPC server. The method handler checks its
  shape and passes an operation to the execution manager, which asks the validation manager for
  a verdict (static checks, a simulated call, the trace of that call, the ERC-7562 rules over the
  trace) and then puts it into the mempool; the mempool consults the reputation of its entities and
  the deposit of its paymaster. The bundle manager takes operations out of the sorted pool,
  validates each again, keeps those that fit together, sends them in one transaction, and blames
  an entity when the entry point refuses it. The events manager reads the events of the entry
  point, removes what was included and credits its entities. The mempool, the reputation manager,
  the deposit cache and the block cursors are objects that several components hold references to:
  their states are records that extend each other (\<open>rep_state\<close>, \<open>pool_state\<close>, \<open>events_state\<close>,
  \<open>deposit_state\<close>, \<open>rip_state\<close>, \<open>exec_state\<close>, \<open>server_state\<close>), so that an operation of one component acts on
  the state of all.

  \<^bold>\<open>The theories, in the order of imports.\<close> Source files are those of \<^verbatim>\<open>src/packages\<close>.
  \<^item> \<open>Prelude\<close>: JavaScript primitives, errors, the state monad \<open>act\<close> whose state survives a throw,
    and the collections of facts that the other theories use.
  \<^item> \<open>OpTypes\<close>, \<open>Utils\<close> (\<^verbatim>\<open>utils/src/Utils.ts\<close>, \<^verbatim>\<open>interfaces\<close>): data and small helpers.
  \<^item> \<open>ReputationManager\<close>, \<open>MempoolManager\<close>, \<open>EventsManager\<close>, \<open>DepositManager\<close>, \<open>BundleManager\<close>,
    \<open>BundleManagerRIP7560\<close>, \<open>ExecutionManager\<close> (\<^verbatim>\<open>bundler/src/modules\<close>): one theory per module, with
    its state, every operation, its invariant and its laws.
  \<^item> \<open>HexData\<close>, \<open>ERC4337Utils\<close>, \<open>RevertReason\<close> (\<^verbatim>\<open>utils/src\<close>), \<open>PreVerificationGas\<close>
    (\<^verbatim>\<open>sdk/src/PreVerificationGasCalculator.ts\<close>): packed encodings, decoding of errors, gas.
  \<^item> \<open>ERC7562\<close>, \<open>ERC7562Parser\<close>, \<open>ERC7562Compliance\<close> (\<^verbatim>\<open>validation-manager/src\<close>): rules, call trees,
    the walk of the parser, and what the walk accepts as a declarative predicate.
  \<^item> \<open>LegacyRules\<close>, \<open>LegacyTracer\<close>, \<open>LegacyCompliance\<close>: the JavaScript tracer, a state machine on the
    steps of the EVM, and the check of what it collected.
  \<^item> \<open>ValidationManager\<close>, \<open>ValidationSound\<close>, \<open>ValidationManagerRIP7560\<close>: validation of one operation
    on either tracer, or of a native transaction, and what acceptance guarantees.
  \<^item> \<open>TracedBundles\<close>: the bundle manager with that validation manager behind it.
  \<^item> \<open>RpcMethods\<close>, \<open>RpcSound\<close>, \<open>BundlerServer\<close>, \<open>ServerSound\<close> (\<^verbatim>\<open>bundler/src\<close>): the methods of the
    handlers on JSON values, and the dispatch of requests, batches and debug methods to them.
  \<^item> \<open>StartUp\<close> (\<^verbatim>\<open>BundlerConfig.ts\<close>, \<^verbatim>\<open>Config.ts\<close>, \<^verbatim>\<open>runBundler.ts\<close>, \<^verbatim>\<open>initServer.ts\<close>), \<open>NodeHelpers\<close>:
    the configuration, the checks of the node at start, and helpers around the node.
  \<^item> \<open>GethTracer\<close> (\<^verbatim>\<open>validation-manager/src/GethTracer.ts\<close>, \<^verbatim>\<open>decodeHelper.ts\<close>): how the node is asked
    for a trace, the text of a tracer, and the dump of a call tree.
  \<^item> \<open>UserOperationEventListener\<close>, \<open>ClientSDK\<close>, \<open>ClientSound\<close>, \<open>ClientProvider\<close> (\<^verbatim>\<open>sdk/src\<close>): the account
    API, the listener that waits for an operation, the provider, signer and RPC client that use
    them; \<open>Runner\<close> (\<^verbatim>\<open>bundler/src/runner/runop.ts\<close>): a script made of all of these.
  \<^item> \<open>Deployments\<close> (\<^verbatim>\<open>utils/src\<close>, \<^verbatim>\<open>bundler/deploy\<close>): deployment of the contracts of fixed bytecode, the
    deployment scripts, \<^verbatim>\<open>waitFor\<close> and \<^verbatim>\<open>rethrowError\<close>.

  \<^bold>\<open>What the lemmas show.\<close>
  \<^item> Reputation: every operation keeps the table well formed; a crashed entity is banned whatever its
    past; the laws of the service are the locale \<open>reputation_service\<close>.
  \<^item> Mempool: the per-entity counts are exact after any sequence of admissions and removals
    (locale \<open>counter\<close>), the roles of an address stay apart, a refused admission leaves no trace in
    the pool, a replacement pays more.
  \<^item> Bundles: senders are distinct, the gas bound holds, deposits of paymasters suffice, EIP-7702
    authorizations agree, and, with the validation manager behind it, the trace of an operation in a
    bundle touches no slot at the address of another sender of the pool. Failures ban the entity the error names.
  \<^item> ERC-7562: the parser accepts a trace exactly if the trace satisfies the rules; it throws the
    first violation in the order of the walk; the storage map and the contract addresses it returns
    are those of the trace. What a frame reads and writes is read off the objects of the trace
    (\<open>reads_from\<close>, \<open>writes_to\<close>), not off the checks; like the source, the rules attribute it to the
    address the frame is called at, which for \<^verbatim>\<open>DELEGATECALL\<close> is not the owner of the storage
    (\<open>delegatecall_by_code\<close>). The same equivalence holds for the check of the JavaScript tracer, and the
    tracer and the check together refuse a banned opcode.
  \<^item> Validation: an accepted operation has an open time window and valid signature, its trace
    complies, and its code did not change between the two validations. The static checks refuse
    nothing that is well formed and pays enough.
  \<^item> Encodings: packing and unpacking of operations, validation data and nonces are inverse.
  \<^item> Server: every request of a batch is answered in order; every sequence of requests, with
    debug requests among them, keeps the invariants of the pool and the reputation table; with debug
    requests off only the methods that send an operation write to the state.
  \<^item> Start-up: the command line wins over the file and the file over the defaults; a bundler that
    comes up has passed every check of the node.
  \<^item> Client: one sender for all operations of an account (locale \<open>account_api\<close>), deployment data
    exactly when the account is missing and never again after it was seen, the listener settles
    once its timer may fire, and what the client sends passes the checks of the server.
  \<^item> Tracing: what is cut out of the function of a tracer, and that no declaration keyword is left in it;
    the dump of a call tree shows every frame and every slot.
  \<^item> Deployments: the scripts deploy to the address the clients compute, and only on a test chain; waiting
    ends; an error that is rethrown twice is as it was after the first time.

  \<^bold>\<open>Step relations.\<close> Interleaving is modelled where the program has it: \<open>rep_step\<close>, \<open>pool_step\<close>,
  \<open>exec_step\<close> and \<open>server_step\<close> are the operations that can follow each other on the shared
  objects, \<open>listen_step\<close> the events, timers and resolved promises of the listener, \<open>client_step\<close> the
  calls of an account API while the chain changes.  A mutex of the source makes an operation
  of the bundler run without interruption, so one step is one operation.

  \<^bold>\<open>Bounds and fuel.\<close> Walks over call trees recurse on their size. \<open>decodeRevertReason\<close> has a fuel
  argument; the length of the data plus one is enough (\<open>decode_enough_fuel\<close>). The wait for the receipt of
  a bundle asks as often as the deadline of the source allows, the poll of the client
  \<open>timeout div interval + 1\<close> times, \<open>waitFor\<close> once more; each is proved to end. Integers that the source keeps in
  \<^verbatim>\<open>BigNumber\<close> are \<open>int\<close>; conversions to a number throw outside \<open>\<plusminus>2 ^ 53\<close> as \<^verbatim>\<open>toNumber\<close> does; the
  product with 1.1 is rounded to 53 bits; packed fields have the width of their encoding.

  \<^bold>\<open>Parameters.\<close> Code that is not in the repository is an argument: the ethers library, keccak, RLP
  and signatures (\<open>ethers_lib\<close>, \<open>hex_lib\<close>, \<open>revert_lib\<close>), the node and the contracts
  (\<open>chain_env\<close>, \<open>vm_env\<close> and the records of answers of the client), the tracing context (\<open>trace_lib\<close>).
  What a theorem needs of them is a hypothesis in its statement.

  \<^bold>\<open>Not modelled.\<close>
  \<^item> HTTP: a request is its parsed body, a response what is handed to \<^verbatim>\<open>res.send\<close>.
  \<^item> The option parser, the process wrapper \<^verbatim>\<open>exec.ts\<close>, and what is printed: process and terminal I/O.
  \<^item> \<^verbatim>\<open>AltMempoolConfig.ts\<close>: types that no code reads. \<^verbatim>\<open>sleep\<close> and debug logs: timers and text for the
    terminal. The ABIs of the contracts are generated.
  \<^item> Rounding of doubles in the gas calculator, which is over the rationals (the price bump of the
    mempool and the figures of \<open>Runner\<close> are rounded as JavaScript does).
\<close>

end
